(* ===== verification/Prelude.thy ===== *)
theory Prelude
  imports Main "HOL-Library.Word" "HOL-Library.AList" "HOL-Library.Char_ord"
    "HOL-Library.List_Lexorder" "HOL-Library.Sublist"
begin

text \<open>
  Shared vocabulary of the RaftVDB development: the error values of
  \<^verbatim>\<open>Result<T>\<close>, the state-and-error computations in which the C++ member functions
  are written, ordered maps (\<^verbatim>\<open>std::map\<close>) as sorted association lists, and the
  lemmas on lists that several components use.
\<close>

section \<open>Types and errors\<close>

text \<open>
  \<^verbatim>\<open>std::string\<close> is \<open>string\<close> (a list of \<open>char\<close>, one per byte); the element
  order \<open>Char_ord\<close> with \<open>List_Lexorder\<close> is the unsigned lexicographic order of
  \<^verbatim>\<open>std::string::compare\<close>. Log indexes, terms, byte offsets and clock readings
  (\<^verbatim>\<open>uint64_t\<close>, \<^verbatim>\<open>size_t\<close>, \<^verbatim>\<open>steady_clock\<close> ticks) are \<open>nat\<close>; values that
  are packed, shifted or wrapped by the code are machine words.
\<close>

type_synonym u8 = "8 word"
type_synonym u16 = "16 word"
type_synonym u32 = "32 word"
type_synonym path = string

text \<open>
  The messages of \<^verbatim>\<open>Result<T>::Err\<close>, one constructor per message of the source.
  The text of an operating-system error (\<^verbatim>\<open>strerror(errno)\<close>) is not modelled.
\<close>

datatype error =
    \<comment> \<open>files\<close>
    OpenFailed path | CloseFailed | TruncateFailed | WriteFailed | ReadFailed | SeekFailed
  | SyncFailed | RemoveFailed path | RenameFailed path | CreateDirFailed path
    \<comment> \<open>protobuf\<close>
  | ProtoParseFailed string | ProtoSerializeFailed string | BadEntryType | BadCmdType
    \<comment> \<open>WAL\<close>
  | NotAWalSegment | BadSegmentName | ZeroSegmentSize | NoSegment | IndexNotContiguous
  | EntrySerializeFailed | RecordTooLarge | WalNotOpen | IncompleteHeader | BadMagic
  | IncompletePayload | CrcMismatch | IndexNotFound nat | TruncateIndexZero
    \<comment> \<open>metadata and snapshots\<close>
  | MetaIncomplete | DedupEmptyRequestId
    \<comment> \<open>topology\<close>
  | NoLeaderNoSelf | UnknownNode string | NoSelfId | EmptyNodeId | BadRole string
    \<comment> \<open>raft node\<close>
  | NotLeader | TermRollback | IndexTruncatedBySnapshot nat | LeaseInvalid | ApplyBehind
  | RpcFailed string | VectorIndexMissing | EngineError string
    \<comment> \<open>configuration and client\<close>
  | ConfigError string | BadVectorBytes | BadArgument string

type_synonym 'a result = "error + 'a"

abbreviation Ok :: "'a \<Rightarrow> 'a result" where "Ok \<equiv> Inr"
abbreviation Err :: "error \<Rightarrow> 'a result" where "Err \<equiv> Inl"

section \<open>Computations with state and errors\<close>

text \<open>
  A member function that returns a \<^verbatim>\<open>Result<T>\<close> is a function from the object's
  state to the result and the new state. An early \<^verbatim>\<open>return Err\<close> keeps what the
  function has written so far: the state is part of both outcomes.
\<close>

type_synonym ('s, 'a) prog = "'s \<Rightarrow> 'a result \<times> 's"

definition ret :: "'a \<Rightarrow> ('s, 'a) prog" where
  "ret x = (\<lambda>s. (Ok x, s))"

definition throw :: "error \<Rightarrow> ('s, 'a) prog" where
  "throw e = (\<lambda>s. (Err e, s))"

definition andThen :: "('s, 'a) prog \<Rightarrow> ('a \<Rightarrow> ('s, 'b) prog) \<Rightarrow> ('s, 'b) prog" where
  "andThen m f = (\<lambda>s. case m s of (Err e, s') \<Rightarrow> (Err e, s') | (Ok x, s') \<Rightarrow> f x s')"

definition gets :: "('s \<Rightarrow> 'a) \<Rightarrow> ('s, 'a) prog" where
  "gets f = (\<lambda>s. (Ok (f s), s))"

definition modify :: "('s \<Rightarrow> 's) \<Rightarrow> ('s, unit) prog" where
  "modify f = (\<lambda>s. (Ok (), f s))"

definition whenP :: "bool \<Rightarrow> ('s, unit) prog \<Rightarrow> ('s, unit) prog" where
  "whenP b m = (if b then m else ret ())"

text \<open>A call whose result the source discards (\<^verbatim>\<open>(void)ignored\<close>).\<close>

definition ignoring :: "('s, 'a) prog \<Rightarrow> ('s, unit) prog" where
  "ignoring m = (\<lambda>s. (Ok (), snd (m s)))"

named_theorems prog_simps \<open>unfolding the computations of \<^verbatim>\<open>Result\<close>\<close>

declare ret_def [prog_simps] throw_def [prog_simps] gets_def [prog_simps]
  modify_def [prog_simps] ignoring_def [prog_simps]

lemma andThen_Ok [prog_simps]: "m s = (Ok x, s') \<Longrightarrow> andThen m f s = f x s'"
  by (simp add: andThen_def)

lemma andThen_Err [prog_simps]: "m s = (Err e, s') \<Longrightarrow> andThen m f s = (Err e, s')"
  by (simp add: andThen_def)

lemma whenP_simps [prog_simps]:
  "whenP True m = m" "whenP False m s = (Ok (), s)"
  by (simp_all add: whenP_def ret_def)

lemma andThen_assoc: "andThen (andThen m f) g = andThen m (\<lambda>x. andThen (f x) g)"
  by (rule ext) (auto simp: andThen_def split: prod.splits sum.splits)

text \<open>What every step of a sequence keeps, the sequence keeps.\<close>

lemma andThen_preserves:
  assumes "P s" and "\<And>s. P s \<Longrightarrow> P (snd (m s))" and "\<And>x s. P s \<Longrightarrow> P (snd (f x s))"
  shows "P (snd (andThen m f s))"
proof (cases "m s")
  case (Pair r s')
  with assms(1,2) have "P s'" by (metis snd_conv)
  with Pair assms(3) show ?thesis by (cases r) (auto simp: andThen_def)
qed

section \<open>Ordered maps\<close>

text \<open>
  \<^verbatim>\<open>std::map\<close> is an association list with strictly increasing keys: iteration order is
  list order, \<open>lower_bound\<close> is the first pair at or above the key and \<open>rbegin\<close> the
  last one.
\<close>

fun omap_put :: "'k::linorder \<Rightarrow> 'v \<Rightarrow> ('k \<times> 'v) list \<Rightarrow> ('k \<times> 'v) list" where
  "omap_put k v [] = [(k, v)]"
| "omap_put k v ((k', v') # m) =
     (if k < k' then (k, v) # (k', v') # m
      else if k = k' then (k, v) # m
      else (k', v') # omap_put k v m)"

definition omap_erase :: "'k \<Rightarrow> ('k \<times> 'v) list \<Rightarrow> ('k \<times> 'v) list" where
  "omap_erase k m = filter (\<lambda>(k', _). k' \<noteq> k) m"

definition lower_bound :: "'k::linorder \<Rightarrow> ('k \<times> 'v) list \<Rightarrow> ('k \<times> 'v) list" where
  "lower_bound k m = dropWhile (\<lambda>(k', _). k' < k) m"

abbreviation omap :: "('k::linorder \<times> 'v) list \<Rightarrow> bool" where
  "omap m \<equiv> sorted_wrt (<) (map fst m)"

abbreviation dmap :: "('k \<times> 'v) list \<Rightarrow> bool" where
  "dmap m \<equiv> distinct (map fst m)"

lemma omap_put_keys [simp]: "fst ` set (omap_put k v m) = insert k (fst ` set m)"
proof (induction m)
  case (Cons kv m)
  then show ?case by (cases kv) (simp add: insert_commute)
qed simp

lemma omap_put_omap [simp]: "omap m \<Longrightarrow> omap (omap_put k v m)"
proof (induction m)
  case (Cons kv m)
  obtain k' v' where kv: "kv = (k', v')" by (cases kv)
  have lt: "\<And>a b. (a, b) \<in> set m \<Longrightarrow> k' < a" using Cons.prems by (auto simp: kv)
  moreover have "omap m" using Cons.prems by (simp add: kv)
  ultimately show ?case using Cons.IH by (auto simp: kv dest: less_trans [OF _ lt])
qed simp

lemma map_of_omap_put [simp]:
  "omap m \<Longrightarrow> map_of (omap_put k v m) k' = (if k' = k then Some v else map_of m k')"
proof (induction m)
  case (Cons kv m)
  then show ?case by (cases kv) auto
qed simp

lemma omap_put_last: "\<forall>k' \<in> fst ` set m. k' < k \<Longrightarrow> omap_put k v m = m @ [(k, v)]"
  by (induction m) auto

lemma omap_dmap: "omap m \<Longrightarrow> dmap m"
  by (simp add: strict_sorted_iff)

lemma map_of_omap_erase [simp]:
  "map_of (omap_erase k m) k' = (if k' = k then None else map_of m k')"
  by (induction m) (auto simp: omap_erase_def)

lemma sorted_filter_keys: "omap m \<Longrightarrow> omap (filter P m)"
  by (induction m) (auto simp: strict_sorted_iff)

lemma omap_erase_omap [simp]: "omap m \<Longrightarrow> omap (omap_erase k m)"
  by (simp add: omap_erase_def sorted_filter_keys)

end
