(* ===== verification/LogEntry.thy ===== *)
theory LogEntry
  imports Prelude
begin

text \<open>
  \<^verbatim>\<open>include/raft/log_entry.hpp\<close> and \<^verbatim>\<open>src/raft/log_entry.cpp\<close>: log entries, the
  commands in their payloads, and their translation to protobuf messages. The generated
  protobuf classes are not part of the repository: their \<^verbatim>\<open>SerializeToString\<close> and
  \<^verbatim>\<open>ParseFromArray\<close> are the fields of a \<open>codec\<close>, and \<open>codec_ok\<close> states what proto3
  documents of them.
\<close>

section \<open>Entries, commands and messages\<close>

text \<open>
  \<^verbatim>\<open>enum class EntryType : uint8_t\<close> and \<^verbatim>\<open>CmdType\<close>: a value of the enumeration is a
  byte, and the code casts bytes it has not checked, so the byte is what is kept.
\<close>

definition kNormal :: u8 where "kNormal = 1"
definition kConfig :: u8 where "kConfig = 2"
definition kNoop :: u8 where "kNoop = 3"
definition kUpsert :: u8 where "kUpsert = 1"
definition kDelete :: u8 where "kDelete = 2"

lemmas kind_defs = kNormal_def kConfig_def kNoop_def kUpsert_def kDelete_def

text \<open>A \<^verbatim>\<open>float\<close> is moved and stored but never computed with: its 32 bits.\<close>

type_synonym float32 = "32 word"

record UpsertCmd =
  uc_id :: nat
  uc_vector :: "float32 list"
  uc_request_id :: string

record DeleteCmd =
  dc_id :: nat
  dc_request_id :: string

record LogEntry =
  le_index :: nat
  le_term :: nat
  le_type :: u8
  le_cmd_type :: u8
  le_payload :: string

definition default_LogEntry :: LogEntry where
  "default_LogEntry = \<lparr>le_index = 0, le_term = 0, le_type = kNormal, le_cmd_type = kUpsert, le_payload = []\<rparr>"

text \<open>The messages of \<^verbatim>\<open>proto/raft.proto\<close> that are stored.\<close>

record proto_LogEntry =
  pl_index :: nat
  pl_term :: nat
  pl_type :: u32
  pl_cmd_type :: u32
  pl_payload :: string

record proto_UpsertCmd =
  pu_id :: nat
  pu_vector :: "float32 list"
  pu_request_id :: string

record proto_DeleteCmd =
  pd_id :: nat
  pd_request_id :: string

record proto_RaftMetaRecord =
  pm_current_term :: nat
  pm_voted_for :: string

record proto_DedupRecord =
  pr_request_id :: string
  pr_log_index :: nat
  pr_success :: bool
  pr_error :: string

record codec =
  ser_LogEntry :: "proto_LogEntry \<Rightarrow> string option"
  parse_LogEntry :: "string \<Rightarrow> proto_LogEntry option"
  ser_UpsertCmd :: "proto_UpsertCmd \<Rightarrow> string option"
  parse_UpsertCmd :: "string \<Rightarrow> proto_UpsertCmd option"
  ser_DeleteCmd :: "proto_DeleteCmd \<Rightarrow> string option"
  parse_DeleteCmd :: "string \<Rightarrow> proto_DeleteCmd option"
  ser_RaftMeta :: "proto_RaftMetaRecord \<Rightarrow> string option"
  parse_RaftMeta :: "string \<Rightarrow> proto_RaftMetaRecord option"
  ser_Dedup :: "proto_DedupRecord list \<Rightarrow> string option"
  parse_Dedup :: "string \<Rightarrow> proto_DedupRecord list option"

section \<open>Serialize and Deserialize\<close>

definition IsKnownEntryType :: "u32 \<Rightarrow> bool" where
  "IsKnownEntryType value = (let e = (ucast value :: u8) in e = kNormal \<or> e = kConfig \<or> e = kNoop)"

definition IsKnownCmdType :: "u32 \<Rightarrow> bool" where
  "IsKnownCmdType value = (let e = (ucast value :: u8) in e = kUpsert \<or> e = kDelete)"

text \<open>A failed \<^verbatim>\<open>SerializeToString\<close> gives the empty string (\<^verbatim>\<open>std::string{}\<close>).\<close>

definition SerializeProto :: "('m \<Rightarrow> string option) \<Rightarrow> string \<Rightarrow> 'm \<Rightarrow> string result" where
  "SerializeProto ser type_name m =
     (case ser m of None \<Rightarrow> Err (ProtoSerializeFailed type_name) | Some b \<Rightarrow> Ok b)"

definition ParseProto :: "(string \<Rightarrow> 'm option) \<Rightarrow> string \<Rightarrow> string \<Rightarrow> 'm result" where
  "ParseProto parse type_name d =
     (case parse d of None \<Rightarrow> Err (ProtoParseFailed type_name) | Some m \<Rightarrow> Ok m)"

definition value_or_empty :: "string result \<Rightarrow> string" where
  "value_or_empty r = (case r of Err _ \<Rightarrow> [] | Ok b \<Rightarrow> b)"

definition UpsertCmd_Serialize :: "codec \<Rightarrow> UpsertCmd \<Rightarrow> string" where
  "UpsertCmd_Serialize c u = value_or_empty (SerializeProto (ser_UpsertCmd c) ''UpsertCmd''
     \<lparr>pu_id = uc_id u, pu_vector = uc_vector u, pu_request_id = uc_request_id u\<rparr>)"

definition UpsertCmd_Deserialize :: "codec \<Rightarrow> string \<Rightarrow> UpsertCmd result" where
  "UpsertCmd_Deserialize c d =
     (case ParseProto (parse_UpsertCmd c) ''UpsertCmd'' d of
        Err e \<Rightarrow> Err e
      | Ok m \<Rightarrow> Ok \<lparr>uc_id = pu_id m, uc_vector = pu_vector m, uc_request_id = pu_request_id m\<rparr>)"

definition DeleteCmd_Serialize :: "codec \<Rightarrow> DeleteCmd \<Rightarrow> string" where
  "DeleteCmd_Serialize c u = value_or_empty (SerializeProto (ser_DeleteCmd c) ''DeleteCmd''
     \<lparr>pd_id = dc_id u, pd_request_id = dc_request_id u\<rparr>)"

definition DeleteCmd_Deserialize :: "codec \<Rightarrow> string \<Rightarrow> DeleteCmd result" where
  "DeleteCmd_Deserialize c d =
     (case ParseProto (parse_DeleteCmd c) ''DeleteCmd'' d of
        Err e \<Rightarrow> Err e
      | Ok m \<Rightarrow> Ok \<lparr>dc_id = pd_id m, dc_request_id = pd_request_id m\<rparr>)"

definition LogEntry_toProto :: "LogEntry \<Rightarrow> proto_LogEntry" where
  "LogEntry_toProto e = \<lparr>pl_index = le_index e, pl_term = le_term e, pl_type = ucast (le_type e),
     pl_cmd_type = ucast (le_cmd_type e), pl_payload = le_payload e\<rparr>"

definition LogEntry_Serialize :: "codec \<Rightarrow> LogEntry \<Rightarrow> string" where
  "LogEntry_Serialize c e =
     value_or_empty (SerializeProto (ser_LogEntry c) ''LogEntry'' (LogEntry_toProto e))"

definition LogEntry_Deserialize :: "codec \<Rightarrow> string \<Rightarrow> LogEntry result" where
  "LogEntry_Deserialize c d =
     (case ParseProto (parse_LogEntry c) ''LogEntry'' d of
        Err e \<Rightarrow> Err e
      | Ok m \<Rightarrow>
          if \<not> IsKnownEntryType (pl_type m) then Err BadEntryType
          else if \<not> IsKnownCmdType (pl_cmd_type m) then Err BadCmdType
          else Ok \<lparr>le_index = pl_index m, le_term = pl_term m, le_type = ucast (pl_type m),
                   le_cmd_type = ucast (pl_cmd_type m), le_payload = pl_payload m\<rparr>)"

section \<open>What proto3 documents of the generated classes\<close>

text \<open>
  A message whose 64-bit fields are in range and whose text stays below the 2 GiB limit is
  serialized, parsing gives it back, and only a message of default values has an empty
  encoding. A \<^verbatim>\<open>string\<close> field holds UTF-8 text; the laws ask for ASCII.
\<close>

definition ascii :: "string \<Rightarrow> bool" where
  "ascii s = (\<forall>ch \<in> set s. (of_char ch :: nat) < 128)"

definition log_in_range :: "proto_LogEntry \<Rightarrow> bool" where
  "log_in_range m \<longleftrightarrow> pl_index m < 2 ^ 64 \<and> pl_term m < 2 ^ 64 \<and> length (pl_payload m) < 2 ^ 30"

definition log_codec_ok :: "codec \<Rightarrow> bool" where
  "log_codec_ok c \<longleftrightarrow>
     (\<forall>m. log_in_range m \<longrightarrow> (\<exists>b. ser_LogEntry c m = Some b \<and> parse_LogEntry c b = Some m \<and>
        length b < 2 ^ 32 \<and> (pl_index m = 0 \<or> b \<noteq> [])))"

definition cmd_codec_ok :: "codec \<Rightarrow> bool" where
  "cmd_codec_ok c \<longleftrightarrow>
     (\<forall>m b. pu_id m < 2 ^ 64 \<and> ascii (pu_request_id m) \<and> ser_UpsertCmd c m = Some b \<longrightarrow>
        parse_UpsertCmd c b = Some m) \<and>
     (\<forall>m b. pd_id m < 2 ^ 64 \<and> ascii (pd_request_id m) \<and> ser_DeleteCmd c m = Some b \<longrightarrow>
        parse_DeleteCmd c b = Some m)"

definition meta_codec_ok :: "codec \<Rightarrow> bool" where
  "meta_codec_ok c \<longleftrightarrow>
     (\<forall>m. pm_current_term m < 2 ^ 64 \<and> ascii (pm_voted_for m) \<longrightarrow>
        (\<exists>b. ser_RaftMeta c m = Some b \<and> parse_RaftMeta c b = Some m))"

definition dedup_codec_ok :: "codec \<Rightarrow> bool" where
  "dedup_codec_ok c \<longleftrightarrow>
     (\<forall>ms. (\<forall>m \<in> set ms. pr_log_index m < 2 ^ 64 \<and> ascii (pr_request_id m) \<and> ascii (pr_error m)) \<longrightarrow>
        (\<exists>b. ser_Dedup c ms = Some b \<and> parse_Dedup c b = Some ms))"

definition codec_ok :: "codec \<Rightarrow> bool" where
  "codec_ok c \<longleftrightarrow> log_codec_ok c \<and> cmd_codec_ok c \<and> meta_codec_ok c \<and> dedup_codec_ok c"

lemma codec_log:
  assumes "codec_ok c" and "log_in_range m"
  obtains b where "ser_LogEntry c m = Some b" and "parse_LogEntry c b = Some m"
    and "length b < 2 ^ 32" and "pl_index m = 0 \<or> b \<noteq> []"
  using assms unfolding codec_ok_def log_codec_ok_def by blast

lemma codec_upsert:
  "codec_ok c \<Longrightarrow> pu_id m < 2 ^ 64 \<Longrightarrow> ascii (pu_request_id m) \<Longrightarrow> ser_UpsertCmd c m = Some b
   \<Longrightarrow> parse_UpsertCmd c b = Some m"
  by (simp add: codec_ok_def cmd_codec_ok_def)

lemma codec_delete:
  "codec_ok c \<Longrightarrow> pd_id m < 2 ^ 64 \<Longrightarrow> ascii (pd_request_id m) \<Longrightarrow> ser_DeleteCmd c m = Some b
   \<Longrightarrow> parse_DeleteCmd c b = Some m"
  by (simp add: codec_ok_def cmd_codec_ok_def)

lemma codec_meta:
  "codec_ok c \<Longrightarrow> pm_current_term m < 2 ^ 64 \<Longrightarrow> ascii (pm_voted_for m) \<Longrightarrow>
   \<exists>b. ser_RaftMeta c m = Some b \<and> parse_RaftMeta c b = Some m"
  by (simp add: codec_ok_def meta_codec_ok_def)

lemma codec_dedup:
  "codec_ok c \<Longrightarrow> \<forall>m \<in> set ms. pr_log_index m < 2 ^ 64 \<and> ascii (pr_request_id m) \<and> ascii (pr_error m) \<Longrightarrow>
   \<exists>b. ser_Dedup c ms = Some b \<and> parse_Dedup c b = Some ms"
  by (simp add: codec_ok_def dedup_codec_ok_def)

text \<open>An entry the log can hold: known kinds, positive index, fields in range.\<close>

definition entry_ok :: "LogEntry \<Rightarrow> bool" where
  "entry_ok e \<longleftrightarrow> 0 < le_index e \<and> le_index e < 2 ^ 64 \<and> le_term e < 2 ^ 64 \<and>
     length (le_payload e) < 2 ^ 30 \<and> le_type e \<in> {kNormal, kConfig, kNoop} \<and>
     le_cmd_type e \<in> {kUpsert, kDelete}"

lemma entry_ok_index: "entry_ok e \<Longrightarrow> 0 < le_index e"
  by (simp add: entry_ok_def)

lemma ucast_u8_u32_u8 [simp]: "ucast (ucast (b :: u8) :: u32) = b"
  by transfer (simp add: min_def)

lemma LogEntry_roundtrip:
  assumes "codec_ok c" and "entry_ok e"
  shows "LogEntry_Deserialize c (LogEntry_Serialize c e) = Ok e"
    and "LogEntry_Serialize c e \<noteq> []"
    and "length (LogEntry_Serialize c e) < 2 ^ 32"
proof -
  let ?m = "LogEntry_toProto e"
  have "log_in_range ?m"
    using assms(2) by (simp add: log_in_range_def LogEntry_toProto_def entry_ok_def)
  with assms(1) obtain b where b: "ser_LogEntry c ?m = Some b" "parse_LogEntry c b = Some ?m"
    "length b < 2 ^ 32" "pl_index ?m = 0 \<or> b \<noteq> []"
    by (rule codec_log)
  have s: "LogEntry_Serialize c e = b"
    by (simp add: LogEntry_Serialize_def SerializeProto_def value_or_empty_def b)
  show "LogEntry_Serialize c e \<noteq> []" and "length (LogEntry_Serialize c e) < 2 ^ 32"
    using b assms(2) by (simp_all add: s LogEntry_toProto_def entry_ok_def)
  have "IsKnownEntryType (pl_type ?m)" and "IsKnownCmdType (pl_cmd_type ?m)"
    using assms(2)
    by (simp_all add: IsKnownEntryType_def IsKnownCmdType_def LogEntry_toProto_def entry_ok_def)
  then show "LogEntry_Deserialize c (LogEntry_Serialize c e) = Ok e"
    by (simp add: s LogEntry_Deserialize_def ParseProto_def b)
      (simp add: LogEntry_toProto_def)
qed

text \<open>Every entry that is read back has one of the kinds the code knows.\<close>

lemma LogEntry_Deserialize_known:
  assumes "LogEntry_Deserialize c d = Ok e"
  shows "le_type e \<in> {kNormal, kConfig, kNoop}" and "le_cmd_type e \<in> {kUpsert, kDelete}"
  using assms
  by (auto simp: LogEntry_Deserialize_def ParseProto_def IsKnownEntryType_def IsKnownCmdType_def
      Let_def split: option.splits if_splits)

lemma UpsertCmd_roundtrip:
  assumes "codec_ok c" and "uc_id u < 2 ^ 64" and "ascii (uc_request_id u)"
    and "UpsertCmd_Serialize c u \<noteq> []"
  shows "UpsertCmd_Deserialize c (UpsertCmd_Serialize c u) = Ok u"
proof -
  let ?m = "\<lparr>pu_id = uc_id u, pu_vector = uc_vector u, pu_request_id = uc_request_id u\<rparr>"
  from assms(4) obtain b where b: "ser_UpsertCmd c ?m = Some b"
    by (auto simp: UpsertCmd_Serialize_def SerializeProto_def value_or_empty_def split: option.splits)
  then have "parse_UpsertCmd c b = Some ?m"
    using codec_upsert [OF assms(1), of ?m b] assms(2,3) by simp
  with b show ?thesis
    by (simp add: UpsertCmd_Serialize_def UpsertCmd_Deserialize_def SerializeProto_def
        ParseProto_def value_or_empty_def)
qed

lemma DeleteCmd_roundtrip:
  assumes "codec_ok c" and "dc_id u < 2 ^ 64" and "ascii (dc_request_id u)"
    and "DeleteCmd_Serialize c u \<noteq> []"
  shows "DeleteCmd_Deserialize c (DeleteCmd_Serialize c u) = Ok u"
proof -
  let ?m = "\<lparr>pd_id = dc_id u, pd_request_id = dc_request_id u\<rparr>"
  from assms(4) obtain b where b: "ser_DeleteCmd c ?m = Some b"
    by (auto simp: DeleteCmd_Serialize_def SerializeProto_def value_or_empty_def split: option.splits)
  then have "parse_DeleteCmd c b = Some ?m"
    using codec_delete [OF assms(1), of ?m b] assms(2,3) by simp
  with b show ?thesis
    by (simp add: DeleteCmd_Serialize_def DeleteCmd_Deserialize_def SerializeProto_def
        ParseProto_def value_or_empty_def)
qed

end
