(* ===== verification/Topology.thy ===== *)
theory Topology
  imports Prelude
begin

text \<open>
  \<^verbatim>\<open>include/raft/topology.hpp\<close> and \<^verbatim>\<open>src/raft/topology.cpp\<close>: the chain-replication topology.
  The leader feeds the mentors, a mentor feeds at most one follower. The \<^verbatim>\<open>unordered_map\<close>
  \<open>nodes_\<close> is an association list whose order is the (arbitrary) iteration order.
\<close>

section \<open>State\<close>

datatype NodeRole = kLeader | kMentor | kFollower

record NodeInfo =
  ni_node_id :: string
  ni_addr :: string
  ni_role :: NodeRole
  ni_source_node_id :: string
  ni_healthy :: bool

record TopologyManager =
  tm_self_id :: string
  tm_self_addr :: string
  tm_leader_id :: string
  tm_registered_addrs :: "(string \<times> string) list"
  tm_nodes :: "(string \<times> NodeInfo) list"

record TopologyInfo =
  ti_role :: string
  ti_source_node_id :: string
  ti_follower_node_id :: string

definition empty_TopologyInfo :: TopologyInfo where
  "empty_TopologyInfo = \<lparr>ti_role = [], ti_source_node_id = [], ti_follower_node_id = []\<rparr>"

section \<open>Helpers that run under the lock\<close>

definition ResolveAddressLocked :: "string \<Rightarrow> TopologyManager \<Rightarrow> string" where
  "ResolveAddressLocked node_id t =
     (if node_id = tm_self_id t \<and> tm_self_addr t \<noteq> [] then tm_self_addr t
      else case map_of (tm_registered_addrs t) node_id of
          Some a \<Rightarrow> if a \<noteq> [] then a else
            (case map_of (tm_nodes t) node_id of Some n \<Rightarrow> if ni_addr n \<noteq> [] then ni_addr n else node_id
             | None \<Rightarrow> node_id)
        | None \<Rightarrow>
            (case map_of (tm_nodes t) node_id of Some n \<Rightarrow> if ni_addr n \<noteq> [] then ni_addr n else node_id
             | None \<Rightarrow> node_id))"

definition on_node :: "string \<Rightarrow> (NodeInfo \<Rightarrow> NodeInfo) \<Rightarrow> TopologyManager \<Rightarrow> TopologyManager" where
  "on_node node_id f t = t\<lparr>tm_nodes := AList.map_entry node_id f (tm_nodes t)\<rparr>"

definition EnsureNodeLocked :: "string \<Rightarrow> TopologyManager \<Rightarrow> TopologyManager" where
  "EnsureNodeLocked node_id t = (case map_of (tm_nodes t) node_id of
       None \<Rightarrow> t\<lparr>tm_nodes := AList.update node_id
         \<lparr>ni_node_id = node_id, ni_addr = ResolveAddressLocked node_id t, ni_role = kFollower,
          ni_source_node_id = [], ni_healthy = True\<rparr> (tm_nodes t)\<rparr>
     | Some _ \<Rightarrow> on_node node_id (\<lambda>n.
         let n = (if ni_node_id n = [] then n\<lparr>ni_node_id := node_id\<rparr> else n)
         in if ni_addr n = [] then n\<lparr>ni_addr := ResolveAddressLocked node_id t\<rparr> else n) t)"

definition set_addr :: "string \<Rightarrow> TopologyManager \<Rightarrow> TopologyManager" where
  "set_addr node_id t = on_node node_id (\<lambda>n. n\<lparr>ni_addr := ResolveAddressLocked node_id t\<rparr>) t"

definition EnsureLeaderLocked :: "TopologyManager \<Rightarrow> TopologyManager" where
  "EnsureLeaderLocked t =
     (if tm_leader_id t = [] then t
      else set_addr (tm_leader_id t)
        (on_node (tm_leader_id t)
           (\<lambda>n. n\<lparr>ni_role := kLeader, ni_source_node_id := [], ni_healthy := True\<rparr>)
           (EnsureNodeLocked (tm_leader_id t) t)))"

definition SortedMentorIdsLocked :: "TopologyManager \<Rightarrow> string list" where
  "SortedMentorIdsLocked t =
     sort (map fst (filter (\<lambda>(_, n). ni_healthy n \<and> ni_role n = kMentor) (tm_nodes t)))"

definition FindFollowerIdOfLocked :: "string \<Rightarrow> TopologyManager \<Rightarrow> string option" where
  "FindFollowerIdOfLocked mentor_id t = map_option fst
     (find (\<lambda>(_, n). ni_healthy n \<and> ni_role n = kFollower \<and> ni_source_node_id n = mentor_id) (tm_nodes t))"

definition SelectSourceForFollowerLocked :: "string \<Rightarrow> TopologyManager \<Rightarrow> string" where
  "SelectSourceForFollowerLocked follower_id t =
     (case find (\<lambda>mentor_id. mentor_id \<noteq> follower_id \<and>
                   FindFollowerIdOfLocked mentor_id t \<in> {None, Some follower_id})
             (SortedMentorIdsLocked t) of
        Some mentor_id \<Rightarrow> mentor_id
      | None \<Rightarrow> if tm_leader_id t \<noteq> [] \<and> tm_leader_id t \<noteq> follower_id then tm_leader_id t else [])"

definition reassign_one :: "string \<Rightarrow> TopologyManager \<Rightarrow> TopologyManager" where
  "reassign_one follower_id t =
     on_node follower_id (\<lambda>n. n\<lparr>ni_source_node_id := SelectSourceForFollowerLocked follower_id t\<rparr>) t"

definition ReassignFollowersLocked :: "string \<Rightarrow> string \<Rightarrow> TopologyManager \<Rightarrow> TopologyManager" where
  "ReassignFollowersLocked old_source exclude_node_id t =
     (if old_source = [] then t
      else fold reassign_one
        (sort (map fst (filter (\<lambda>(k, n). ni_healthy n \<and> ni_role n = kFollower \<and>
           ni_source_node_id n = old_source \<and> k \<noteq> exclude_node_id) (tm_nodes t)))) t)"

definition NormalizeMentorSourcesLocked :: "TopologyManager \<Rightarrow> TopologyManager" where
  "NormalizeMentorSourcesLocked t =
     (if tm_leader_id t = [] then t
      else let t = EnsureLeaderLocked t in
        t\<lparr>tm_nodes := map (\<lambda>(k, n).
            (k, if k = tm_leader_id t then n\<lparr>ni_role := kLeader, ni_source_node_id := []\<rparr>
                else if ni_role n = kMentor then n\<lparr>ni_source_node_id := tm_leader_id t\<rparr>
                else n)) (tm_nodes t)\<rparr>)"

definition RoleToString :: "NodeRole \<Rightarrow> string" where
  "RoleToString role = (case role of kLeader \<Rightarrow> ''leader'' | kMentor \<Rightarrow> ''mentor'' | kFollower \<Rightarrow> ''follower'')"

definition ParseRole :: "string \<Rightarrow> NodeRole result" where
  "ParseRole role =
     (if role = ''leader'' then Ok kLeader
      else if role = ''mentor'' then Ok kMentor
      else if role = ''follower'' then Ok kFollower
      else Err (BadRole role))"

section \<open>Registration\<close>

definition register :: "string \<Rightarrow> string \<Rightarrow> TopologyManager \<Rightarrow> TopologyManager" where
  "register node_id addr t = t\<lparr>tm_registered_addrs := AList.update node_id addr (tm_registered_addrs t)\<rparr>"

definition Topology_RegisterNode :: "string \<Rightarrow> string \<Rightarrow> TopologyManager \<Rightarrow> TopologyManager" where
  "Topology_RegisterNode node_id addr t =
     (if node_id = [] then t
      else set_addr node_id (EnsureNodeLocked node_id (register node_id addr t)))"

definition Topology_RegisterNodes :: "(string \<times> string) list \<Rightarrow> TopologyManager \<Rightarrow> TopologyManager" where
  "Topology_RegisterNodes nodes t = fold (\<lambda>(node_id, addr). Topology_RegisterNode node_id addr) nodes t"

definition TopologyManager_new :: "string \<Rightarrow> string \<Rightarrow> TopologyManager" where
  "TopologyManager_new self_id self_addr =
     (let t = \<lparr>tm_self_id = self_id, tm_self_addr = self_addr, tm_leader_id = [],
               tm_registered_addrs = [], tm_nodes = []\<rparr>
      in if self_id \<noteq> [] then Topology_RegisterNode self_id self_addr t else t)"

definition Topology_SetSelf :: "string \<Rightarrow> string \<Rightarrow> TopologyManager \<Rightarrow> TopologyManager" where
  "Topology_SetSelf self_id self_addr t =
     (let t = t\<lparr>tm_self_id := self_id, tm_self_addr := self_addr\<rparr>
      in if self_id \<noteq> []
         then set_addr self_id (EnsureNodeLocked self_id (register self_id self_addr t)) else t)"

definition Topology_SetLeader :: "string \<Rightarrow> string \<Rightarrow> TopologyManager \<Rightarrow> TopologyManager" where
  "Topology_SetLeader leader_id leader_addr t =
     (let t = t\<lparr>tm_leader_id := leader_id\<rparr>;
          t = (if leader_addr \<noteq> []
               then (let t = register leader_id leader_addr t
                     in if leader_id = tm_self_id t then t\<lparr>tm_self_addr := leader_addr\<rparr> else t)
               else t)
      in EnsureLeaderLocked t)"

section \<open>Rebalance\<close>

fun collect_candidates ::
    "string list \<Rightarrow> string list \<Rightarrow> TopologyManager \<Rightarrow> string list \<times> TopologyManager" where
  "collect_candidates [] candidates t = (candidates, t)"
| "collect_candidates (node_id # healthy_nodes) candidates t =
     (if node_id = [] \<or> node_id = tm_leader_id t \<or> node_id \<in> set candidates
      then collect_candidates healthy_nodes candidates t
      else collect_candidates healthy_nodes (candidates @ [node_id])
        (on_node node_id (\<lambda>n. n\<lparr>ni_healthy := True\<rparr>)
          (set_addr node_id (EnsureNodeLocked node_id t))))"

fun assign_roles :: "nat \<Rightarrow> nat \<Rightarrow> string list \<Rightarrow> string list \<Rightarrow> TopologyManager \<Rightarrow> TopologyManager" where
  "assign_roles mentor_count index mentors [] t = t"
| "assign_roles mentor_count index mentors (node_id # candidates) t =
     (if index < mentor_count
      then assign_roles mentor_count (Suc index)
        (mentors @ [case map_of (tm_nodes t) node_id of Some n \<Rightarrow> ni_node_id n | None \<Rightarrow> node_id]) candidates
        (on_node node_id (\<lambda>n. n\<lparr>ni_role := kMentor, ni_source_node_id := tm_leader_id t\<rparr>) t)
      else assign_roles mentor_count (Suc index) mentors candidates
        (on_node node_id (\<lambda>n. n\<lparr>ni_role := kFollower,
           ni_source_node_id := mentors ! (index - mentor_count)\<rparr>) t))"

definition reset_nodes :: "TopologyManager \<Rightarrow> TopologyManager" where
  "reset_nodes t = t\<lparr>tm_nodes := map (\<lambda>(k, n).
     (k, if k = tm_leader_id t
         then n\<lparr>ni_addr := ResolveAddressLocked k t, ni_role := kLeader, ni_source_node_id := [], ni_healthy := True\<rparr>
         else n\<lparr>ni_addr := ResolveAddressLocked k t, ni_role := kFollower, ni_source_node_id := [], ni_healthy := False\<rparr>))
     (tm_nodes t)\<rparr>"

definition Topology_Rebalance :: "string list \<Rightarrow> (TopologyManager, unit) prog" where
  "Topology_Rebalance healthy_nodes = (\<lambda>t.
     if tm_leader_id t = [] \<and> tm_self_id t = [] then (Err NoLeaderNoSelf, t)
     else
       let t = (if tm_leader_id t = [] then t\<lparr>tm_leader_id := tm_self_id t\<rparr> else t);
           (candidates, t) = collect_candidates healthy_nodes [] (reset_nodes (EnsureLeaderLocked t));
           candidates = sort candidates;
           mentor_count = (length candidates + 1) div 2
       in (Ok (), assign_roles mentor_count 0 [] candidates t))"

section \<open>Queries\<close>

definition Topology_GetMentors :: "TopologyManager \<Rightarrow> NodeInfo list" where
  "Topology_GetMentors t = sort_key ni_node_id
     (map snd (filter (\<lambda>(_, n). ni_healthy n \<and> ni_role n = kMentor) (tm_nodes t)))"

definition Topology_GetNode :: "string \<Rightarrow> TopologyManager \<Rightarrow> NodeInfo option" where
  "Topology_GetNode node_id t = map_of (tm_nodes t) node_id"

definition Topology_GetFollowerOf :: "string \<Rightarrow> TopologyManager \<Rightarrow> NodeInfo option" where
  "Topology_GetFollowerOf mentor_id t = (case FindFollowerIdOfLocked mentor_id t of
     None \<Rightarrow> None | Some follower_id \<Rightarrow> map_of (tm_nodes t) follower_id)"

definition Topology_AllNodes :: "TopologyManager \<Rightarrow> NodeInfo list" where
  "Topology_AllNodes t = sort_key ni_node_id (map snd (tm_nodes t))"

definition Topology_GetRole :: "string \<Rightarrow> TopologyManager \<Rightarrow> NodeRole" where
  "Topology_GetRole node_id t = (case map_of (tm_nodes t) node_id of None \<Rightarrow> kFollower | Some n \<Rightarrow> ni_role n)"

definition Topology_GetSource :: "string \<Rightarrow> TopologyManager \<Rightarrow> string" where
  "Topology_GetSource node_id t = (case map_of (tm_nodes t) node_id of None \<Rightarrow> [] | Some n \<Rightarrow> ni_source_node_id n)"

definition Topology_GetMentorOf :: "string \<Rightarrow> TopologyManager \<Rightarrow> NodeInfo option" where
  "Topology_GetMentorOf follower_id t = (case map_of (tm_nodes t) follower_id of
       None \<Rightarrow> None
     | Some n \<Rightarrow> if ni_role n \<noteq> kFollower \<or> ni_source_node_id n = [] then None
                 else map_of (tm_nodes t) (ni_source_node_id n))"

section \<open>Local adjustments\<close>

definition Topology_PromoteToMentor :: "string \<Rightarrow> TopologyManager \<Rightarrow> TopologyManager" where
  "Topology_PromoteToMentor node_id t =
     (if node_id = [] then t
      else let t = EnsureNodeLocked node_id (EnsureLeaderLocked t);
               t = on_node node_id (\<lambda>n. n\<lparr>ni_healthy := True,
                     ni_role := (if node_id = tm_leader_id t then kLeader else kMentor),
                     ni_source_node_id := (if node_id = tm_leader_id t then [] else tm_leader_id t)\<rparr>) t
           in set_addr node_id t)"

definition Topology_DemoteToFollower :: "string \<Rightarrow> TopologyManager \<Rightarrow> TopologyManager" where
  "Topology_DemoteToFollower node_id t =
     (if node_id = [] \<or> node_id = tm_leader_id t then t
      else let t = EnsureNodeLocked node_id (EnsureLeaderLocked t);
               t = on_node node_id (\<lambda>n. n\<lparr>ni_healthy := True, ni_role := kFollower\<rparr>) t;
               t = on_node node_id (\<lambda>n. n\<lparr>ni_source_node_id := SelectSourceForFollowerLocked node_id t\<rparr>) t
           in ReassignFollowersLocked node_id node_id (set_addr node_id t))"

definition Topology_SwapFollowers :: "string \<Rightarrow> string \<Rightarrow> TopologyManager \<Rightarrow> TopologyManager" where
  "Topology_SwapFollowers mentor_a mentor_b t =
     (if mentor_a = [] \<or> mentor_b = [] \<or> mentor_a = mentor_b then t
      else let follower_a = FindFollowerIdOfLocked mentor_a t;
               follower_b = FindFollowerIdOfLocked mentor_b t;
               t = (case follower_a of None \<Rightarrow> t
                    | Some a \<Rightarrow> on_node a (\<lambda>n. n\<lparr>ni_source_node_id := mentor_b\<rparr>) t)
           in (case follower_b of None \<Rightarrow> t
               | Some b \<Rightarrow> on_node b (\<lambda>n. n\<lparr>ni_source_node_id := mentor_a\<rparr>) t))"

definition Topology_MarkUnhealthy :: "string \<Rightarrow> TopologyManager \<Rightarrow> TopologyManager" where
  "Topology_MarkUnhealthy node_id t =
     (if node_id = [] then t
      else let t = EnsureNodeLocked node_id t in
        if node_id = tm_leader_id t
        then on_node node_id (\<lambda>n. n\<lparr>ni_healthy := False, ni_role := kLeader, ni_source_node_id := []\<rparr>) t
        else ReassignFollowersLocked node_id []
          (on_node node_id (\<lambda>n. n\<lparr>ni_healthy := False, ni_role := kFollower, ni_source_node_id := []\<rparr>) t))"

definition Topology_MarkHealthy :: "string \<Rightarrow> TopologyManager \<Rightarrow> TopologyManager" where
  "Topology_MarkHealthy node_id t =
     (if node_id = [] then t
      else let t = EnsureNodeLocked node_id (EnsureLeaderLocked t);
               t = set_addr node_id (on_node node_id (\<lambda>n. n\<lparr>ni_healthy := True\<rparr>) t)
           in if node_id = tm_leader_id t
              then on_node node_id (\<lambda>n. n\<lparr>ni_role := kLeader, ni_source_node_id := []\<rparr>) t
              else if Topology_GetSource node_id t = []
              then (let t = on_node node_id (\<lambda>n. n\<lparr>ni_role := kFollower\<rparr>) t
                    in on_node node_id (\<lambda>n. n\<lparr>ni_source_node_id := SelectSourceForFollowerLocked node_id t\<rparr>) t)
              else t)"

section \<open>Views sent to the peers\<close>

definition Topology_ToProto :: "string \<Rightarrow> TopologyManager \<Rightarrow> TopologyInfo result" where
  "Topology_ToProto node_id t = (case map_of (tm_nodes t) node_id of
       None \<Rightarrow> Err (UnknownNode node_id)
     | Some n \<Rightarrow> Ok \<lparr>ti_role = RoleToString (ni_role n), ti_source_node_id = ni_source_node_id n,
         ti_follower_node_id =
           (if ni_role n = kMentor
            then (case FindFollowerIdOfLocked node_id t of None \<Rightarrow> [] | Some f \<Rightarrow> f) else [])\<rparr>)"

definition Topology_ToProtoSelf :: "TopologyManager \<Rightarrow> TopologyInfo" where
  "Topology_ToProtoSelf t = (case Topology_ToProto (tm_self_id t) t of
     Err _ \<Rightarrow> empty_TopologyInfo | Ok p \<Rightarrow> p)"

definition apply_source :: "string \<Rightarrow> TopologyManager \<Rightarrow> TopologyManager" where
  "apply_source node_id t =
     (if Topology_GetRole node_id t = kLeader
      then EnsureLeaderLocked (on_node node_id (\<lambda>n. n\<lparr>ni_source_node_id := []\<rparr>) (t\<lparr>tm_leader_id := node_id\<rparr>))
      else let source = Topology_GetSource node_id t in
        if source = [] then t
        else let t = on_node source (\<lambda>n. n\<lparr>ni_healthy := True\<rparr>) (set_addr source (EnsureNodeLocked source t))
          in if Topology_GetRole node_id t = kMentor
             then on_node source (\<lambda>n. n\<lparr>ni_role := kLeader, ni_source_node_id := []\<rparr>) (t\<lparr>tm_leader_id := source\<rparr>)
             else t)"

definition apply_follower :: "string \<Rightarrow> string \<Rightarrow> TopologyManager \<Rightarrow> TopologyManager" where
  "apply_follower node_id follower t =
     (if Topology_GetRole node_id t \<noteq> kMentor then t
      else let t = (case FindFollowerIdOfLocked node_id t of
                 None \<Rightarrow> t
               | Some stale \<Rightarrow> if stale \<noteq> follower
                   then on_node stale (\<lambda>n. n\<lparr>ni_role := kFollower, ni_source_node_id := []\<rparr>) t else t)
        in if follower = [] then t
           else on_node follower (\<lambda>n. n\<lparr>ni_role := kFollower, ni_source_node_id := node_id, ni_healthy := True\<rparr>)
             (set_addr follower (EnsureNodeLocked follower t)))"

definition Topology_FromProto :: "string \<Rightarrow> TopologyInfo \<Rightarrow> string \<Rightarrow> (TopologyManager, unit) prog" where
  "Topology_FromProto node_id p node_addr = (\<lambda>t.
     if node_id = [] then (Err EmptyNodeId, t)
     else case ParseRole (ti_role p) of
         Err e \<Rightarrow> (Err e, t)
       | Ok role \<Rightarrow>
           let t = (if node_addr \<noteq> []
                    then (let t = register node_id node_addr t
                          in if node_id = tm_self_id t then t\<lparr>tm_self_addr := node_addr\<rparr> else t)
                    else t);
               t = set_addr node_id (EnsureNodeLocked node_id t);
               t = on_node node_id (\<lambda>n. n\<lparr>ni_role := role, ni_source_node_id := ti_source_node_id p,
                     ni_healthy := True\<rparr>) t
           in (Ok (), NormalizeMentorSourcesLocked
                (apply_follower node_id (ti_follower_node_id p) (apply_source node_id t))))"

definition Topology_FromProtoSelf :: "TopologyInfo \<Rightarrow> (TopologyManager, unit) prog" where
  "Topology_FromProtoSelf p = (\<lambda>t.
     if tm_self_id t = [] then (Err NoSelfId, t)
     else Topology_FromProto (tm_self_id t) p (tm_self_addr t) t)"

end
