(* ===== verification/RaftMessages.thy ===== *)
theory RaftMessages
  imports LogEntry Topology
begin

text \<open>
  The messages of \<^verbatim>\<open>proto/raft.proto\<close> that the nodes and the clients exchange, as records with
  the fields of the protobuf messages, and the text of an error (\<^verbatim>\<open>Result::error\<close>).
\<close>

record AppendEntriesRequest =
  ar_term :: nat
  ar_leader_id :: string
  ar_prev_log_index :: nat
  ar_prev_log_term :: nat
  ar_entries :: "proto_LogEntry list"
  ar_leader_commit :: nat
  ar_topology :: TopologyInfo
  ar_sender_id :: string

record AppendEntriesResponse =
  as_term :: nat
  as_success :: bool
  as_match_index :: nat
  as_conflict_index :: nat
  as_conflict_term :: nat
  as_node_id :: string

record RequestVoteRequest =
  vq_term :: nat
  vq_candidate_id :: string
  vq_last_log_index :: nat
  vq_last_log_term :: nat

record RequestVoteResponse =
  vs_term :: nat
  vs_vote_granted :: bool

record HeartbeatRequest =
  hr_term :: nat
  hr_leader_id :: string
  hr_commit_index :: nat
  hr_topology :: TopologyInfo

record HeartbeatResponse =
  hs_term :: nat
  hs_success :: bool
  hs_node_id :: string

record SnapshotChunk =
  ch_data :: string
  ch_offset :: nat
  ch_is_last :: bool
  ch_raft_term :: nat
  ch_raft_index :: nat
  ch_dim :: u32
  ch_metric :: string
  ch_data_type :: string
  ch_file_name :: string
  ch_leader_term :: nat

record InstallSnapshotResponse =
  is_term :: nat
  is_success :: bool

record ClientWriteRequest =
  cw_cmd_type :: u32
  cw_id :: nat
  cw_vector :: string
  cw_request_id :: string

record ClientWriteResponse =
  cr_success :: bool
  cr_error :: string
  cr_redirect_to :: string

record ClientSearchRequest =
  cq_vector :: string
  cq_top_k :: u32

record ClientSearchResponse =
  ct_success :: bool
  ct_error :: string
  ct_redirect_to :: string
  ct_hits :: "(nat \<times> float32) list"

record LeaderInfo =
  li_leader_id :: string
  li_leader_addr :: string
  li_term :: nat

text \<open>The message of an error; every message of the source is a non-empty text.\<close>

definition what :: "error \<Rightarrow> string" where
  "what e = (case e of
       ProtoParseFailed t \<Rightarrow> ''parse: '' @ t
     | ProtoSerializeFailed t \<Rightarrow> ''serialize: '' @ t
     | EngineError t \<Rightarrow> ''engine: '' @ t
     | BadArgument t \<Rightarrow> ''argument: '' @ t
     | ConfigError t \<Rightarrow> ''config: '' @ t
     | UnknownNode t \<Rightarrow> ''node: '' @ t
     | BadRole t \<Rightarrow> ''role: '' @ t
     | RpcFailed t \<Rightarrow> ''rpc: '' @ t
     | BadVectorBytes \<Rightarrow> ''vector bytes''
     | NotLeader \<Rightarrow> ''not leader''
     | LeaseInvalid \<Rightarrow> ''lease''
     | ApplyBehind \<Rightarrow> ''apply behind''
     | VectorIndexMissing \<Rightarrow> ''no vector index''
     | _ \<Rightarrow> ''storage'')"

definition append_reply :: "string \<Rightarrow> nat \<Rightarrow> bool \<Rightarrow> AppendEntriesResponse" where
  "append_reply node_id term success = \<lparr>as_term = term, as_success = success, as_match_index = 0,
     as_conflict_index = 0, as_conflict_term = 0, as_node_id = node_id\<rparr>"

definition write_reply :: "bool \<Rightarrow> string \<Rightarrow> string \<Rightarrow> ClientWriteResponse" where
  "write_reply success err redirect = \<lparr>cr_success = success, cr_error = err, cr_redirect_to = redirect\<rparr>"

definition search_reply :: "bool \<Rightarrow> string \<Rightarrow> string \<Rightarrow> ClientSearchResponse" where
  "search_reply success err redirect =
     \<lparr>ct_success = success, ct_error = err, ct_redirect_to = redirect, ct_hits = []\<rparr>"

end
