(* ===== verification/Posix.thy ===== *)
theory Posix
  imports Prelude
begin

text \<open>
  The part of POSIX and of \<^verbatim>\<open>std::filesystem\<close> the storage code uses. A file system is an
  association list from paths to contents (its order is the order in which
  \<^verbatim>\<open>directory_iterator\<close> lists a directory) and a script of the outcomes of the coming
  system calls: a call takes the next outcome, and once the script is used up every call
  succeeds in full. Short transfers, interrupted calls and I/O errors are thus inputs of
  the model, and every loop around a system call ends.
\<close>

section \<open>Files and scripted outcomes\<close>

datatype io_outcome =
    IoOk            \<comment> \<open>the call succeeds; a transfer moves every byte asked for\<close>
  | IoShort nat     \<comment> \<open>a transfer moves at most \<open>n + 1\<close> bytes\<close>
  | IoIntr          \<comment> \<open>a transfer returns -1 with \<^verbatim>\<open>EINTR\<close>\<close>
  | IoErr           \<comment> \<open>the call fails\<close>

record os =
  os_files :: "(path \<times> string) list"
  os_io :: "io_outcome list"

definition next_io :: "os \<Rightarrow> io_outcome \<times> os" where
  "next_io s = (case os_io s of [] \<Rightarrow> (IoOk, s) | x # xs \<Rightarrow> (x, s\<lparr>os_io := xs\<rparr>))"

abbreviation quiet :: "os \<Rightarrow> bool" where
  "quiet s \<equiv> os_io s = []"

definition content :: "os \<Rightarrow> path \<Rightarrow> string" where
  "content s p = (case map_of (os_files s) p of None \<Rightarrow> [] | Some c \<Rightarrow> c)"

definition file_exists :: "os \<Rightarrow> path \<Rightarrow> bool" where
  "file_exists s p = (map_of (os_files s) p \<noteq> None)"

definition put_file :: "path \<Rightarrow> string \<Rightarrow> os \<Rightarrow> os" where
  "put_file p c s = s\<lparr>os_files := AList.update p c (os_files s)\<rparr>"

definition del_file :: "path \<Rightarrow> os \<Rightarrow> os" where
  "del_file p s = s\<lparr>os_files := AList.delete p (os_files s)\<rparr>"

text \<open>Writing \<open>d\<close> at offset \<open>off\<close>; a gap past the end reads as zero bytes.\<close>

definition splice :: "nat \<Rightarrow> string \<Rightarrow> string \<Rightarrow> string" where
  "splice off d c =
     take off (c @ replicate (off - length c) (CHR 0x00)) @ d @ drop (off + length d) c"

definition resize :: "nat \<Rightarrow> string \<Rightarrow> string" where
  "resize n c = take n c @ replicate (n - length c) (CHR 0x00)"

section \<open>System calls\<close>

text \<open>A call that is not retried: it fails with \<open>e\<close> when its outcome is \<open>IoErr\<close>.\<close>

definition sys_call :: "error \<Rightarrow> (os, 'a) prog \<Rightarrow> (os, 'a) prog" where
  "sys_call e act = (\<lambda>s. case next_io s of (IoErr, s') \<Rightarrow> (Err e, s') | (_, s') \<Rightarrow> act s')"

definition sys_open :: "bool \<Rightarrow> bool \<Rightarrow> path \<Rightarrow> (os, unit) prog" where
  "sys_open creat trunc p = sys_call (OpenFailed p) (\<lambda>s.
     if file_exists s p then (Ok (), if trunc then put_file p [] s else s)
     else if creat then (Ok (), put_file p [] s) else (Err (OpenFailed p), s))"

definition sys_close :: "(os, unit) prog" where
  "sys_close = sys_call CloseFailed (ret ())"

definition sys_ftruncate :: "path \<Rightarrow> nat \<Rightarrow> (os, unit) prog" where
  "sys_ftruncate p n = sys_call TruncateFailed (\<lambda>s. (Ok (), put_file p (resize n (content s p)) s))"

definition sys_seek :: "(os, unit) prog" where
  "sys_seek = sys_call SeekFailed (ret ())"

definition sys_sync :: "(os, unit) prog" where
  "sys_sync = sys_call SyncFailed (ret ())"

definition sys_remove :: "path \<Rightarrow> (os, unit) prog" where
  "sys_remove p = sys_call (RemoveFailed p) (modify (del_file p))"

definition sys_rename :: "path \<Rightarrow> path \<Rightarrow> (os, unit) prog" where
  "sys_rename a b = sys_call (RenameFailed a) (\<lambda>s.
     if file_exists s a then (Ok (), del_file a (put_file b (content s a) s))
     else (Err (RenameFailed a), s))"

definition sys_mkdirs :: "path \<Rightarrow> (os, unit) prog" where
  "sys_mkdirs p = sys_call (CreateDirFailed p) (ret ())"

text \<open>
  \<^verbatim>\<open>::write\<close> at a position and \<^verbatim>\<open>::pread\<close>: what one call moves. \<open>None\<close> stands for
  \<^verbatim>\<open>EINTR\<close>.
\<close>

definition sys_write :: "path \<Rightarrow> nat \<Rightarrow> string \<Rightarrow> (os, nat option) prog" where
  "sys_write p pos d = (\<lambda>s. case next_io s of
       (IoErr, s') \<Rightarrow> (Err WriteFailed, s')
     | (IoIntr, s') \<Rightarrow> (Ok None, s')
     | (IoShort k, s') \<Rightarrow>
         (Ok (Some (min (Suc k) (length d))),
          put_file p (splice pos (take (Suc k) d) (content s' p)) s')
     | (IoOk, s') \<Rightarrow> (Ok (Some (length d)), put_file p (splice pos d (content s' p)) s'))"

definition sys_pread :: "path \<Rightarrow> nat \<Rightarrow> nat \<Rightarrow> (os, string option) prog" where
  "sys_pread p off n = (\<lambda>s. case next_io s of
       (IoErr, s') \<Rightarrow> (Err ReadFailed, s')
     | (IoIntr, s') \<Rightarrow> (Ok None, s')
     | (IoShort k, s') \<Rightarrow> (Ok (Some (take (min (Suc k) n) (drop off (content s' p)))), s')
     | (IoOk, s') \<Rightarrow> (Ok (Some (take n (drop off (content s' p)))), s'))"

text \<open>
  \<^verbatim>\<open>std::ofstream\<close> and \<^verbatim>\<open>std::ifstream\<close>. A stream buffers what is written: \<^verbatim>\<open>good()\<close> after a write
  sees only the buffer, and the bytes reach the file when the destructor closes the stream,
  where a failure is not reported. A failing read ends the input early, also without report.
\<close>

definition stream_save :: "path \<Rightarrow> string \<Rightarrow> (os, unit) prog" where
  "stream_save p d =
     andThen (sys_open True True p) (\<lambda>_.
     andThen (sys_call WriteFailed (ret ())) (\<lambda>_ s.
       case next_io s of (IoErr, s') \<Rightarrow> (Ok (), s') | (_, s') \<Rightarrow> (Ok (), put_file p d s')))"

definition stream_load :: "path \<Rightarrow> (os, string) prog" where
  "stream_load p = andThen (sys_open False False p) (\<lambda>_ s.
     case next_io s of (IoErr, s') \<Rightarrow> (Ok [], s') | (_, s') \<Rightarrow> (Ok (content s' p), s'))"

text \<open>
  A stream that is closed and checked, and a library that saves to a path: a failure is reported,
  and what was written before it stays in the file.
\<close>

definition sys_save :: "path \<Rightarrow> string \<Rightarrow> (os, unit) prog" where
  "sys_save p d = (\<lambda>s. case next_io s of
       (IoOk, s') \<Rightarrow> (Ok (), put_file p d s')
     | (IoShort k, s') \<Rightarrow> (Err WriteFailed, put_file p (take k d) s')
     | (IoIntr, s') \<Rightarrow> (Err WriteFailed, s')
     | (IoErr, s') \<Rightarrow> (Err WriteFailed, s'))"

section \<open>Paths\<close>

definition path_join :: "path \<Rightarrow> string \<Rightarrow> path" where
  "path_join d n = (if d = [] \<or> last d = CHR ''/'' then d @ n else d @ ''/'' @ n)"

definition path_filename :: "path \<Rightarrow> string" where
  "path_filename p = rev (takeWhile (\<lambda>c. c \<noteq> CHR ''/'') (rev p))"

definition parent_path :: "path \<Rightarrow> path" where
  "parent_path p = (let d = rev (dropWhile (\<lambda>ch. ch \<noteq> CHR ''/'') (rev p)) in
     if d = [] then ''.'' else if length d = 1 then d else butlast d)"

text \<open>The regular files directly inside a directory, in listing order.\<close>

definition dir_files :: "os \<Rightarrow> path \<Rightarrow> path list" where
  "dir_files s d = filter (\<lambda>p. p = path_join d (path_filename p) \<and> path_filename p \<noteq> [])
     (map fst (os_files s))"

lemma path_filename_join [simp]:
  "CHR ''/'' \<notin> set n \<Longrightarrow> path_filename (path_join d n) = n"
proof -
  assume n: "CHR ''/'' \<notin> set n"
  have "takeWhile (\<lambda>c. c \<noteq> CHR ''/'') (rev n @ xs)
    = rev n @ takeWhile (\<lambda>c. c \<noteq> CHR ''/'') xs" for xs
    using n by (subst takeWhile_append2) auto
  moreover have "takeWhile (\<lambda>c. c \<noteq> CHR ''/'') (rev d) = []" if "d = [] \<or> last d = CHR ''/''"
    using that by (cases d rule: rev_cases) auto
  ultimately show ?thesis by (auto simp: path_filename_def path_join_def)
qed

section \<open>Laws of the file system\<close>

named_theorems os_simps \<open>system calls when no outcome is scripted\<close>

lemma quiet_next [os_simps]: "quiet s \<Longrightarrow> next_io s = (IoOk, s)"
  by (simp add: next_io_def)

lemma io_put_file [simp]: "os_io (put_file p c s) = os_io s"
  by (simp add: put_file_def)

lemma io_del_file [simp]: "os_io (del_file p s) = os_io s"
  by (simp add: del_file_def)

lemma content_put_file [simp]: "content (put_file p c s) p' = (if p' = p then c else content s p')"
  by (simp add: content_def put_file_def update_conv')

lemma content_del_file [simp]: "content (del_file p s) p' = (if p' = p then [] else content s p')"
  by (simp add: content_def del_file_def delete_conv')

lemma exists_put_file [simp]: "file_exists (put_file p c s) p' = (p' = p \<or> file_exists s p')"
  by (simp add: file_exists_def put_file_def update_conv')

lemma exists_del_file [simp]: "file_exists (del_file p s) p' = (p' \<noteq> p \<and> file_exists s p')"
  by (simp add: file_exists_def del_file_def delete_conv')

lemma file_exists_dom: "file_exists s p \<longleftrightarrow> p \<in> fst ` set (os_files s)"
  by (metis dom_map_of_conv_image_fst domIff file_exists_def)

lemma dmap_put_file [simp]: "dmap (os_files s) \<Longrightarrow> dmap (os_files (put_file p c s))"
  by (simp add: put_file_def distinct_update)

lemma dmap_del_file [simp]: "dmap (os_files s) \<Longrightarrow> dmap (os_files (del_file p s))"
  by (simp add: del_file_def distinct_delete)

lemma splice_end [simp]: "splice (length c) d c = c @ d"
  by (simp add: splice_def)

lemma resize_take: "n \<le> length c \<Longrightarrow> resize n c = take n c"
  by (simp add: resize_def)

lemma resize_self [simp]: "resize (length c) c = c"
  by (simp add: resize_def)

lemma sys_quiet [os_simps]:
  assumes "quiet s"
  shows "sys_call e act s = act s"
    and "sys_close s = (Ok (), s)"
    and "sys_seek s = (Ok (), s)"
    and "sys_sync s = (Ok (), s)"
    and "sys_mkdirs p s = (Ok (), s)"
    and "sys_remove p s = (Ok (), del_file p s)"
    and "sys_ftruncate p n s = (Ok (), put_file p (resize n (content s p)) s)"
    and "sys_open False trunc p s =
      (if file_exists s p then (Ok (), if trunc then put_file p [] s else s)
       else (Err (OpenFailed p), s))"
    and "sys_open True trunc p s =
      (Ok (), if file_exists s p \<and> \<not> trunc then s else put_file p [] s)"
  using assms
  by (simp_all add: sys_call_def quiet_next sys_close_def sys_seek_def sys_sync_def
      sys_mkdirs_def sys_remove_def sys_ftruncate_def sys_open_def prog_simps)

lemma sys_rename_quiet [os_simps]:
  "quiet s \<Longrightarrow> file_exists s a \<Longrightarrow>
   sys_rename a b s = (Ok (), del_file a (put_file b (content s a) s))"
  by (simp add: sys_rename_def os_simps)

lemma put_file_put_file [simp]: "put_file p b (put_file p a s) = put_file p b s"
proof -
  have "AList.update p b (AList.update p a m) = AList.update p b m" for m :: "(path \<times> string) list"
    by (induction m) auto
  then show ?thesis by (simp add: put_file_def)
qed

lemma stream_quiet [os_simps]:
  assumes "quiet s"
  shows "stream_save p d s = (Ok (), put_file p d s)"
    and "file_exists s p \<Longrightarrow> stream_load p s = (Ok (content s p), s)"
  using assms by (simp_all add: stream_save_def stream_load_def andThen_def os_simps ret_def)

lemma sys_save_quiet [os_simps]: "quiet s \<Longrightarrow> sys_save p d s = (Ok (), put_file p d s)"
  by (simp add: sys_save_def quiet_next)

text \<open>A call that does not change files leaves them as they are, whatever its outcome.\<close>

lemma os_files_next_io [simp]: "next_io s = (x, s') \<Longrightarrow> os_files s' = os_files s"
  by (auto simp: next_io_def split: list.splits)

lemma sys_ret_files [simp]: "os_files (snd (sys_call e (ret x) s)) = os_files s"
  by (auto simp: sys_call_def ret_def split: prod.splits io_outcome.splits)

end
