(* ===== verification/Strings.thy ===== *)
theory Strings
  imports Prelude
begin

text \<open>
  What the code uses of C++ strings: decimal output of unsigned integers, \<^verbatim>\<open>std::stoull\<close>,
  the \<^verbatim>\<open><cctype>\<close> predicates in the C locale, prefixes and suffixes.
\<close>

section \<open>Characters\<close>

definition code :: "char \<Rightarrow> nat" where
  "code c = of_char c"

definition isdigit :: "char \<Rightarrow> bool" where
  "isdigit c \<longleftrightarrow> 48 \<le> code c \<and> code c \<le> 57"

definition isspace :: "char \<Rightarrow> bool" where
  "isspace c \<longleftrightarrow> code c = 32 \<or> (9 \<le> code c \<and> code c \<le> 13)"

definition tolower :: "char \<Rightarrow> char" where
  "tolower c = (if 65 \<le> code c \<and> code c \<le> 90 then char_of (code c + 32) else c)"

definition ToLower :: "string \<Rightarrow> string" where
  "ToLower s = map tolower s"

definition starts_with :: "string \<Rightarrow> string \<Rightarrow> bool" where
  "starts_with pre s = prefix pre s"

definition ends_with :: "string \<Rightarrow> string \<Rightarrow> bool" where
  "ends_with suf s = suffix suf s"

lemma code_char_of [simp]: "n < 256 \<Longrightarrow> code (char_of n) = n"
  by (simp add: code_def)

lemma tolower_idem [simp]: "tolower (tolower c) = tolower c"
  by (simp add: tolower_def)

lemma ToLower_idem [simp]: "ToLower (ToLower s) = ToLower s"
  by (simp add: ToLower_def comp_def)

section \<open>Decimal numbers\<close>

definition digit :: "nat \<Rightarrow> char" where
  "digit d = char_of (48 + d)"

definition digit_val :: "char \<Rightarrow> nat" where
  "digit_val c = code c - 48"

text \<open>\<^verbatim>\<open>operator<<\<close> and \<^verbatim>\<open>std::to_string\<close> on an unsigned integer.\<close>

fun dec :: "nat \<Rightarrow> string" where
  "dec n = (if n < 10 then [digit n] else dec (n div 10) @ [digit (n mod 10)])"

declare dec.simps [simp del]

definition dec_val :: "string \<Rightarrow> nat" where
  "dec_val s = foldl (\<lambda>a c. 10 * a + digit_val c) 0 s"

text \<open>
  \<^verbatim>\<open>std::stoull\<close>: leading white space, an optional sign (a minus sign negates modulo
  \<open>2 ^ 64\<close>), then the longest run of digits; the exceptions \<^verbatim>\<open>invalid_argument\<close> (no digit)
  and \<^verbatim>\<open>out_of_range\<close> are \<open>None\<close>.
\<close>

definition stoull_digits :: "string \<Rightarrow> nat option" where
  "stoull_digits s = (let ds = takeWhile isdigit s in
     if ds = [] \<or> 2 ^ 64 \<le> dec_val ds then None else Some (dec_val ds))"

definition stoull :: "string \<Rightarrow> nat option" where
  "stoull s = (case dropWhile isspace s of
       [] \<Rightarrow> None
     | ch # r \<Rightarrow>
         if ch = CHR ''+'' then stoull_digits r
         else if ch = CHR ''-'' then map_option (\<lambda>n. (2 ^ 64 - n) mod 2 ^ 64) (stoull_digits r)
         else stoull_digits (ch # r))"

lemma digit_props [simp]:
  assumes "d < 10"
  shows "isdigit (digit d)" and "digit_val (digit d) = d" and "code (digit d) = 48 + d"
  using assms by (simp_all add: isdigit_def digit_def digit_val_def)

lemma dec_nonempty [simp]: "dec n \<noteq> []"
  by (subst dec.simps) simp

lemma dec_digits [simp]: "\<forall>ch \<in> set (dec n). isdigit ch"
proof (induction n rule: dec.induct)
  case (1 n)
  then show ?case by (subst dec.simps) auto
qed

lemma dec_val_append: "dec_val (xs @ [ch]) = 10 * dec_val xs + digit_val ch"
  by (simp add: dec_val_def)

lemma dec_val_dec [simp]: "dec_val (dec n) = n"
proof (induction n rule: dec.induct)
  case (1 n)
  show ?case
  proof (cases "n < 10")
    case True
    then show ?thesis by (subst dec.simps) (simp add: dec_val_def)
  next
    case False
    with 1 show ?thesis by (subst dec.simps) (simp add: dec_val_append)
  qed
qed

lemma dec_val_zeros [simp]: "dec_val (replicate k (CHR ''0'') @ s) = dec_val s"
proof -
  have "foldl (\<lambda>a c. 10 * a + digit_val c) 0 (replicate k (CHR ''0'')) = 0"
    by (induction k) (simp_all add: digit_val_def code_def)
  then show ?thesis by (simp add: dec_val_def)
qed

lemma isdigit_not_space: "isdigit ch \<Longrightarrow> \<not> isspace ch"
  by (simp add: isdigit_def isspace_def)

lemma isdigit_not_sign: "isdigit ch \<Longrightarrow> ch \<noteq> CHR ''+'' \<and> ch \<noteq> CHR ''-''"
  by (auto simp: isdigit_def code_def)

lemma stoull_run:
  assumes "ds \<noteq> []" and "\<forall>ch \<in> set ds. isdigit ch" and "dec_val ds < 2 ^ 64"
    and "rest = [] \<or> \<not> isdigit (hd rest)"
  shows "stoull (ds @ rest) = Some (dec_val ds)"
proof -
  obtain ch cs where ds: "ds = ch # cs" using assms(1) by (cases ds) auto
  have "takeWhile isdigit (ds @ rest) = ds"
    using assms(2,4) by (subst takeWhile_append2) (auto, cases rest, auto)
  then have "stoull_digits (ds @ rest) = Some (dec_val ds)"
    using assms(1,3) by (simp add: stoull_digits_def)
  moreover have "dropWhile isspace (ds @ rest) = ds @ rest"
    using assms(2) isdigit_not_space by (simp add: ds)
  ultimately show ?thesis
    using assms(2) isdigit_not_sign by (simp add: stoull_def ds)
qed

lemma stoull_dec: "n < 2 ^ 64 \<Longrightarrow> stoull (dec n) = Some n"
  using stoull_run [of "dec n" "[]"] by simp

end
