(* ===== verification/WalRecord.thy ===== *)
theory WalRecord
  imports LogEntry Posix Strings
begin

text \<open>
  The anonymous namespace of \<^verbatim>\<open>src/storage/wal.cpp\<close>: the CRC-32 of a payload, 32-bit
  little-endian fields, the transfer loops around \<^verbatim>\<open>::write\<close> and \<^verbatim>\<open>::pread\<close>, segment file
  names; and the record a log entry becomes on disk.
\<close>

unbundle bit_operations_syntax

section \<open>Checksum and fixed-width fields\<close>

definition kWalMagic :: u32 where "kWalMagic = 0x31424452"

definition kRecordHeaderSize :: nat where "kRecordHeaderSize = 12"

definition crc_bit :: "u32 \<Rightarrow> u32" where
  "crc_bit crc = (let mask = - (crc AND 1) in drop_bit 1 crc XOR (0xEDB88320 AND mask))"

definition crc_byte :: "u32 \<Rightarrow> char \<Rightarrow> u32" where
  "crc_byte crc byte = (crc_bit ^^ 8) (crc XOR of_char byte)"

definition ComputeCrc32 :: "string \<Rightarrow> u32" where
  "ComputeCrc32 bytes = NOT (foldl crc_byte 0xFFFFFFFF bytes)"

definition EncodeUint32LE :: "u32 \<Rightarrow> string" where
  "EncodeUint32LE v =
     [char_of (unat (v AND 0xFF)),
      char_of (unat (drop_bit 8 v AND 0xFF)),
      char_of (unat (drop_bit 16 v AND 0xFF)),
      char_of (unat (drop_bit 24 v AND 0xFF))]"

definition DecodeUint32LE :: "string \<Rightarrow> u32" where
  "DecodeUint32LE bytes =
     of_char (bytes ! 0) OR push_bit 8 (of_char (bytes ! 1)) OR
     push_bit 16 (of_char (bytes ! 2)) OR push_bit 24 (of_char (bytes ! 3))"

section \<open>Transfer loops\<close>

text \<open>
  An open descriptor is the path it was opened on and its file position (\<open>fd\<close>).
  \<open>WriteAll\<close> returns the descriptor at its new position; on an error the bytes already
  written stay in the file and the position stays behind them.
\<close>

type_synonym fd = "path \<times> nat"

lemma next_io_shrinks: "next_io s = (x, s') \<Longrightarrow> x \<noteq> IoOk \<Longrightarrow> length (os_io s') < length (os_io s)"
  and next_io_mono: "next_io s = (x, s') \<Longrightarrow> length (os_io s') \<le> length (os_io s)"
  by (cases "os_io s"; auto simp: next_io_def)+

lemma sys_write_intr: "sys_write p pos d s = (Ok None, s') \<Longrightarrow> length (os_io s') < length (os_io s)"
  using next_io_shrinks [of s] by (auto simp: sys_write_def split: prod.splits io_outcome.splits)

lemma sys_write_some:
  "sys_write p pos d s = (Ok (Some n), s') \<Longrightarrow> d \<noteq> [] \<Longrightarrow>
   0 < n \<and> n \<le> length d \<and> length (os_io s') \<le> length (os_io s)"
  using next_io_mono [of s] by (auto simp: sys_write_def split: prod.splits io_outcome.splits)

lemma sys_pread_intr: "sys_pread p off n s = (Ok None, s') \<Longrightarrow> length (os_io s') < length (os_io s)"
  using next_io_shrinks [of s] by (auto simp: sys_pread_def split: prod.splits io_outcome.splits)

lemma sys_pread_some:
  "sys_pread p off n s = (Ok (Some b), s') \<Longrightarrow>
   length b \<le> n \<and> length (os_io s') \<le> length (os_io s)"
  using next_io_mono [of s] by (auto simp: sys_pread_def split: prod.splits io_outcome.splits)

function WriteAll :: "fd \<Rightarrow> string \<Rightarrow> os \<Rightarrow> unit result \<times> fd \<times> os" where
  "WriteAll f d s =
     (if d = [] then (Ok (), f, s)
      else case sys_write (fst f) (snd f) d s of
        (Err e, s') \<Rightarrow> (Err e, f, s')
      | (Ok None, s') \<Rightarrow> WriteAll f d s'
      | (Ok (Some n), s') \<Rightarrow> WriteAll (fst f, snd f + n) (drop n d) s')"
  by pat_completeness auto
termination
proof (relation "measure (\<lambda>(f, d, s). length d + length (os_io s))", goal_cases)
  case (2 f d s x s' r)
  then show ?case using sys_write_intr [of "fst f" "snd f" d s s'] by simp
next
  case (3 f d s x s' r n)
  then have "0 < n \<and> n \<le> length d \<and> length (os_io s') \<le> length (os_io s)"
    using sys_write_some [of "fst f" "snd f" d s n s'] by simp
  then show ?case by simp linarith
qed simp

function ReadExactly :: "path \<Rightarrow> nat \<Rightarrow> nat \<Rightarrow> string \<Rightarrow> os \<Rightarrow> string result \<times> os" where
  "ReadExactly p off sz acc s =
     (if length acc < sz
      then case sys_pread p (off + length acc) (sz - length acc) s of
          (Err e, s') \<Rightarrow> (Err e, s')
        | (Ok None, s') \<Rightarrow> ReadExactly p off sz acc s'
        | (Ok (Some chunk), s') \<Rightarrow>
            if chunk = [] then (Ok acc, s') else ReadExactly p off sz (acc @ chunk) s'
      else (Ok acc, s))"
  by pat_completeness auto
termination
proof (relation "measure (\<lambda>(p, off, sz, acc, s). (sz - length acc) + length (os_io s))", goal_cases)
  case (2 p off sz acc s x s' r)
  then show ?case
    using sys_pread_intr [of p "off + length acc" "sz - length acc" s s'] by simp
next
  case (3 p off sz acc s x s' r chunk)
  then have "0 < length chunk" and "length acc < sz"
    and "length chunk \<le> sz - length acc \<and> length (os_io s') \<le> length (os_io s)"
    using sys_pread_some [of p "off + length acc" "sz - length acc" s chunk s'] by simp_all
  then show ?case by (simp del: length_greater_0_conv) linarith
qed simp

declare WriteAll.simps [simp del] ReadExactly.simps [simp del]

section \<open>Segment files\<close>

definition SegmentFileName :: "nat \<Rightarrow> string" where
  "SegmentFileName start_index =
     ''wal-'' @ replicate (8 - length (dec start_index)) (CHR ''0'') @ dec start_index @ ''.log''"

definition ParseSegmentStartIndex :: "path \<Rightarrow> nat result" where
  "ParseSegmentStartIndex p =
     (let filename = path_filename p in
      if \<not> starts_with ''wal-'' filename \<or> \<not> ends_with ''.log'' filename
      then Err NotAWalSegment
      else case stoull (take (length filename - 8) (drop 4 filename)) of
          Some n \<Rightarrow> Ok n
        | None \<Rightarrow> Err BadSegmentName)"

section \<open>Records\<close>

text \<open>The bytes \<^verbatim>\<open>WAL::Append\<close> writes for one payload: magic, length, checksum, payload.\<close>

definition wal_header :: "string \<Rightarrow> string" where
  "wal_header payload =
     EncodeUint32LE kWalMagic @ EncodeUint32LE (of_nat (length payload)) @
     EncodeUint32LE (ComputeCrc32 payload)"

definition encode_record :: "codec \<Rightarrow> LogEntry \<Rightarrow> string" where
  "encode_record c e = wal_header (LogEntry_Serialize c e) @ LogEntry_Serialize c e"

section \<open>Laws of the fields\<close>

lemma of_char_char_of_u32: "(of_char (char_of n) :: u32) = of_nat (n mod 256)"
proof -
  have "(of_char (char_of n) :: u32) = of_nat (of_char (char_of n) :: nat)"
    by (simp only: of_nat_of_char)
  then show ?thesis by simp
qed

lemma and_FF: "v AND 0xFF = take_bit 8 (v :: u32)"
  by (simp add: take_bit_eq_mask mask_eq_exp_minus_1)

lemma of_char_byte: "(of_char (char_of (unat (v AND 0xFF :: u32))) :: u32) = take_bit 8 v"
proof -
  have "v AND 0xFF \<le> (0xFF :: u32)" by (rule word_and_le1)
  then have "unat (v AND 0xFF :: u32) < 256" by (simp add: word_le_nat_alt)
  then have "(of_char (char_of (unat (v AND 0xFF :: u32))) :: u32) = v AND 0xFF"
    by (simp add: of_char_char_of_u32)
  then show ?thesis by (simp only: and_FF)
qed

lemma join_bytes:
  "take_bit 8 v OR push_bit 8 (take_bit 8 (drop_bit 8 v)) OR
   push_bit 16 (take_bit 8 (drop_bit 16 v)) OR push_bit 24 (take_bit 8 (drop_bit 24 v)) = (v :: u32)"
  (is "?w = v")
proof (rule bit_eqI)
  fix n
  assume "possible_bit TYPE(u32) n"
  then consider "n < 8" | "8 \<le> n" "n < 16" | "16 \<le> n" "n < 24" | "24 \<le> n" "n < 32"
    by fastforce
  then show "bit ?w n = bit v n"
    by cases
      (simp_all add: bit_or_iff bit_push_bit_iff bit_take_bit_iff bit_drop_bit_eq less_diff_conv2)
qed

lemma DecodeUint32LE_Encode [simp]: "DecodeUint32LE (EncodeUint32LE v @ rest) = v"
  using join_bytes [of v]
  by (simp add: DecodeUint32LE_def EncodeUint32LE_def of_char_byte)

lemma length_EncodeUint32LE [simp]: "length (EncodeUint32LE v) = 4"
  by (simp add: EncodeUint32LE_def)

lemma length_wal_header [simp]: "length (wal_header b) = kRecordHeaderSize"
  by (simp add: wal_header_def kRecordHeaderSize_def)

lemma drop_EncodeUint32LE [simp]:
  "drop 4 (EncodeUint32LE v @ rest) = rest" "drop 8 (EncodeUint32LE v @ rest) = drop 4 rest"
  by simp_all

text \<open>The three fields of a header, as \<^verbatim>\<open>RecoverSegment\<close> and the readers decode them.\<close>

lemma wal_header_fields:
  "DecodeUint32LE (wal_header b) = kWalMagic"
  "DecodeUint32LE (drop 4 (wal_header b)) = of_nat (length b)"
  "DecodeUint32LE (drop 8 (wal_header b)) = ComputeCrc32 b"
  using DecodeUint32LE_Encode [of "ComputeCrc32 b" "[]"]
  by (simp_all add: wal_header_def)

section \<open>The checksum sees every change of one byte\<close>

lemma xor_cancel: "x XOR a = x XOR b \<Longrightarrow> a = (b :: u32)"
  by (metis xor.assoc xor.left_neutral xor_self_eq)

lemma xor_cancel_right: "a XOR x = b XOR x \<Longrightarrow> a = (b :: u32)"
  by (metis xor.commute xor_cancel)

lemma neg_low_bit: "- (x AND 1 :: u32) = (if bit x 0 then -1 else 0)"
  by (cases "bit x 0") (simp_all add: and_one_eq mod2_eq_if bit_0)

lemma crc_bit_top: "bit (crc_bit z) 31 \<longleftrightarrow> bit z 0"
proof -
  have "\<not> bit z 32" using bit_imp_le_length [of z 32] by auto
  moreover have "bit (0xEDB88320 :: u32) 31" by simp
  ultimately show ?thesis
    by (simp add: crc_bit_def neg_low_bit bit_xor_iff bit_and_iff bit_drop_bit_eq)
qed

lemma crc_bit_inj: "crc_bit x = crc_bit y \<Longrightarrow> x = y"
proof -
  assume eq: "crc_bit x = crc_bit y"
  then have low: "bit x 0 \<longleftrightarrow> bit y 0"
    by (simp flip: crc_bit_top)
  with eq have "drop_bit 1 x = drop_bit 1 y"
    by (auto simp: crc_bit_def neg_low_bit dest: xor_cancel_right split: if_splits)
  then have hi: "bit x (Suc n) \<longleftrightarrow> bit y (Suc n)" for n
    by (metis bit_drop_bit_eq comp_apply plus_1_eq_Suc)
  show "x = y"
  proof (rule bit_eqI)
    fix n show "bit x n = bit y n" using low hi by (cases n) auto
  qed
qed

lemma crc_bits_inj: "(crc_bit ^^ k) x = (crc_bit ^^ k) y \<Longrightarrow> x = y"
  by (induction k) (auto dest: crc_bit_inj)

lemma of_char_u32_inj: "(of_char a :: u32) = of_char b \<Longrightarrow> a = b"
proof -
  assume "(of_char a :: u32) = of_char b"
  then have "unat (of_nat (of_char a) :: u32) = unat (of_nat (of_char b) :: u32)"
    by (simp add: of_nat_of_char)
  moreover have "(of_char c :: nat) < 2 ^ LENGTH(32)" for c
    by (rule less_trans [of _ 256]) simp_all
  ultimately show ?thesis by (simp add: unsigned_of_nat take_bit_nat_eq_self)
qed

lemma crc_byte_inj_crc: "crc_byte x b = crc_byte y b \<Longrightarrow> x = y"
  unfolding crc_byte_def by (metis crc_bits_inj xor.commute xor_cancel)

lemma crc_byte_inj_byte: "crc_byte x a = crc_byte x b \<Longrightarrow> a = b"
  unfolding crc_byte_def by (metis crc_bits_inj xor_cancel of_char_u32_inj)

lemma foldl_crc_inj: "foldl crc_byte x w = foldl crc_byte y w \<Longrightarrow> x = y"
  by (induction w arbitrary: x y) (auto dest: crc_byte_inj_crc)

text \<open>
  C16: the checksum of a record detects every change of a single byte of the payload, whatever
  the rest of the payload is.
\<close>

theorem crc_detects_changed_byte:
  assumes "a \<noteq> b"
  shows "ComputeCrc32 (pre @ a # post) \<noteq> ComputeCrc32 (pre @ b # post)"
proof
  assume "ComputeCrc32 (pre @ a # post) = ComputeCrc32 (pre @ b # post)"
  then have "crc_byte (foldl crc_byte 0xFFFFFFFF pre) a = crc_byte (foldl crc_byte 0xFFFFFFFF pre) b"
    by (auto simp: ComputeCrc32_def dest: foldl_crc_inj)
  then show False using assms crc_byte_inj_byte by blast
qed

theorem crc_detects_changed_byte_witness:
  "ComputeCrc32 (''ab'' @ CHR ''c'' # ''d'') \<noteq> ComputeCrc32 (''ab'' @ CHR ''x'' # ''d'')"
  by (rule crc_detects_changed_byte) simp

section \<open>Transfers\<close>

lemma WriteAll_quiet:
  assumes "quiet s"
  shows "WriteAll (p, length (content s p)) d s =
    (Ok (), (p, length (content s p) + length d),
     if d = [] then s else put_file p (content s p @ d) s)"
  using assms by (subst WriteAll.simps, subst WriteAll.simps) (simp add: sys_write_def quiet_next)

lemma ReadExactly_quiet:
  assumes "quiet s"
  shows "ReadExactly p off n [] s = (Ok (take n (drop off (content s p))), s)"
proof (cases "take n (drop off (content s p)) = []")
  case True
  then show ?thesis
    using assms by (subst ReadExactly.simps) (auto simp: sys_pread_def quiet_next)
next
  case False
  let ?b = "take n (drop off (content s p))"
  have "ReadExactly p off n ?b s = (Ok ?b, s)"
  proof (cases "length ?b < n")
    case True
    then have "drop (off + length ?b) (content s p) = []" by auto
    with True assms show ?thesis
      by (subst ReadExactly.simps) (simp add: sys_pread_def quiet_next)
  next
    case False
    then show ?thesis by (subst ReadExactly.simps) simp
  qed
  moreover have "0 < n" using False by (cases n) auto
  ultimately show ?thesis
    using assms False by (subst ReadExactly.simps) (simp add: sys_pread_def quiet_next)
qed

lemma next_io_no_err:
  "IoErr \<notin> set (os_io s) \<Longrightarrow> next_io s = (x, s') \<Longrightarrow>
   x \<noteq> IoErr \<and> IoErr \<notin> set (os_io s') \<and> content s' p = content s p"
  by (cases "os_io s") (auto simp: next_io_def content_def)

lemma sys_write_cases:
  assumes "IoErr \<notin> set (os_io s)"
  obtains (intr) s' where "sys_write p pos d s = (Ok None, s')" "content s' = content s"
      "IoErr \<notin> set (os_io s')"
  | (some) n s' where "sys_write p pos d s = (Ok (Some n), s')" "IoErr \<notin> set (os_io s')"
      "content s' = (content s)(p := splice pos (take n d) (content s p))"
      "n \<le> length d" "d \<noteq> [] \<Longrightarrow> 0 < n"
proof -
  obtain x s1 where x: "next_io s = (x, s1)" by (cases "next_io s")
  have c: "content s1 = content s" and e: "x \<noteq> IoErr" "IoErr \<notin> set (os_io s1)"
    using next_io_no_err [OF assms x] by auto
  consider "x = IoOk" | k where "x = IoShort k" | "x = IoIntr" using e(1) by (cases x) auto
  then show thesis
  proof cases
    case 1
    with x c e show thesis
      by (intro some [of "length d" "put_file p (splice pos d (content s1 p)) s1"])
        (auto simp: sys_write_def)
  next
    case (2 k)
    with x c e show thesis
      by (intro some [of "min (Suc k) (length d)"
            "put_file p (splice pos (take (Suc k) d) (content s1 p)) s1"])
        (auto simp: sys_write_def min_def)
  next
    case 3
    with x c e show thesis by (intro intr [of s1]) (auto simp: sys_write_def)
  qed
qed

text \<open>
  C17: however often the kernel interrupts a write or writes only a part, \<open>WriteAll\<close> ends, and
  when no write fails it has appended exactly the bytes it was given and moved the file
  position behind them.
\<close>

theorem WriteAll_complete:
  assumes "IoErr \<notin> set (os_io s)"
  shows "\<exists>s'. WriteAll (p, length (content s p)) d s =
      (Ok (), (p, length (content s p) + length d), s') \<and>
    content s' = (content s)(p := content s p @ d)"
  using assms
proof (induction "length d + length (os_io s)" arbitrary: d s rule: less_induct)
  case less
  note e = less.prems
  show ?case
  proof (cases "d = []")
    case True
    then show ?thesis by (subst WriteAll.simps) auto
  next
    case d: False
    show ?thesis
    proof (cases rule: sys_write_cases [OF e, of p "length (content s p)" d, case_names intr some])
      case (intr s')
      with less.hyps [of d s'] sys_write_intr [OF intr(1)]
      have "\<exists>t. WriteAll (p, length (content s p)) d s' =
          (Ok (), (p, length (content s p) + length d), t) \<and>
        content t = (content s)(p := content s p @ d)"
        by simp
      with d intr show ?thesis by (subst WriteAll.simps) simp
    next
      case (some n s')
      have "length (drop n d) + length (os_io s') < length d + length (os_io s)"
        using sys_write_some [OF some(1) d] by simp linarith
      moreover have "length (content s' p) = length (content s p) + n" using some by simp
      moreover have "content s' p @ drop n d = content s p @ d" using some by simp
      ultimately have "\<exists>t. WriteAll (p, length (content s p) + n) (drop n d) s' =
          (Ok (), (p, length (content s p) + length d), t) \<and>
        content t = (content s)(p := content s p @ d)"
        using less.hyps [of "drop n d" s'] some by simp
      with d some show ?thesis by (subst WriteAll.simps) simp
    qed
  qed
qed

theorem WriteAll_complete_witness:
  "IoErr \<notin> set [IoIntr, IoShort 0] \<and>
   (\<exists>s'. WriteAll (''f'', length ''ab'') ''xyz'' \<lparr>os_files = [(''f'', ''ab'')], os_io = [IoIntr, IoShort 0]\<rparr> =
      (Ok (), (''f'', length ''abxyz''), s') \<and> content s' ''f'' = ''abxyz'')"
proof -
  let ?s = "\<lparr>os_files = [(''f'', ''ab'')], os_io = [IoIntr, IoShort 0]\<rparr>"
  have c: "content ?s ''f'' = ''ab''" by (simp add: content_def)
  have "IoErr \<notin> set (os_io ?s)" by simp
  from WriteAll_complete [OF this, of "''f''" "''xyz''"] obtain s' where
    "WriteAll (''f'', length ''ab'') ''xyz'' ?s = (Ok (), (''f'', length ''ab'' + length ''xyz''), s')"
    "content s' = (content ?s)(''f'' := ''ab'' @ ''xyz'')"
    unfolding c by blast
  then show ?thesis by simp
qed

section \<open>Segment names\<close>

lemma ParseSegmentStartIndex_digits:
  assumes "stoull mid = Some n" and "CHR ''/'' \<notin> set mid"
  shows "ParseSegmentStartIndex (path_join dir (''wal-'' @ mid @ ''.log'')) = Ok n"
proof -
  let ?f = "''wal-'' @ mid @ ''.log''"
  have "path_filename (path_join dir ?f) = ?f"
    using assms(2) by (intro path_filename_join) simp
  moreover have "starts_with ''wal-'' ?f" "ends_with ''.log'' ?f"
    by (simp_all add: starts_with_def ends_with_def suffix_def)
  moreover have "take (length ?f - 8) (drop 4 ?f) = mid"
    by simp
  ultimately show ?thesis
    using assms(1) by (simp only: ParseSegmentStartIndex_def Let_def simp_thms if_False option.case)
qed

lemma SegmentFileName_parse:
  assumes "n < 2 ^ 64"
  shows "ParseSegmentStartIndex (path_join dir (SegmentFileName n)) = Ok n"
proof -
  let ?z = "replicate (8 - length (dec n)) (CHR ''0'')"
  have "isdigit (CHR ''0'')" by (simp add: isdigit_def code_def)
  then have d: "\<forall>ch \<in> set (?z @ dec n). isdigit ch" using dec_digits [of n] by auto
  then have "stoull ((?z @ dec n) @ []) = Some (dec_val (?z @ dec n))"
    using assms by (intro stoull_run) auto
  moreover have "\<not> isdigit (CHR ''/'')" by (simp add: isdigit_def code_def)
  ultimately show ?thesis
    using ParseSegmentStartIndex_digits [of "?z @ dec n" n dir] d
    by (auto simp: SegmentFileName_def)
qed

lemma SegmentFileName_inj:
  assumes "m < 2 ^ 64" and "n < 2 ^ 64"
    and "path_join dir (SegmentFileName m) = path_join dir (SegmentFileName n)"
  shows "m = n"
  using SegmentFileName_parse [OF assms(1), of dir] SegmentFileName_parse [OF assms(2), of dir]
  by (metis assms(3) sum.inject(2))

end
