(* ===== verification/SampleCodec.thy ===== *)
theory SampleCodec
  imports LogEntry Strings
begin

text \<open>
  A concrete codec with the documented laws, used where a theorem about the storage code is
  applied to concrete data: numbers in decimal followed by a semicolon, strings by their
  length and their text.
\<close>

definition put_nat :: "nat \<Rightarrow> string" where
  "put_nat n = dec n @ '';''"

definition get_nat :: "string \<Rightarrow> (nat \<times> string) option" where
  "get_nat s = (case dropWhile isdigit s of
      [] \<Rightarrow> None
    | ch # r \<Rightarrow> Some (dec_val (takeWhile isdigit s), r))"

definition put_str :: "string \<Rightarrow> string" where
  "put_str s = put_nat (length s) @ s"

definition get_str :: "string \<Rightarrow> (string \<times> string) option" where
  "get_str s = (case get_nat s of None \<Rightarrow> None
     | Some (n, r) \<Rightarrow> if length r < n then None else Some (take n r, drop n r))"

fun get_many :: "(string \<Rightarrow> ('a \<times> string) option) \<Rightarrow> nat \<Rightarrow> string \<Rightarrow> ('a list \<times> string) option" where
  "get_many get 0 s = Some ([], s)"
| "get_many get (Suc n) s = (case get s of None \<Rightarrow> None
     | Some (x, r) \<Rightarrow> (case get_many get n r of None \<Rightarrow> None | Some (xs, r') \<Rightarrow> Some (x # xs, r')))"

lemma get_put_nat [simp]: "get_nat (put_nat n @ r) = Some (n, r)"
proof -
  have s: "\<not> isdigit (CHR '';'')" by (simp add: isdigit_def code_def)
  have "takeWhile isdigit (dec n @ '';'' @ r) = dec n"
    using s dec_digits [of n] by (subst takeWhile_append2) auto
  moreover have "dropWhile isdigit (dec n @ '';'' @ r) = '';'' @ r"
    using s dec_digits [of n] by (subst dropWhile_append2) auto
  ultimately show ?thesis by (simp add: get_nat_def put_nat_def)
qed

lemma get_put_str [simp]: "get_str (put_str s @ r) = Some (s, r)"
  by (simp add: get_str_def put_str_def)

lemma get_many_put:
  assumes "\<And>x r. x \<in> set xs \<Longrightarrow> get (put x @ r) = Some (x, r)"
  shows "get_many get (length xs) (concat (map put xs) @ r) = Some (xs, r)"
  using assms by (induction xs) auto

definition sample_ser_LogEntry :: "proto_LogEntry \<Rightarrow> string option" where
  "sample_ser_LogEntry m = Some (put_nat (pl_index m) @ put_nat (pl_term m) @
     put_nat (unat (pl_type m)) @ put_nat (unat (pl_cmd_type m)) @ pl_payload m)"

definition sample_parse_LogEntry :: "string \<Rightarrow> proto_LogEntry option" where
  "sample_parse_LogEntry b = (case get_many get_nat 4 b of
      Some ([i, t, y, k], r) \<Rightarrow> Some \<lparr>pl_index = i, pl_term = t, pl_type = of_nat y,
        pl_cmd_type = of_nat k, pl_payload = r\<rparr>
    | _ \<Rightarrow> None)"

definition sample_ser_UpsertCmd :: "proto_UpsertCmd \<Rightarrow> string option" where
  "sample_ser_UpsertCmd m = Some (put_nat (pu_id m) @ put_nat (length (pu_vector m)) @
     concat (map put_nat (map unat (pu_vector m))) @ put_str (pu_request_id m))"

definition sample_parse_UpsertCmd :: "string \<Rightarrow> proto_UpsertCmd option" where
  "sample_parse_UpsertCmd b = (case get_nat b of None \<Rightarrow> None
    | Some (i, r) \<Rightarrow> (case get_nat r of None \<Rightarrow> None
    | Some (n, r) \<Rightarrow> (case get_many get_nat n r of None \<Rightarrow> None
    | Some (v, r) \<Rightarrow> (case get_str r of None \<Rightarrow> None
    | Some (q, _) \<Rightarrow> Some \<lparr>pu_id = i, pu_vector = map of_nat v, pu_request_id = q\<rparr>))))"

definition sample_ser_DeleteCmd :: "proto_DeleteCmd \<Rightarrow> string option" where
  "sample_ser_DeleteCmd m = Some (put_nat (pd_id m) @ put_str (pd_request_id m))"

definition sample_parse_DeleteCmd :: "string \<Rightarrow> proto_DeleteCmd option" where
  "sample_parse_DeleteCmd b = (case get_nat b of None \<Rightarrow> None
    | Some (i, r) \<Rightarrow> (case get_str r of None \<Rightarrow> None
    | Some (q, _) \<Rightarrow> Some \<lparr>pd_id = i, pd_request_id = q\<rparr>))"

definition sample_ser_RaftMeta :: "proto_RaftMetaRecord \<Rightarrow> string option" where
  "sample_ser_RaftMeta m = Some (put_nat (pm_current_term m) @ pm_voted_for m)"

definition sample_parse_RaftMeta :: "string \<Rightarrow> proto_RaftMetaRecord option" where
  "sample_parse_RaftMeta b = (case get_nat b of None \<Rightarrow> None
    | Some (t, r) \<Rightarrow> Some \<lparr>pm_current_term = t, pm_voted_for = r\<rparr>)"

definition put_record :: "proto_DedupRecord \<Rightarrow> string" where
  "put_record m = put_str (pr_request_id m) @ put_nat (pr_log_index m) @
     put_nat (if pr_success m then 1 else 0) @ put_str (pr_error m)"

definition get_record :: "string \<Rightarrow> (proto_DedupRecord \<times> string) option" where
  "get_record b = (case get_str b of None \<Rightarrow> None
    | Some (q, r) \<Rightarrow> (case get_nat r of None \<Rightarrow> None
    | Some (i, r) \<Rightarrow> (case get_nat r of None \<Rightarrow> None
    | Some (k, r) \<Rightarrow> (case get_str r of None \<Rightarrow> None
    | Some (e, r) \<Rightarrow> Some (\<lparr>pr_request_id = q, pr_log_index = i, pr_success = (k = 1),
        pr_error = e\<rparr>, r)))))"

definition sample_ser_Dedup :: "proto_DedupRecord list \<Rightarrow> string option" where
  "sample_ser_Dedup ms = Some (put_nat (length ms) @ concat (map put_record ms))"

definition sample_parse_Dedup :: "string \<Rightarrow> proto_DedupRecord list option" where
  "sample_parse_Dedup b = (case get_nat b of None \<Rightarrow> None
    | Some (n, r) \<Rightarrow> map_option fst (get_many get_record n r))"

definition sample_codec :: codec where
  "sample_codec = \<lparr>
     ser_LogEntry = sample_ser_LogEntry, parse_LogEntry = sample_parse_LogEntry,
     ser_UpsertCmd = sample_ser_UpsertCmd, parse_UpsertCmd = sample_parse_UpsertCmd,
     ser_DeleteCmd = sample_ser_DeleteCmd, parse_DeleteCmd = sample_parse_DeleteCmd,
     ser_RaftMeta = sample_ser_RaftMeta, parse_RaftMeta = sample_parse_RaftMeta,
     ser_Dedup = sample_ser_Dedup, parse_Dedup = sample_parse_Dedup\<rparr>"

lemma length_dec: "n < 10 ^ Suc k \<Longrightarrow> length (dec n) \<le> Suc k"
proof (induction k arbitrary: n)
  case 0
  then show ?case by (subst dec.simps) simp
next
  case (Suc k)
  then have "n div 10 < 10 ^ Suc k" by (simp add: less_mult_imp_div_less mult.commute)
  with Suc.IH [of "n div 10"] show ?case by (subst dec.simps) simp
qed

lemma length_put_nat: "n < 2 ^ 64 \<Longrightarrow> length (put_nat n) \<le> 21"
  using length_dec [of n 19] by (simp add: put_nat_def)

lemma sample_LogEntry_roundtrip: "sample_parse_LogEntry (the (sample_ser_LogEntry m)) = Some m"
proof -
  have "get_many get_nat 4 (put_nat a @ put_nat b @ put_nat d @ put_nat e @ r) =
    Some ([a, b, d, e], r)" for a b d e r
    by (simp add: numeral_eq_Suc)
  then show ?thesis by (simp add: sample_ser_LogEntry_def sample_parse_LogEntry_def)
qed

lemma sample_log_ok: "log_codec_ok sample_codec"
  unfolding log_codec_ok_def
proof (intro allI impI)
  fix m assume r: "log_in_range m"
  let ?b = "the (sample_ser_LogEntry m)"
  have "unat (w :: u32) < 2 ^ 64" for w
    by (rule less_le_trans [OF unsigned_less]) simp
  then have "length ?b < 2 ^ 32"
    using r length_put_nat [of "pl_index m"] length_put_nat [of "pl_term m"]
      length_put_nat [of "unat (pl_type m)"] length_put_nat [of "unat (pl_cmd_type m)"]
    by (simp add: sample_ser_LogEntry_def log_in_range_def)
  moreover have "?b \<noteq> []" by (simp add: sample_ser_LogEntry_def put_nat_def)
  ultimately show "\<exists>b. ser_LogEntry sample_codec m = Some b \<and> parse_LogEntry sample_codec b = Some m \<and>
      length b < 2 ^ 32 \<and> (pl_index m = 0 \<or> b \<noteq> [])"
    using sample_LogEntry_roundtrip [of m]
    by (intro exI [of _ ?b]) (simp add: sample_codec_def sample_ser_LogEntry_def)
qed

lemma sample_cmd_ok: "cmd_codec_ok sample_codec"
proof -
  have "get_many get_nat (length v) (concat (map put_nat (map unat v)) @ r) = Some (map unat v, r)"
    for v :: "u32 list" and r
    using get_many_put [of "map unat v" get_nat put_nat r] by simp
  then have "sample_parse_UpsertCmd (the (sample_ser_UpsertCmd m)) = Some m" for m
    by (simp add: sample_ser_UpsertCmd_def sample_parse_UpsertCmd_def get_put_str [of _ "[]", simplified]
        comp_def)
  moreover have "sample_parse_DeleteCmd (the (sample_ser_DeleteCmd m)) = Some m" for m
    by (simp add: sample_ser_DeleteCmd_def sample_parse_DeleteCmd_def get_put_str [of _ "[]", simplified])
  ultimately show ?thesis
    by (auto simp: cmd_codec_ok_def sample_codec_def
        simp flip: sample_ser_UpsertCmd_def) (metis option.sel)+
qed

lemma sample_meta_ok: "meta_codec_ok sample_codec"
  by (simp add: meta_codec_ok_def sample_codec_def sample_ser_RaftMeta_def sample_parse_RaftMeta_def)

lemma sample_dedup_ok: "dedup_codec_ok sample_codec"
proof -
  have "get_record (put_record m @ r) = Some (m, r)" for m r
    by (simp add: get_record_def put_record_def)
  then have "get_many get_record (length ms) (concat (map put_record ms) @ []) = Some (ms, [])" for ms
    by (intro get_many_put)
  then show ?thesis
    by (simp add: dedup_codec_ok_def sample_codec_def sample_ser_Dedup_def sample_parse_Dedup_def)
qed

theorem sample_codec_ok: "codec_ok sample_codec"
  by (simp add: codec_ok_def sample_log_ok sample_cmd_ok sample_meta_ok sample_dedup_ok)

end
