(* ===== verification/RaftMeta.thy ===== *)
theory RaftMeta
  imports WalRecord SampleCodec
begin

text \<open>
  \<^verbatim>\<open>include/storage/raft_meta.hpp\<close> and \<^verbatim>\<open>src/storage/raft_meta.cpp\<close>: the term and the vote
  a node must not forget, written to a temporary file, synced and renamed over
  \<^verbatim>\<open>meta.bin\<close>. The write loop of this file is the one of the WAL (\<open>WriteAll\<close>), and the read
  loop is \<open>ReadExactly\<close> from offset 0.
\<close>

section \<open>Save and Load\<close>

record RaftMeta =
  rm_current_term :: nat
  rm_voted_for :: string

definition default_RaftMeta :: RaftMeta where
  "default_RaftMeta = \<lparr>rm_current_term = 0, rm_voted_for = []\<rparr>"

definition kTempSuffix :: string where "kTempSuffix = ''.tmp''"

definition FsyncDirectory :: "path \<Rightarrow> (os, unit) prog" where
  "FsyncDirectory dir = andThen (sys_call (OpenFailed dir) (ret ())) (\<lambda>_ s.
     case sys_sync s of (sync_rc, s1) \<Rightarrow>
     case sys_close s1 of (close_rc, s2) \<Rightarrow>
       (case sync_rc of Err e \<Rightarrow> (Err e, s2) | Ok _ \<Rightarrow> (close_rc, s2)))"

definition RaftMeta_toProto :: "RaftMeta \<Rightarrow> proto_RaftMetaRecord" where
  "RaftMeta_toProto m = \<lparr>pm_current_term = rm_current_term m, pm_voted_for = rm_voted_for m\<rparr>"

definition RaftMeta_Save :: "codec \<Rightarrow> RaftMeta \<Rightarrow> path \<Rightarrow> (os, unit) prog" where
  "RaftMeta_Save c m final_path =
     andThen (sys_mkdirs (parent_path final_path)) (\<lambda>_.
       case ser_RaftMeta c (RaftMeta_toProto m) of
         None \<Rightarrow> throw (ProtoSerializeFailed ''RaftMeta'')
       | Some bytes \<Rightarrow>
           let tmp_path = final_path @ kTempSuffix in
           andThen (sys_open True True tmp_path) (\<lambda>_ s.
             case WriteAll (tmp_path, 0) bytes s of
               (Err e, _, s) \<Rightarrow> (Err e, snd (sys_remove tmp_path (snd (sys_close s))))
             | (Ok _, _, s) \<Rightarrow> (case sys_sync s of
                 (Err e, s) \<Rightarrow> (Err e, snd (sys_remove tmp_path (snd (sys_close s))))
               | (Ok _, s) \<Rightarrow> (case sys_close s of
                   (Err e, s) \<Rightarrow> (Err e, snd (sys_remove tmp_path s))
                 | (Ok _, s) \<Rightarrow> (case sys_rename tmp_path final_path s of
                     (Err e, s) \<Rightarrow> (Err e, snd (sys_remove tmp_path s))
                   | (Ok _, s) \<Rightarrow> FsyncDirectory (parent_path final_path) s)))))"

definition RaftMeta_Load :: "codec \<Rightarrow> path \<Rightarrow> (os, RaftMeta) prog" where
  "RaftMeta_Load c final_path = (\<lambda>s.
     if \<not> file_exists s final_path then (Ok default_RaftMeta, s)
     else let file_size = length (content s final_path) in
       andThen (sys_open False False final_path) (\<lambda>_ s.
         case ReadExactly final_path 0 file_size [] s of
           (Err e, s) \<Rightarrow> (Err e, snd (sys_close s))
         | (Ok bytes, s) \<Rightarrow>
             andThen sys_close (\<lambda>_.
               if length bytes \<noteq> file_size then throw MetaIncomplete
               else case parse_RaftMeta c bytes of
                   None \<Rightarrow> throw (ProtoParseFailed ''RaftMeta'')
                 | Some record \<Rightarrow> ret \<lparr>rm_current_term = pm_current_term record,
                     rm_voted_for = pm_voted_for record\<rparr>) s) s)"

section \<open>What no system call touches\<close>

text \<open>\<open>same p s s'\<close>: the file at \<open>p\<close> is the same in both states.\<close>

definition same :: "path \<Rightarrow> os \<Rightarrow> os \<Rightarrow> bool" where
  "same p s s' \<longleftrightarrow> map_of (os_files s') p = map_of (os_files s) p"

lemma same_refl [simp]: "same p s s" by (simp add: same_def)

lemma same_trans: "same p s s' \<Longrightarrow> same p s' s'' \<Longrightarrow> same p s s''" by (simp add: same_def)

lemma same_put [simp]: "p \<noteq> q \<Longrightarrow> same p s (put_file q c s)"
  by (simp add: same_def put_file_def update_conv')

lemma same_del [simp]: "p \<noteq> q \<Longrightarrow> same p s (del_file q s)"
  by (simp add: same_def del_file_def delete_conv')

lemma same_next_io: "same p s (snd (next_io s))"
  by (cases "os_io s") (simp_all add: same_def next_io_def)

lemma same_files: "os_files s' = os_files s \<Longrightarrow> same p s s'" by (simp add: same_def)

lemma same_sys_ret [simp]:
  "same p s (snd (sys_close s))" "same p s (snd (sys_sync s))" "same p s (snd (sys_mkdirs d s))"
  "same p s (snd (sys_seek s))"
  unfolding sys_close_def sys_sync_def sys_mkdirs_def sys_seek_def
  by (rule same_files, rule sys_ret_files)+

lemma same_sys_call:
  assumes "\<And>s. same p s (snd (act s))"
  shows "same p s (snd (sys_call e act s))"
proof -
  obtain x s1 where x: "next_io s = (x, s1)" by (cases "next_io s")
  have "same p s s1" using same_next_io [of p s] x by simp
  then show ?thesis using assms [of s1] x by (auto simp: sys_call_def split: io_outcome.splits intro: same_trans)
qed

lemma same_sys_other:
  assumes "p \<noteq> q"
  shows "same p s (snd (sys_open creat trunc q s))" "same p s (snd (sys_remove q s))"
  unfolding sys_open_def sys_remove_def
  by (rule same_sys_call; use assms in \<open>simp add: modify_def\<close>)+

lemma same_sys_write: "p \<noteq> q \<Longrightarrow> same p s (snd (sys_write q pos d s))"
proof -
  assume pq: "p \<noteq> q"
  obtain x s1 where x: "next_io s = (x, s1)" by (cases "next_io s")
  have "same p s s1" using same_next_io [of p s] x by simp
  then show ?thesis
    using pq x by (cases x) (auto simp: sys_write_def intro: same_trans [OF _ same_put])
qed

lemma same_WriteAll:
  assumes "p \<noteq> fst f"
  shows "same p s (snd (snd (WriteAll f d s)))"
  using assms
proof (induction f d s rule: WriteAll.induct)
  case (1 f d s)
  obtain r s1 where w: "sys_write (fst f) (snd f) d s = (r, s1)" by (cases "sys_write (fst f) (snd f) d s")
  then have s1: "same p s s1" using same_sys_write [OF 1(3), of s "snd f" d] by simp
  show ?case
  proof (cases "d = []")
    case True
    then show ?thesis by (subst WriteAll.simps) simp
  next
    case False
    then show ?thesis
      using 1(1) [OF False w [symmetric]] 1(2) [OF False w [symmetric]] 1(3) s1 w
      by (subst WriteAll.simps) (auto split: sum.splits option.splits intro: same_trans)
  qed
qed

lemma same_FsyncDirectory [simp]: "same p s (snd (FsyncDirectory d s))"
proof -
  obtain r0 s0 where o: "sys_call (OpenFailed d) (ret ()) s = (r0, s0)"
    by (cases "sys_call (OpenFailed d) (ret ()) s")
  obtain r1 s1 where y: "sys_sync s0 = (r1, s1)" by (cases "sys_sync s0")
  obtain r2 s2 where c: "sys_close s1 = (r2, s2)" by (cases "sys_close s1")
  have "same p s s0" using sys_ret_files [of "OpenFailed d" "()" s] o by (metis same_files snd_conv)
  moreover have "same p s0 s1" using same_sys_ret(2) [of p s0] y by simp
  moreover have "same p s1 s2" using same_sys_ret(1) [of p s1] c by simp
  ultimately show ?thesis
    using o y c by (auto simp: FsyncDirectory_def andThen_def split: sum.splits intro: same_trans)
qed

section \<open>Atomic replacement\<close>

text \<open>
  When \<^verbatim>\<open>WriteAll\<close> succeeds from the start of an empty file, the file holds the bytes, under
  any script of interrupted and short writes.
\<close>

lemma content_next_io: "next_io s = (x, s1) \<Longrightarrow> content s1 = content s"
  by (rule ext) (simp add: content_def os_files_next_io)

lemma sys_write_effect:
  "sys_write p pos d s = (Ok None, s') \<Longrightarrow> content s' = content s"
  "sys_write p pos d s = (Ok (Some n), s') \<Longrightarrow>
     n \<le> length d \<and> content s' p = splice pos (take n d) (content s p)"
proof -
  obtain x s1 where x: "next_io s = (x, s1)" by (cases "next_io s")
  note c = content_next_io [OF x]
  show "sys_write p pos d s = (Ok None, s') \<Longrightarrow> content s' = content s"
    using x c by (cases x) (auto simp: sys_write_def)
  show "sys_write p pos d s = (Ok (Some n), s') \<Longrightarrow>
     n \<le> length d \<and> content s' p = splice pos (take n d) (content s p)"
    using x c by (cases x) (auto simp: sys_write_def min_def)
qed

lemma WriteAll_Ok_content:
  assumes "WriteAll (p, length (content s p)) d s = (Ok (), f, s')"
  shows "content s' p = content s p @ d"
  using assms
proof (induction "length d + length (os_io s)" arbitrary: d s rule: less_induct)
  case less
  show ?case
  proof (cases "d = []")
    case True
    then show ?thesis using less.prems by (subst (asm) WriteAll.simps) simp
  next
    case d: False
    obtain r s1 where w: "sys_write p (length (content s p)) d s = (r, s1)"
      by (cases "sys_write p (length (content s p)) d s")
    consider e where "r = Err e" | "r = Ok None" | n where "r = Ok (Some n)"
      by (metis option.exhaust sum.exhaust)
    then show ?thesis
    proof cases
      case 1
      then show ?thesis using less.prems w d by (subst (asm) WriteAll.simps) simp
    next
      case 2
      have "length (os_io s1) < length (os_io s)" using sys_write_intr w 2 by blast
      moreover have "content s1 = content s" using sys_write_effect(1) w 2 by blast
      ultimately show ?thesis
        using less.hyps [of d s1] less.prems w 2 d by (subst (asm) (2) WriteAll.simps) simp
    next
      case (3 n)
      have n: "n \<le> length d" "content s1 p = content s p @ take n d"
        using sys_write_effect(2) [of p _ d s n s1] w 3 by simp_all
      have "length (drop n d) + length (os_io s1) < length d + length (os_io s)"
        using sys_write_some [of p "length (content s p)" d s n s1] w 3 d by simp linarith
      moreover have "WriteAll (p, length (content s1 p)) (drop n d) s1 = (Ok (), f, s')"
        using less.prems w 3 d n by (subst (asm) WriteAll.simps) simp
      ultimately have "content s' p = content s1 p @ drop n d" by (rule less.hyps)
      then show ?thesis using n by simp
    qed
  qed
qed

lemma sys_open_trunc:
  "sys_open True True p s = (Ok u, s') \<Longrightarrow> content s' p = []"
  by (auto simp: sys_open_def sys_call_def split: prod.splits io_outcome.splits if_splits)

lemma tmp_other [simp]: "kTempSuffix \<noteq> []"
  by (simp add: kTempSuffix_def)

definition replaced :: "path \<Rightarrow> string \<Rightarrow> os \<Rightarrow> bool" where
  "replaced p b s \<longleftrightarrow> map_of (os_files s) p = Some b"

lemma replaced_same: "replaced p b s \<Longrightarrow> same p s s' \<Longrightarrow> replaced p b s'"
  by (simp add: replaced_def same_def)

lemma sys_rename_effect:
  assumes "p \<noteq> q"
  shows "case sys_rename q p s of (Err e, s') \<Rightarrow> same p s s' | (Ok _, s') \<Rightarrow> replaced p (content s q) s'"
proof -
  obtain x s1 where x: "next_io s = (x, s1)" by (cases "next_io s")
  have sm: "same p s s1" using same_next_io [of p s] x by simp
  note c = content_next_io [OF x]
  have "replaced p (content s q) (del_file q (put_file p (content s q) s1))"
    using assms by (simp add: replaced_def del_file_def put_file_def delete_conv' update_conv')
  then show ?thesis using x sm c by (cases x) (auto simp: sys_rename_def sys_call_def)
qed

lemma Save_atomic:
  assumes "RaftMeta_Save c m p s = (r, s')"
  shows "(same p s s' \<and> (\<exists>e. r = Err e)) \<or>
    (\<exists>b. ser_RaftMeta c (RaftMeta_toProto m) = Some b \<and> replaced p b s')"
proof -
  let ?t = "p @ kTempSuffix"
  obtain r0 s0 where mk: "sys_mkdirs (parent_path p) s = (r0, s0)" by (cases "sys_mkdirs (parent_path p) s")
  have s0: "same p s s0" using same_sys_ret(3) [of p s "parent_path p"] mk by simp
  show ?thesis
  proof (cases "ser_RaftMeta c (RaftMeta_toProto m)")
    case None
    then show ?thesis using assms mk s0 by (cases r0) (auto simp: RaftMeta_Save_def andThen_def throw_def)
  next
    case (Some b)
    obtain r1 s1 where op: "sys_open True True ?t s0 = (r1, s1)" by (cases "sys_open True True ?t s0")
    have s1: "same p s s1" using same_sys_other(1) [of p ?t s0 True True] op s0 by (auto intro: same_trans)
    obtain r2 f s2 where wr: "WriteAll (?t, 0) b s1 = (r2, f, s2)" by (cases "WriteAll (?t, 0) b s1")
    have s2: "same p s s2" using same_WriteAll [of p "(?t, 0)" s1 b] wr s1 by (auto intro: same_trans)
    have b2: "content s2 ?t = b" if "r1 = Ok u" "r2 = Ok v" for u v
      using WriteAll_Ok_content [of ?t s1 b f s2] sys_open_trunc [of ?t s0 u s1] op wr that by simp
    obtain r3 s3 where sy: "sys_sync s2 = (r3, s3)" by (cases "sys_sync s2")
    have f3: "os_files s3 = os_files s2"
      using sys_ret_files [of SyncFailed "()" s2] sy unfolding sys_sync_def by (metis snd_conv)
    obtain r4 s4 where cl: "sys_close s3 = (r4, s4)" by (cases "sys_close s3")
    have f4: "os_files s4 = os_files s2"
      using sys_ret_files [of CloseFailed "()" s3] cl f3 unfolding sys_close_def by (metis snd_conv)
    have s4: "same p s s3" "same p s s4" using s2 f3 f4 by (simp_all add: same_def)
    obtain r5 s5 where rn: "sys_rename ?t p s4 = (r5, s5)" by (cases "sys_rename ?t p s4")
    note rne = sys_rename_effect [of p ?t s4, simplified rn]
    have rm: "same p s x \<Longrightarrow> same p s (snd (sys_remove ?t x))" for x
      using same_sys_other(2) [of p ?t x] by (auto intro: same_trans)
    have rc: "same p s x \<Longrightarrow> same p s (snd (sys_remove ?t (snd (sys_close x))))" for x
      using rm [OF same_trans [OF _ same_sys_ret(1)]] by blast
    have c4: "content s4 ?t = content s2 ?t" using f4 by (simp add: content_def)
    note run = assms [unfolded RaftMeta_Save_def andThen_def Some mk Let_def, simplified, unfolded op]
    show ?thesis
    proof (cases "\<exists>u0 u1 u2 u3 u4 u5. r0 = Ok u0 \<and> r1 = Ok u1 \<and> r2 = Ok u2 \<and> r3 = Ok u3 \<and> r4 = Ok u4 \<and> r5 = Ok u5")
      case True
      then have "replaced p b s5" using rne b2 c4 by auto
      then have "replaced p b (snd (FsyncDirectory (parent_path p) s5))"
        by (rule replaced_same) simp
      then show ?thesis using True run Some by (auto simp: op wr sy cl rn)
    next
      case False
      then show ?thesis
        using run s0 s1 rc [OF s2] rc [OF s4(1)] rm [OF s4(2)] rne rm [of s5] s4(2)
        by (auto simp: op wr sy cl rn split: sum.splits intro: same_trans)
    qed
  qed
qed

text \<open>
  C19: saving the term and the vote is atomic. Whatever system calls fail, are interrupted or
  write short, \<^verbatim>\<open>meta.bin\<close> afterwards is either the file it was or the complete new record;
  and when \<open>Save\<close> reports success it is the new record.
\<close>

theorem RaftMeta_Save_atomic:
  "let (r, s') = RaftMeta_Save c m p s in
     (same p s s' \<and> (\<exists>e. r = Err e)) \<or>
     (\<exists>b. ser_RaftMeta c (RaftMeta_toProto m) = Some b \<and> replaced p b s')"
  using Save_atomic [of c m p s] by (cases "RaftMeta_Save c m p s") simp

lemma Save_quiet:
  assumes "quiet s" and "ser_RaftMeta c (RaftMeta_toProto m) = Some b"
  shows "\<exists>s'. RaftMeta_Save c m p s = (Ok (), s') \<and> quiet s' \<and> replaced p b s'"
proof -
  let ?t = "p @ kTempSuffix"
  let ?s1 = "if file_exists s ?t \<and> \<not> True then s else put_file ?t [] s"
  let ?s2 = "if b = [] then ?s1 else put_file ?t b ?s1"
  have q1: "quiet ?s1" "content ?s1 ?t = []" using assms(1) by simp_all
  have wr: "WriteAll (?t, 0) b ?s1 = (Ok (), (?t, length b), ?s2)"
    using WriteAll_quiet [OF q1(1), of ?t b] q1(2) by simp
  have q2: "quiet ?s2" "content ?s2 ?t = b" "file_exists ?s2 ?t" using q1 by auto
  let ?s3 = "del_file ?t (put_file p (content ?s2 ?t) ?s2)"
  have "quiet ?s3" using q2(1) by simp
  then have fs: "FsyncDirectory d ?s3 = (Ok (), ?s3)" for d
    by (simp add: FsyncDirectory_def andThen_def os_simps ret_def)
  have "RaftMeta_Save c m p s = (Ok (), ?s3)"
    using assms wr q2 fs sys_rename_quiet [OF q2(1,3), of p]
    by (simp add: RaftMeta_Save_def andThen_def os_simps Let_def)
  moreover have "replaced p b ?s3"
    using q2(2) by (simp add: replaced_def del_file_def put_file_def delete_conv' update_conv')
  ultimately show ?thesis using \<open>quiet ?s3\<close> by blast
qed

text \<open>
  C20: what was saved is what is loaded: on a file system without faults, a saved term and
  vote are read back unchanged, and a missing file is the initial state of a node.
\<close>

theorem RaftMeta_Save_Load:
  assumes "codec_ok c" and "quiet s" and "rm_current_term m < 2 ^ 64" and "ascii (rm_voted_for m)"
  shows "\<exists>s'. RaftMeta_Save c m p s = (Ok (), s') \<and> RaftMeta_Load c p s' = (Ok m, s')"
proof -
  obtain b where b: "ser_RaftMeta c (RaftMeta_toProto m) = Some b" "parse_RaftMeta c b = Some (RaftMeta_toProto m)"
    using codec_meta [OF assms(1), of "RaftMeta_toProto m"] assms(3,4) by (auto simp: RaftMeta_toProto_def)
  obtain s' where s': "RaftMeta_Save c m p s = (Ok (), s')" "quiet s'" "replaced p b s'"
    using Save_quiet [OF assms(2) b(1)] by blast
  have "content s' p = b" "file_exists s' p" using s'(3) by (simp_all add: replaced_def content_def file_exists_def)
  then have "RaftMeta_Load c p s' = (Ok m, s')"
    using s'(2) b(2) ReadExactly_quiet [OF s'(2), of p 0 "length b"]
    by (simp add: RaftMeta_Load_def andThen_def os_simps ret_def RaftMeta_toProto_def)
  then show ?thesis using s'(1) by blast
qed

theorem RaftMeta_Save_Load_witness:
  "\<exists>s'. RaftMeta_Save sample_codec \<lparr>rm_current_term = 7, rm_voted_for = ''n2''\<rparr> ''data/meta.bin''
       \<lparr>os_files = [], os_io = []\<rparr> = (Ok (), s') \<and>
     RaftMeta_Load sample_codec ''data/meta.bin'' s' = (Ok \<lparr>rm_current_term = 7, rm_voted_for = ''n2''\<rparr>, s')"
  by (rule RaftMeta_Save_Load [OF sample_codec_ok]) (simp_all add: ascii_def)

end
