(* ===== verification/Lease.thy ===== *)
theory Lease
  imports Prelude
begin

text \<open>
  \<^verbatim>\<open>include/raft/lease.hpp\<close> and \<^verbatim>\<open>src/raft/lease.cpp\<close>: the leader's read lease, one expiry
  time on the steady clock (in milliseconds). \<open>None\<close> is \<^verbatim>\<open>time_point::min()\<close>, which no clock
  reading precedes.
\<close>

type_synonym time = nat

record LeaseManager =
  lm_expire_time :: "time option"

definition LeaseManager_new :: LeaseManager where
  "LeaseManager_new = \<lparr>lm_expire_time = None\<rparr>"

definition Lease_Invalidate :: "LeaseManager \<Rightarrow> LeaseManager" where
  "Lease_Invalidate l = l\<lparr>lm_expire_time := None\<rparr>"

definition Lease_Renew :: "time \<Rightarrow> int \<Rightarrow> LeaseManager \<Rightarrow> LeaseManager" where
  "Lease_Renew now duration l =
     (if duration \<le> 0 then Lease_Invalidate l
      else l\<lparr>lm_expire_time := Some (nat (int now + duration))\<rparr>)"

definition Lease_IsValid :: "time \<Rightarrow> LeaseManager \<Rightarrow> bool" where
  "Lease_IsValid now l = (case lm_expire_time l of None \<Rightarrow> False | Some t \<Rightarrow> now < t)"

definition Lease_ExpireTime :: "LeaseManager \<Rightarrow> time option" where
  "Lease_ExpireTime l = lm_expire_time l"

lemma Lease_Renew_valid:
  "Lease_IsValid later (Lease_Renew now d l) \<longleftrightarrow> 0 < d \<and> int later < int now + d"
  by (auto simp: Lease_IsValid_def Lease_Renew_def Lease_Invalidate_def)

lemma Lease_Invalidate_valid [simp]: "\<not> Lease_IsValid now (Lease_Invalidate l)"
  by (simp add: Lease_IsValid_def Lease_Invalidate_def)

end
