(* ===== verification/Dedup.thy ===== *)
theory Dedup
  imports Posix LogEntry SampleCodec "HOL-Library.Product_Lexorder"
begin

text \<open>
  \<^verbatim>\<open>include/client/dedup.hpp\<close> and \<^verbatim>\<open>src/client/dedup.cpp\<close>: the table that makes client
  requests idempotent. It remembers the last \<open>window_size\<close> requests by their ids; the queue
  holds the order in which records were written, with stale items that eviction skips.
\<close>

section \<open>State and operations\<close>

record DedupEntry =
  de_committed :: bool
  de_success :: bool
  de_error :: string
  de_log_index :: nat

definition default_DedupEntry :: DedupEntry where
  "default_DedupEntry = \<lparr>de_committed = False, de_success = False, de_error = [], de_log_index = 0\<rparr>"

datatype CheckResult = kNotFound | kPendingCommit | kAlreadyCommitted

record DedupTable =
  dt_window_size :: nat
  dt_table :: "(string \<times> DedupEntry) list"
  dt_order_queue :: "(nat \<times> string) list"

definition DedupTable_new :: "nat \<Rightarrow> DedupTable" where
  "DedupTable_new window_size = \<lparr>dt_window_size = window_size, dt_table = [], dt_order_queue = []\<rparr>"

definition status :: "DedupEntry \<Rightarrow> CheckResult" where
  "status e = (if de_committed e then kAlreadyCommitted else kPendingCommit)"

definition DedupTable_Check :: "string \<Rightarrow> DedupTable \<Rightarrow> CheckResult \<times> DedupEntry option" where
  "DedupTable_Check request_id t = (case map_of (dt_table t) request_id of
       None \<Rightarrow> (kNotFound, None)
     | Some e \<Rightarrow> (status e, Some e))"

fun evict_loop ::
    "nat \<Rightarrow> (string \<times> DedupEntry) list \<Rightarrow> (nat \<times> string) list \<Rightarrow> (string \<times> DedupEntry) list \<times> (nat \<times> string) list" where
  "evict_loop window table [] = (table, [])"
| "evict_loop window table ((log_index, request_id) # queue) =
     (if length table > window
      then (case map_of table request_id of
          None \<Rightarrow> evict_loop window table queue
        | Some e \<Rightarrow>
            if de_log_index e \<noteq> log_index then evict_loop window table queue
            else evict_loop window (omap_erase request_id table) queue)
      else (table, (log_index, request_id) # queue))"

definition EvictIfNeededLocked :: "DedupTable \<Rightarrow> DedupTable" where
  "EvictIfNeededLocked t = (case evict_loop (dt_window_size t) (dt_table t) (dt_order_queue t) of
     (table, queue) \<Rightarrow> t\<lparr>dt_table := table, dt_order_queue := queue\<rparr>)"

definition InsertOrUpdateLocked :: "string \<Rightarrow> DedupEntry \<Rightarrow> DedupTable \<Rightarrow> DedupTable" where
  "InsertOrUpdateLocked request_id e t = EvictIfNeededLocked (t\<lparr>
     dt_table := omap_put request_id e (dt_table t),
     dt_order_queue := dt_order_queue t @ [(de_log_index e, request_id)]\<rparr>)"

definition DedupTable_TrackPending ::
    "string \<Rightarrow> nat \<Rightarrow> DedupTable \<Rightarrow> (CheckResult \<times> DedupEntry) \<times> DedupTable" where
  "DedupTable_TrackPending request_id log_index t =
     (if request_id = [] then ((kNotFound, default_DedupEntry), t)
      else case map_of (dt_table t) request_id of
          Some e \<Rightarrow> ((status e, e), t)
        | None \<Rightarrow>
            let e = \<lparr>de_committed = False, de_success = False, de_error = [], de_log_index = log_index\<rparr>
            in ((kNotFound, e), InsertOrUpdateLocked request_id e t))"

definition DedupTable_Record :: "string \<Rightarrow> nat \<Rightarrow> bool \<Rightarrow> string \<Rightarrow> DedupTable \<Rightarrow> DedupTable" where
  "DedupTable_Record request_id log_index success err t =
     (if request_id = [] then t
      else InsertOrUpdateLocked request_id
        \<lparr>de_committed = True, de_success = success, de_error = err, de_log_index = log_index\<rparr> t)"

definition DedupTable_Size :: "DedupTable \<Rightarrow> nat" where
  "DedupTable_Size t = length (dt_table t)"

definition DedupTable_WindowSize :: "DedupTable \<Rightarrow> nat" where
  "DedupTable_WindowSize t = dt_window_size t"

section \<open>Persistence\<close>

definition by_log_index :: "(string \<times> DedupEntry) list \<Rightarrow> (string \<times> DedupEntry) list" where
  "by_log_index es = sort_key (\<lambda>(request_id, e). (de_log_index e, request_id)) es"

definition dedup_record :: "string \<times> DedupEntry \<Rightarrow> proto_DedupRecord" where
  "dedup_record = (\<lambda>(request_id, e). \<lparr>pr_request_id = request_id, pr_log_index = de_log_index e,
     pr_success = de_success e, pr_error = de_error e\<rparr>)"

definition BuildTempPath :: "path \<Rightarrow> path" where
  "BuildTempPath p = p @ ''.tmp''"

definition DedupTable_SaveTo :: "codec \<Rightarrow> path \<Rightarrow> DedupTable \<Rightarrow> (os, unit) prog" where
  "DedupTable_SaveTo c p t =
     (let committed_entries = by_log_index (filter (\<lambda>(_, e). de_committed e) (dt_table t)) in
      case ser_Dedup c (map dedup_record committed_entries) of
        None \<Rightarrow> throw (ProtoSerializeFailed ''DedupSnapshot'')
      | Some bytes \<Rightarrow>
          andThen (whenP (CHR ''/'' \<in> set p) (sys_mkdirs (parent_path p))) (\<lambda>_.
          andThen (stream_save (BuildTempPath p) bytes) (\<lambda>_ s.
            case sys_rename (BuildTempPath p) p s of
              (Err e, s) \<Rightarrow> (Err e, snd (sys_remove (BuildTempPath p) s))
            | (Ok _, s) \<Rightarrow> (Ok (), s))))"

definition ParseSnapshot :: "codec \<Rightarrow> string \<Rightarrow> proto_DedupRecord list result" where
  "ParseSnapshot c bytes = (case parse_Dedup c bytes of
     None \<Rightarrow> Err (ProtoParseFailed ''DedupSnapshot'') | Some rs \<Rightarrow> Ok rs)"

definition loaded_entry :: "proto_DedupRecord \<Rightarrow> string \<times> DedupEntry" where
  "loaded_entry r = (pr_request_id r, \<lparr>de_committed = True, de_success = pr_success r,
     de_error = pr_error r, de_log_index = pr_log_index r\<rparr>)"

definition clear_table :: "DedupTable \<Rightarrow> DedupTable" where
  "clear_table t = t\<lparr>dt_table := [], dt_order_queue := []\<rparr>"

definition DedupTable_LoadFrom :: "codec \<Rightarrow> path \<Rightarrow> DedupTable \<Rightarrow> os \<Rightarrow> unit result \<times> DedupTable \<times> os" where
  "DedupTable_LoadFrom c p t s = (case stream_load p s of
       (Err e, s) \<Rightarrow>
         if \<not> file_exists s p then (Ok (), clear_table t, s) else (Err e, t, s)
     | (Ok bytes, s) \<Rightarrow> (case ParseSnapshot c bytes of
         Err e \<Rightarrow> (Err e, t, s)
       | Ok rs \<Rightarrow>
           if \<exists>r \<in> set rs. pr_request_id r = [] then (Err DedupEmptyRequestId, t, s)
           else (Ok (), fold (\<lambda>(request_id, e). InsertOrUpdateLocked request_id e)
                          (by_log_index (map loaded_entry rs)) (clear_table t), s)))"

section \<open>Invariant\<close>

text \<open>
  The table is ordered by id, no larger than the window, and every record of it can still be
  evicted: its log index and id are in the queue.
\<close>

definition queued :: "(string \<times> DedupEntry) list \<Rightarrow> (nat \<times> string) list \<Rightarrow> bool" where
  "queued table queue \<longleftrightarrow> (\<forall>(k, e) \<in> set table. (de_log_index e, k) \<in> set queue)"

definition dedup_inv :: "DedupTable \<Rightarrow> bool" where
  "dedup_inv t \<longleftrightarrow> omap (dt_table t) \<and> length (dt_table t) \<le> dt_window_size t \<and>
     queued (dt_table t) (dt_order_queue t)"

lemma length_omap_put: "length (omap_put k v m) \<le> Suc (length m)"
  by (induction m) auto

lemma length_omap_put_mem: "k \<in> fst ` set m \<Longrightarrow> omap m \<Longrightarrow> length (omap_put k v m) = length m"
  by (induction m) (auto, force+)

lemma set_omap_put: "set (omap_put k v m) \<subseteq> insert (k, v) (set m)"
  by (induction m) (auto split: if_splits)

lemma omap_erase_sub: "set (omap_erase k m) = {x \<in> set m. fst x \<noteq> k}"
  by (auto simp: omap_erase_def)

lemma length_omap_erase:
  "omap m \<Longrightarrow> map_of m k = Some e \<Longrightarrow> Suc (length (omap_erase k m)) = length m"
proof (induction m)
  case (Cons x m)
  obtain k' e' where x: "x = (k', e')" by (cases x)
  show ?case
  proof (cases "k' = k")
    case True
    then have "filter (\<lambda>(k', _). k' \<noteq> k) m = m" using Cons.prems by (fastforce simp: x filter_id_conv)
    then show ?thesis by (simp add: x True omap_erase_def)
  next
    case False
    then show ?thesis using Cons by (simp add: x omap_erase_def)
  qed
qed simp

lemma queued_skip:
  assumes "omap table" and "queued table ((i, k) # queue)"
    and "case map_of table k of None \<Rightarrow> True | Some e \<Rightarrow> de_log_index e \<noteq> i"
  shows "queued table queue"
proof -
  have "map_of table k' = Some e'" if "(k', e') \<in> set table" for k' e'
    using that assms(1) by (simp add: omap_dmap)
  then show ?thesis using assms(2,3) by (fastforce simp: queued_def split: option.splits)
qed

lemma evict_loop_inv:
  assumes "omap table" and "queued table queue" and "evict_loop window table queue = (table', queue')"
  shows "omap table' \<and> length table' \<le> window \<and> queued table' queue' \<and>
    (length table \<le> window \<longrightarrow> table' = table \<and> queue' = queue)"
  using assms
proof (induction window table queue arbitrary: table' queue' rule: evict_loop.induct)
  case (1 window table)
  then have "table = []" by (cases table) (auto simp: queued_def)
  then show ?case using 1 by (auto simp: queued_def)
next
  case (2 window table i k queue)
  show ?case
  proof (cases "length table > window")
    case False
    then show ?thesis using 2(4-6) by auto
  next
    case big: True
    show ?thesis
    proof (cases "map_of table k")
      case None
      have "queued table queue" using queued_skip [OF 2(4,5)] None by simp
      then show ?thesis using 2(1) [OF big None 2(4)] 2(6) big None by auto
    next
      case (Some e)
      show ?thesis
      proof (cases "de_log_index e = i")
        case False
        then have "queued table queue" using queued_skip [OF 2(4,5)] Some by simp
        then show ?thesis using 2(2) [OF big Some False 2(4)] 2(6) big Some False by auto
      next
        case True
        have "queued (omap_erase k table) queue"
          using 2(5) unfolding queued_def omap_erase_sub by auto
        moreover have "omap (omap_erase k table)" using 2(4) by simp
        moreover have "evict_loop window (omap_erase k table) queue = (table', queue')"
          using 2(6) big Some True by simp
        ultimately have "omap table' \<and> length table' \<le> window \<and> queued table' queue'"
          using 2(3) [OF big Some] True by blast
        then show ?thesis using big by simp
      qed
    qed
  qed
qed

lemma queued_put: "queued m q \<Longrightarrow> queued (omap_put k e m) (q @ [(de_log_index e, k)])"
  using set_omap_put [of k e m] unfolding queued_def by auto

lemma InsertOrUpdate_inv:
  assumes "omap (dt_table t)" and "queued (dt_table t) (dt_order_queue t)"
  shows "dedup_inv (InsertOrUpdateLocked k e t)" "dt_window_size (InsertOrUpdateLocked k e t) = dt_window_size t"
proof -
  obtain tb q where ev: "evict_loop (dt_window_size t) (omap_put k e (dt_table t))
      (dt_order_queue t @ [(de_log_index e, k)]) = (tb, q)"
    by (cases "evict_loop (dt_window_size t) (omap_put k e (dt_table t)) (dt_order_queue t @ [(de_log_index e, k)])")
  have "queued (omap_put k e (dt_table t)) (dt_order_queue t @ [(de_log_index e, k)])"
    by (rule queued_put [OF assms(2)])
  then show "dedup_inv (InsertOrUpdateLocked k e t)"
    using evict_loop_inv [OF _ _ ev] assms(1)
    by (simp add: InsertOrUpdateLocked_def EvictIfNeededLocked_def ev dedup_inv_def)
  show "dt_window_size (InsertOrUpdateLocked k e t) = dt_window_size t"
    by (simp add: InsertOrUpdateLocked_def EvictIfNeededLocked_def ev)
qed

lemma dedup_inv_parts: "dedup_inv t \<Longrightarrow> omap (dt_table t) \<and> queued (dt_table t) (dt_order_queue t)"
  by (simp add: dedup_inv_def)

lemma TrackPending_inv: "dedup_inv t \<Longrightarrow> dedup_inv (snd (DedupTable_TrackPending k i t))"
  using InsertOrUpdate_inv(1) dedup_inv_parts [of t]
  by (auto simp: DedupTable_TrackPending_def Let_def split: option.splits)

lemma Record_inv: "dedup_inv t \<Longrightarrow> dedup_inv (DedupTable_Record k i b e t)"
  using InsertOrUpdate_inv(1) dedup_inv_parts [of t] by (auto simp: DedupTable_Record_def)

lemma fold_insert_inv:
  "dedup_inv t \<Longrightarrow> dedup_inv (fold (\<lambda>(k, e). InsertOrUpdateLocked k e) es t)"
proof (induction es arbitrary: t)
  case (Cons x es)
  then show ?case using InsertOrUpdate_inv(1) dedup_inv_parts [of t] by (cases x) simp
qed simp

lemma LoadFrom_inv:
  assumes "dedup_inv t"
  shows "dedup_inv (fst (snd (DedupTable_LoadFrom c p t s)))"
proof -
  have "dedup_inv (clear_table t)" by (simp add: dedup_inv_def clear_table_def queued_def)
  then show ?thesis
    using assms fold_insert_inv
    by (auto simp: DedupTable_LoadFrom_def split: prod.splits sum.splits)
qed

section \<open>Properties\<close>

text \<open>The operations that change the table, as the steps of a run.\<close>

datatype dedup_op =
    OpTrackPending string nat
  | OpRecord string nat bool string
  | OpLoadFrom path os

fun dedup_step :: "codec \<Rightarrow> dedup_op \<Rightarrow> DedupTable \<Rightarrow> DedupTable" where
  "dedup_step c (OpTrackPending k i) t = snd (DedupTable_TrackPending k i t)"
| "dedup_step c (OpRecord k i b e) t = DedupTable_Record k i b e t"
| "dedup_step c (OpLoadFrom p s) t = fst (snd (DedupTable_LoadFrom c p t s))"

lemma dedup_step_inv: "dedup_inv t \<Longrightarrow> dedup_inv (dedup_step c op t)"
  by (cases op) (simp_all add: TrackPending_inv Record_inv LoadFrom_inv)

lemma dedup_step_window: "dt_window_size (dedup_step c op t) = dt_window_size t"
proof -
  have "dt_window_size (fold (\<lambda>(k, e). InsertOrUpdateLocked k e) es u) = dt_window_size u" for es u
    by (induction es arbitrary: u)
      (auto simp: InsertOrUpdateLocked_def EvictIfNeededLocked_def split: prod.splits)
  then show ?thesis
    by (cases op) (auto simp: DedupTable_TrackPending_def DedupTable_Record_def DedupTable_LoadFrom_def
        clear_table_def InsertOrUpdateLocked_def EvictIfNeededLocked_def Let_def
        split: prod.splits sum.splits option.splits)
qed

text \<open>
  C21: through every sequence of pending registrations, committed results and snapshot loads
  the table never holds more than \<open>window_size\<close> requests, it stays sorted by id, and every
  record in it can still be evicted.
\<close>

theorem dedup_bounded:
  "dedup_inv (fold (dedup_step c) ops (DedupTable_new window)) \<and>
   DedupTable_Size (fold (dedup_step c) ops (DedupTable_new window)) \<le> window"
proof -
  have "dedup_inv (fold (dedup_step c) ops t) \<and> dt_window_size (fold (dedup_step c) ops t) = dt_window_size t"
    if "dedup_inv t" for t
    using that by (induction ops arbitrary: t) (simp_all add: dedup_step_inv dedup_step_window)
  from this [of "DedupTable_new window"] show ?thesis
    by (simp add: dedup_inv_def DedupTable_new_def DedupTable_Size_def queued_def)
qed

lemma evict_stop: "length table \<le> window \<Longrightarrow> evict_loop window table queue = (table, queue)"
  by (cases queue) auto

lemma evict_keeps:
  assumes "omap table" and "map_of table k = Some e" and "(de_log_index e, k) \<notin> set queue"
    and "0 < window" and "length table \<le> Suc window" and "queued table (queue @ [(de_log_index e, k)])"
  shows "map_of (fst (evict_loop window table (queue @ [(de_log_index e, k)]))) k = Some e"
  using assms
proof (induction queue)
  case Nil
  have keys: "fst x = k" if "x \<in> set table" for x using Nil.prems(6) that by (auto simp: queued_def)
  have "length table \<le> 1"
  proof (cases table)
    case (Cons a rest)
    then show ?thesis using keys Nil.prems(1) by (cases rest) auto
  qed simp
  then have "length table \<le> window" using Nil.prems(4) by linarith
  then show ?case using Nil.prems(2) by (simp only: evict_stop fst_conv)
next
  case (Cons x queue)
  obtain i k' where x: "x = (i, k')" by (cases x)
  show ?case
  proof (cases "length table \<le> window")
    case True
    then show ?thesis using Cons.prems(2) by (simp only: evict_stop fst_conv)
  next
    case big: False
    show ?thesis
    proof (cases "\<exists>e'. map_of table k' = Some e' \<and> de_log_index e' = i")
      case True
      then obtain e' where e': "map_of table k' = Some e'" "de_log_index e' = i" by blast
      then have "k' \<noteq> k" using Cons.prems(2,3) by (auto simp: x)
      have "length (omap_erase k' table) \<le> window"
        using length_omap_erase [OF Cons.prems(1) e'(1)] Cons.prems(5) by simp
      then show ?thesis using e' big \<open>k' \<noteq> k\<close> Cons.prems(2) by (simp add: x evict_stop)
    next
      case False
      then have skip: "case map_of table k' of None \<Rightarrow> True | Some e \<Rightarrow> de_log_index e \<noteq> i"
        by (auto split: option.splits)
      have "queued table (queue @ [(de_log_index e, k)])"
        by (rule queued_skip [OF Cons.prems(1) _ skip]) (use Cons.prems(6) x in simp)
      then have "map_of (fst (evict_loop window table (queue @ [(de_log_index e, k)]))) k = Some e"
        using Cons.IH Cons.prems by simp
      then show ?thesis using big skip by (auto simp: x split: option.splits)
    qed
  qed
qed

lemma Insert_remembered:
  assumes "dedup_inv t" and "0 < dt_window_size t"
    and "request_id \<in> fst ` set (dt_table t) \<or> (de_log_index e, request_id) \<notin> set (dt_order_queue t)"
  shows "map_of (dt_table (InsertOrUpdateLocked request_id e t)) request_id = Some e"
proof -
  let ?tb = "omap_put request_id e (dt_table t)" and ?q = "dt_order_queue t @ [(de_log_index e, request_id)]"
  have om: "omap (dt_table t)" and qd: "queued (dt_table t) (dt_order_queue t)"
    and len: "length (dt_table t) \<le> dt_window_size t" using assms(1) by (simp_all add: dedup_inv_def)
  have "map_of (fst (evict_loop (dt_window_size t) ?tb ?q)) request_id = Some e"
  proof (cases "request_id \<in> fst ` set (dt_table t)")
    case True
    then have "length ?tb \<le> dt_window_size t" using length_omap_put_mem [OF True om] len by simp
    then show ?thesis using om by (simp add: evict_stop)
  next
    case False
    show ?thesis
    proof (rule evict_keeps)
      show "length ?tb \<le> Suc (dt_window_size t)"
        using length_omap_put [of request_id e "dt_table t"] len by linarith
      show "(de_log_index e, request_id) \<notin> set (dt_order_queue t)" using assms(3) False by simp
      show "queued ?tb ?q" by (rule queued_put [OF qd])
    qed (use om assms(2) in simp_all)
  qed
  then show ?thesis
    by (cases "evict_loop (dt_window_size t) ?tb ?q") (simp add: InsertOrUpdateLocked_def EvictIfNeededLocked_def)
qed

lemma Record_Check:
  assumes "dedup_inv t" and "0 < dt_window_size t" and "request_id \<noteq> []"
    and "request_id \<in> fst ` set (dt_table t) \<or> (log_index, request_id) \<notin> set (dt_order_queue t)"
  shows "DedupTable_Check request_id (DedupTable_Record request_id log_index success err t) =
    (kAlreadyCommitted, Some \<lparr>de_committed = True, de_success = success, de_error = err, de_log_index = log_index\<rparr>)"
  using Insert_remembered [OF assms(1,2), of request_id
      "\<lparr>de_committed = True, de_success = success, de_error = err, de_log_index = log_index\<rparr>"] assms(3,4)
  by (simp add: DedupTable_Check_def DedupTable_Record_def status_def)

text \<open>
  C22: a committed result is remembered. After \<open>Record\<close> the request is found as committed, with
  its outcome and index, provided the window is not empty and the id is new or already in the
  table (so that no stale queue item of an evicted incarnation names the same index).
\<close>

theorem dedup_record_check:
  assumes "dedup_inv t" and "0 < dt_window_size t" and "request_id \<noteq> []"
    and "request_id \<in> fst ` set (dt_table t) \<or> (log_index, request_id) \<notin> set (dt_order_queue t)"
  shows "DedupTable_Check request_id (DedupTable_Record request_id log_index success err t) =
    (kAlreadyCommitted, Some \<lparr>de_committed = True, de_success = success, de_error = err, de_log_index = log_index\<rparr>)"
  by (rule Record_Check [OF assms])

theorem dedup_record_check_witness:
  "DedupTable_Check ''r1'' (DedupTable_Record ''r1'' 5 True [] (DedupTable_new 2)) =
    (kAlreadyCommitted, Some \<lparr>de_committed = True, de_success = True, de_error = [], de_log_index = 5\<rparr>)"
  by (rule dedup_record_check) (simp_all add: DedupTable_new_def dedup_inv_def queued_def)

section \<open>Snapshots of the table\<close>

lemma omap_unique:
  assumes "omap a" and "omap b" and "map_of a = map_of b"
  shows "a = b"
proof (rule map_sorted_distinct_set_unique [of fst])
  have set: "set a = set b" using assms map_of_inject_set omap_dmap by blast
  show "inj_on fst (set a \<union> set b)" using omap_dmap [OF assms(2)] by (simp add: set distinct_map)
  show "set a = set b" by (rule set)
qed (use assms in \<open>simp_all add: strict_sorted_iff\<close>)

lemma fold_put:
  assumes "dmap es" and "omap m"
  shows "omap (fold (\<lambda>(k, e). omap_put k e) es m)"
    and "map_of (fold (\<lambda>(k, e). omap_put k e) es m) k =
      (case map_of es k of Some v \<Rightarrow> Some v | None \<Rightarrow> map_of m k)"
  using assms
proof (induction es arbitrary: m)
  case (Cons x es)
  obtain k' v where x: "x = (k', v)" by (cases x)
  { case 1 then show ?case using Cons by (simp add: x) }
  { case 2
    have "map_of es k' = None" using 2(1) by (simp add: x map_of_eq_None_iff)
    then show ?case using Cons 2 by (auto simp: x split: option.splits) }
qed simp_all

lemma Insert_no_evict:
  assumes "length (dt_table t) < dt_window_size t"
  shows "InsertOrUpdateLocked k e t = t\<lparr>dt_table := omap_put k e (dt_table t),
     dt_order_queue := dt_order_queue t @ [(de_log_index e, k)]\<rparr>"
  using evict_stop [of "omap_put k e (dt_table t)" "dt_window_size t"] length_omap_put [of k e "dt_table t"] assms
  by (simp add: InsertOrUpdateLocked_def EvictIfNeededLocked_def)

lemma fold_no_evict:
  assumes "length (dt_table t) + length es \<le> dt_window_size t"
  shows "dt_table (fold (\<lambda>(k, e). InsertOrUpdateLocked k e) es t) =
    fold (\<lambda>(k, e). omap_put k e) es (dt_table t)"
  using assms
proof (induction es arbitrary: t)
  case (Cons x es)
  obtain k e where x: "x = (k, e)" by (cases x)
  have "length (omap_put k e (dt_table t)) + length es \<le> dt_window_size t"
    using length_omap_put [of k e "dt_table t"] Cons.prems by simp
  then show ?case using Cons by (simp add: x Insert_no_evict)
qed simp

lemma by_log_index_perm [simp]: "set (by_log_index es) = set es" "length (by_log_index es) = length es"
  by (simp_all add: by_log_index_def)

lemma dmap_by_log_index [simp]: "dmap es \<Longrightarrow> dmap (by_log_index es)"
  by (simp add: by_log_index_def distinct_map)

lemma loaded_dedup_record: "de_committed e \<Longrightarrow> loaded_entry (dedup_record (k, e)) = (k, e)"
  by (simp add: loaded_entry_def dedup_record_def)

text \<open>
  C23: saving the table and loading it into a table of the same window gives back exactly the
  committed requests; the pending ones, which are not part of the applied state, are dropped.
\<close>

theorem dedup_save_load:
  assumes "codec_ok c" and "dedup_inv t" and "quiet s" and "dt_window_size t0 = dt_window_size t"
    and "\<forall>(k, e) \<in> set (dt_table t). k \<noteq> [] \<and> ascii k \<and> ascii (de_error e) \<and> de_log_index e < 2 ^ 64"
  shows "\<exists>s' t'. DedupTable_SaveTo c p t s = (Ok (), s') \<and>
    DedupTable_LoadFrom c p t0 s' = (Ok (), t', s') \<and>
    dt_table t' = filter (\<lambda>(_, e). de_committed e) (dt_table t)"
proof -
  let ?C = "filter (\<lambda>(_, e). de_committed e) (dt_table t)"
  let ?rs = "map dedup_record (by_log_index ?C)"
  have om: "omap ?C" using assms(2) by (simp add: dedup_inv_def sorted_filter_keys)
  have "\<forall>r \<in> set ?rs. pr_log_index r < 2 ^ 64 \<and> ascii (pr_request_id r) \<and> ascii (pr_error r)"
    using assms(5) by (auto simp: dedup_record_def)
  then obtain b where b: "ser_Dedup c ?rs = Some b" "parse_Dedup c b = Some ?rs"
    using codec_dedup [OF assms(1)] by blast
  let ?t = "BuildTempPath p"
  let ?s1 = "put_file ?t b s"
  let ?s2 = "del_file ?t (put_file p (content ?s1 ?t) ?s1)"
  have ne: "?t \<noteq> p" "p \<noteq> ?t" by (simp_all add: BuildTempPath_def)
  have "sys_rename ?t p ?s1 = (Ok (), ?s2)" using assms(3) by (intro sys_rename_quiet) simp_all
  then have save: "DedupTable_SaveTo c p t s = (Ok (), ?s2)"
    using assms(3) b(1)
    by (simp add: DedupTable_SaveTo_def andThen_def os_simps whenP_def ret_def)
  have q2: "quiet ?s2" "file_exists ?s2 p" "content ?s2 p = b" using assms(3) ne by simp_all
  have "map loaded_entry ?rs = by_log_index ?C"
    unfolding map_map by (rule map_idI) (auto simp: loaded_dedup_record)
  then have load: "DedupTable_LoadFrom c p t0 ?s2 = (Ok (), fold (\<lambda>(k, e). InsertOrUpdateLocked k e)
      (by_log_index (by_log_index ?C)) (clear_table t0), ?s2)"
    using stream_quiet(2) [OF q2(1,2)] q2(3) b(2) assms(5)
    by (auto simp: DedupTable_LoadFrom_def ParseSnapshot_def dedup_record_def)
  have len: "length ?C \<le> dt_window_size t"
    using length_filter_le [of _ "dt_table t"] assms(2) unfolding dedup_inv_def by (meson le_trans)
  have "fold (\<lambda>(k, e). omap_put k e) (by_log_index (by_log_index ?C)) [] = ?C"
  proof (rule omap_unique [OF _ om])
    have d: "dmap (by_log_index (by_log_index ?C))" by (intro dmap_by_log_index omap_dmap om)
    show "omap (fold (\<lambda>(k, e). omap_put k e) (by_log_index (by_log_index ?C)) [])"
      by (rule fold_put(1) [OF d]) simp
    have "map_of (by_log_index (by_log_index ?C)) = map_of ?C"
      using map_of_inject_set [OF d omap_dmap [OF om]] by simp
    then show "map_of (fold (\<lambda>(k, e). omap_put k e) (by_log_index (by_log_index ?C)) []) = map_of ?C"
      using fold_put(2) [OF d, of "[]"] by (intro ext) (simp split: option.splits)
  qed
  then have "dt_table (fold (\<lambda>(k, e). InsertOrUpdateLocked k e) (by_log_index (by_log_index ?C)) (clear_table t0)) = ?C"
    using fold_no_evict [of "clear_table t0" "by_log_index (by_log_index ?C)"] len assms(4)
    by (simp add: clear_table_def)
  then show ?thesis using save load by blast
qed

theorem dedup_save_load_witness:
  "\<exists>s' t'. DedupTable_SaveTo sample_codec ''snap/dedup.bin''
      (DedupTable_Record ''r1'' 5 True [] (snd (DedupTable_TrackPending ''r2'' 6 (DedupTable_new 4))))
      \<lparr>os_files = [], os_io = []\<rparr> = (Ok (), s') \<and>
    DedupTable_LoadFrom sample_codec ''snap/dedup.bin'' (DedupTable_new 4) s' = (Ok (), t', s') \<and>
    dt_table t' = [(''r1'', \<lparr>de_committed = True, de_success = True, de_error = [], de_log_index = 5\<rparr>)]"
proof -
  let ?t = "DedupTable_Record ''r1'' 5 True [] (snd (DedupTable_TrackPending ''r2'' 6 (DedupTable_new 4)))"
  have "dedup_inv (DedupTable_new 4)" by (simp add: DedupTable_new_def dedup_inv_def queued_def)
  then have inv: "dedup_inv ?t" by (intro Record_inv TrackPending_inv)
  have tb: "dt_window_size ?t = 4 \<and> dt_table ?t =
     [(''r1'', \<lparr>de_committed = True, de_success = True, de_error = [], de_log_index = 5\<rparr>),
      (''r2'', \<lparr>de_committed = False, de_success = False, de_error = [], de_log_index = 6\<rparr>)]"
    by (simp add: DedupTable_Record_def DedupTable_TrackPending_def DedupTable_new_def InsertOrUpdateLocked_def
        EvictIfNeededLocked_def Let_def)
  have "dt_window_size (DedupTable_new 4) = dt_window_size ?t" using tb by (simp add: DedupTable_new_def)
  moreover have "\<forall>(k, e) \<in> set (dt_table ?t). k \<noteq> [] \<and> ascii k \<and> ascii (de_error e) \<and> de_log_index e < 2 ^ 64"
    using tb by (simp add: ascii_def)
  ultimately show ?thesis
    using dedup_save_load [OF sample_codec_ok inv, of "\<lparr>os_files = [], os_io = []\<rparr>" "DedupTable_new 4" "''snap/dedup.bin''"] tb
    by simp
qed

end
