(* ===== verification/Config.thy ===== *)
theory Config
  imports Posix Strings Complex_Main
begin

text \<open>
  \<^verbatim>\<open>include/common/config.hpp\<close> and \<^verbatim>\<open>src/common/config.cpp\<close>: the configuration of a node, read
  from a TOML file and validated. The TOML library is a parameter (\<open>toml\<close>): how a file is
  parsed, how a dotted path is looked up and what the typed reads return. The integers are
  machine words, since the default lease duration is computed by a subtraction that wraps.
  The reads are pure, so that the first failing result of \<^verbatim>\<open>EnsureAllOk\<close> is the first failing
  read.
\<close>

section \<open>The configuration\<close>

text \<open>A \<^verbatim>\<open>float\<close>: a finite one is a rational number; comparisons with NaN are false.\<close>

datatype cfloat = Fin rat | PosInf | NegInf | NaN

fun float_less :: "cfloat \<Rightarrow> cfloat \<Rightarrow> bool" where
  "float_less (Fin a) (Fin b) = (a < b)"
| "float_less NegInf b = (b \<noteq> NegInf \<and> b \<noteq> NaN)"
| "float_less a PosInf = (a \<noteq> PosInf \<and> a \<noteq> NaN)"
| "float_less _ _ = False"

record ClusterConfig =
  cc_node_id :: string
  cc_peers :: "string list"

record RaftConfig =
  rc_heartbeat_interval_ms :: u32
  rc_election_timeout_min_ms :: u32
  rc_election_timeout_max_ms :: u32
  rc_clock_drift_bound_ms :: u32
  rc_lease_duration_ms :: u32
  rc_snapshot_threshold :: u32
  rc_pipeline_window_size :: u32
  rc_batch_max_entries :: u32
  rc_batch_flush_interval_us :: u32
  rc_mentor_ack_timeout_ms :: u32
  rc_mentor_recover_timeout_ms :: u32
  rc_topology_refresh_interval_ms :: u32

record VectorConfig =
  vc_dim :: u32
  vc_metric :: string
  vc_data_type :: string
  vc_initial_capacity :: u32
  vc_connectivity :: u32
  vc_expansion_add :: u32
  vc_expansion_search :: u32

record IndexMaintenanceConfig =
  ic_check_interval_s :: u32
  ic_compact_delete_ratio_threshold :: cfloat
  ic_compact_max_interval_s :: u32
  ic_isolate_fragmentation_threshold :: cfloat

record ClientConfig =
  cl_dedup_window_size :: u32
  cl_retry_base_ms :: u32
  cl_retry_max_ms :: u32
  cl_max_retry_count :: u32

record StorageConfig =
  sc_raft_log_dir :: string
  sc_snapshot_dir :: string
  sc_wal_segment_size_mb :: u32

record Config =
  cfg_cluster :: ClusterConfig
  cfg_raft :: RaftConfig
  cfg_vector :: VectorConfig
  cfg_index_maintenance :: IndexMaintenanceConfig
  cfg_client :: ClientConfig
  cfg_grpc_port :: u16
  cfg_storage :: StorageConfig
  cfg_logging_level :: string

definition IsSingleNode :: "Config \<Rightarrow> bool" where
  "IsSingleNode cfg = (cc_peers (cfg_cluster cfg) = [])"

definition default_RaftConfig :: RaftConfig where
  "default_RaftConfig = \<lparr>rc_heartbeat_interval_ms = 150, rc_election_timeout_min_ms = 300,
     rc_election_timeout_max_ms = 600, rc_clock_drift_bound_ms = 50, rc_lease_duration_ms = 250,
     rc_snapshot_threshold = 10000, rc_pipeline_window_size = 16, rc_batch_max_entries = 64,
     rc_batch_flush_interval_us = 500, rc_mentor_ack_timeout_ms = 200,
     rc_mentor_recover_timeout_ms = 3000, rc_topology_refresh_interval_ms = 30000\<rparr>"

definition default_VectorConfig :: VectorConfig where
  "default_VectorConfig = \<lparr>vc_dim = 1024, vc_metric = ''ip'', vc_data_type = ''f32'',
     vc_initial_capacity = 100000, vc_connectivity = 16, vc_expansion_add = 128, vc_expansion_search = 64\<rparr>"

definition default_IndexMaintenanceConfig :: IndexMaintenanceConfig where
  "default_IndexMaintenanceConfig = \<lparr>ic_check_interval_s = 60,
     ic_compact_delete_ratio_threshold = Fin (13421773 / 67108864),
     ic_compact_max_interval_s = 604800, ic_isolate_fragmentation_threshold = Fin (13421773 / 134217728)\<rparr>"

definition default_ClientConfig :: ClientConfig where
  "default_ClientConfig = \<lparr>cl_dedup_window_size = 1000, cl_retry_base_ms = 50, cl_retry_max_ms = 2000,
     cl_max_retry_count = 10\<rparr>"

definition default_StorageConfig :: StorageConfig where
  "default_StorageConfig = \<lparr>sc_raft_log_dir = ''./data/raft'', sc_snapshot_dir = ''./data/snapshot'',
     sc_wal_segment_size_mb = 64\<rparr>"

definition default_grpc_port :: u16 where "default_grpc_port = 7001"
definition default_logging_level :: string where "default_logging_level = ''info''"

section \<open>Reading values\<close>

record ('t, 'n) toml =
  tm_parse_file :: "path \<Rightarrow> 't option"
  tm_at_path :: "'t \<Rightarrow> string \<Rightarrow> 'n option"
  tm_u32 :: "'n \<Rightarrow> u32 option"
  tm_u16 :: "'n \<Rightarrow> u16 option"
  tm_f32 :: "'n \<Rightarrow> cfloat option"
  tm_str :: "'n \<Rightarrow> string option"
  tm_array :: "'n \<Rightarrow> 'n list option"

definition bindR :: "'a result \<Rightarrow> ('a \<Rightarrow> 'b result) \<Rightarrow> 'b result" where
  "bindR r f = (case r of Err e \<Rightarrow> Err e | Ok x \<Rightarrow> f x)"

lemma bindR_simps [simp]: "bindR (Err e) f = Err e" "bindR (Ok x) f = f x"
  by (simp_all add: bindR_def)

definition TryReadValue :: "('t, 'n) toml \<Rightarrow> ('n \<Rightarrow> 'a option) \<Rightarrow> 't \<Rightarrow> string \<Rightarrow> 'a option result" where
  "TryReadValue T val table p = (case tm_at_path T table p of
       None \<Rightarrow> Ok None
     | Some node \<Rightarrow> (case val node of
         None \<Rightarrow> Err (ConfigError (''type: '' @ p))
       | Some x \<Rightarrow> Ok (Some x)))"

definition ReadRequiredValue :: "('t, 'n) toml \<Rightarrow> ('n \<Rightarrow> 'a option) \<Rightarrow> 't \<Rightarrow> string \<Rightarrow> 'a result" where
  "ReadRequiredValue T val table p = bindR (TryReadValue T val table p)
     (\<lambda>v. case v of None \<Rightarrow> Err (ConfigError (''missing: '' @ p)) | Some x \<Rightarrow> Ok x)"

fun read_aliases ::
    "('t, 'n) toml \<Rightarrow> ('n \<Rightarrow> 'a option) \<Rightarrow> 't \<Rightarrow> string list \<Rightarrow> 'a option result" where
  "read_aliases T val table [] = Ok None"
| "read_aliases T val table (p # ps) = bindR (TryReadValue T val table p)
     (\<lambda>v. case v of None \<Rightarrow> read_aliases T val table ps | Some x \<Rightarrow> Ok (Some x))"

fun join_keys :: "string list \<Rightarrow> string" where
  "join_keys [] = []"
| "join_keys [p] = p"
| "join_keys (p # q # ps) = p @ '', '' @ join_keys (q # ps)"

definition ReadRequiredValueWithAliases ::
    "('t, 'n) toml \<Rightarrow> ('n \<Rightarrow> 'a option) \<Rightarrow> 't \<Rightarrow> string list \<Rightarrow> 'a result" where
  "ReadRequiredValueWithAliases T val table ps = bindR (read_aliases T val table ps)
     (\<lambda>v. case v of None \<Rightarrow> Err (ConfigError (''missing: '' @ join_keys ps)) | Some x \<Rightarrow> Ok x)"

definition ReadOptionalValue ::
    "('t, 'n) toml \<Rightarrow> ('n \<Rightarrow> 'a option) \<Rightarrow> 't \<Rightarrow> string \<Rightarrow> 'a \<Rightarrow> 'a result" where
  "ReadOptionalValue T val table p default_value = bindR (TryReadValue T val table p)
     (\<lambda>v. case v of None \<Rightarrow> Ok default_value | Some x \<Rightarrow> Ok x)"

definition ReadOptionalValueWithAliases ::
    "('t, 'n) toml \<Rightarrow> ('n \<Rightarrow> 'a option) \<Rightarrow> 't \<Rightarrow> string list \<Rightarrow> 'a \<Rightarrow> 'a result" where
  "ReadOptionalValueWithAliases T val table ps default_value = bindR (read_aliases T val table ps)
     (\<lambda>v. case v of None \<Rightarrow> Ok default_value | Some x \<Rightarrow> Ok x)"

fun read_strings :: "('n \<Rightarrow> string option) \<Rightarrow> string \<Rightarrow> 'n list \<Rightarrow> string list result" where
  "read_strings val p [] = Ok []"
| "read_strings val p (item # items) = (case val item of
       None \<Rightarrow> Err (ConfigError (''array element type: '' @ p))
     | Some x \<Rightarrow> bindR (read_strings val p items) (\<lambda>xs. Ok (x # xs)))"

definition ReadStringArray :: "('t, 'n) toml \<Rightarrow> 't \<Rightarrow> string \<Rightarrow> string list result" where
  "ReadStringArray T table p = (case tm_at_path T table p of
       None \<Rightarrow> Ok []
     | Some node \<Rightarrow> (case tm_array T node of
         None \<Rightarrow> Err (ConfigError (''type: '' @ p))
       | Some items \<Rightarrow> read_strings (tm_str T) p items))"

section \<open>Validation\<close>

definition ValidateVectorConfig :: "VectorConfig \<Rightarrow> unit result" where
  "ValidateVectorConfig cfg =
     (if vc_dim cfg = 0 then Err (ConfigError ''vector.dim'')
      else if vc_initial_capacity cfg = 0 then Err (ConfigError ''vector.initial_capacity'')
      else if vc_connectivity cfg < 2 then Err (ConfigError ''vector.connectivity'')
      else if vc_expansion_add cfg = 0 \<or> vc_expansion_search cfg = 0 then Err (ConfigError ''vector.expansion'')
      else if vc_metric cfg \<noteq> ''ip'' \<and> vc_metric cfg \<noteq> ''l2sq'' \<and> vc_metric cfg \<noteq> ''cos''
        then Err (ConfigError ''vector.metric'')
      else if vc_data_type cfg \<noteq> ''f32'' \<and> vc_data_type cfg \<noteq> ''f16'' \<and> vc_data_type cfg \<noteq> ''i8''
        then Err (ConfigError ''vector.data_type'')
      else Ok ())"

definition ValidateIndexMaintenanceConfig :: "IndexMaintenanceConfig \<Rightarrow> unit result" where
  "ValidateIndexMaintenanceConfig cfg =
     (if ic_check_interval_s cfg = 0 then Err (ConfigError ''index_maintenance.check_interval_s'')
      else if ic_compact_max_interval_s cfg = 0 then Err (ConfigError ''index_maintenance.compact_max_interval_s'')
      else if float_less (ic_compact_delete_ratio_threshold cfg) (Fin 0)
           \<or> float_less (Fin 1) (ic_compact_delete_ratio_threshold cfg)
        then Err (ConfigError ''compact_delete_ratio_threshold'')
      else if float_less (ic_isolate_fragmentation_threshold cfg) (Fin 0)
           \<or> float_less (Fin 1) (ic_isolate_fragmentation_threshold cfg)
        then Err (ConfigError ''isolate_fragmentation_threshold'')
      else Ok ())"

definition ValidateClientConfig :: "ClientConfig \<Rightarrow> unit result" where
  "ValidateClientConfig cfg =
     (if cl_dedup_window_size cfg = 0 then Err (ConfigError ''client.dedup_window_size'')
      else if cl_retry_base_ms cfg = 0 \<or> cl_retry_max_ms cfg = 0 then Err (ConfigError ''client.retry'')
      else if cl_retry_max_ms cfg < cl_retry_base_ms cfg then Err (ConfigError ''client.retry_base_ms'')
      else if cl_max_retry_count cfg = 0 then Err (ConfigError ''client.max_retry_count'')
      else Ok ())"

definition ValidateServerConfig :: "u16 \<Rightarrow> unit result" where
  "ValidateServerConfig grpc_port = (if grpc_port = 0 then Err (ConfigError ''server.grpc_port'') else Ok ())"

definition ValidateStorageConfig :: "StorageConfig \<Rightarrow> unit result" where
  "ValidateStorageConfig cfg =
     (if sc_raft_log_dir cfg = [] then Err (ConfigError ''storage.raft_log_dir'')
      else if sc_snapshot_dir cfg = [] then Err (ConfigError ''storage.snapshot_dir'')
      else if sc_wal_segment_size_mb cfg = 0 then Err (ConfigError ''storage.wal_segment_size_mb'')
      else Ok ())"

definition logging_levels :: "string list" where
  "logging_levels = [''trace'', ''debug'', ''info'', ''warn'', ''warning'', ''error'', ''err'', ''critical'', ''off'']"

definition ValidateLoggingConfig :: "string \<Rightarrow> unit result" where
  "ValidateLoggingConfig level =
     (if ToLower level \<in> set logging_levels then Ok () else Err (ConfigError ''logging.level''))"

definition ValidateLeaseConfig :: "RaftConfig \<Rightarrow> unit result" where
  "ValidateLeaseConfig cfg =
     (if rc_heartbeat_interval_ms cfg = 0 then Err (ConfigError ''raft.heartbeat_interval_ms'')
      else if rc_election_timeout_min_ms cfg = 0 then Err (ConfigError ''raft.election_timeout_min_ms'')
      else if rc_election_timeout_max_ms cfg < rc_election_timeout_min_ms cfg
        then Err (ConfigError ''raft.election_timeout_max_ms'')
      else if rc_election_timeout_min_ms cfg \<le> rc_heartbeat_interval_ms cfg
        then Err (ConfigError ''raft.heartbeat_interval_ms < election_timeout_min_ms'')
      else if rc_election_timeout_min_ms cfg \<le> rc_clock_drift_bound_ms cfg
        then Err (ConfigError ''raft.clock_drift_bound_ms'')
      else if rc_lease_duration_ms cfg \<noteq> rc_election_timeout_min_ms cfg - rc_clock_drift_bound_ms cfg
        then Err (ConfigError ''raft.lease_duration_ms'')
      else Ok ())"

section \<open>Loading\<close>

definition load_cluster :: "('t, 'n) toml \<Rightarrow> 't \<Rightarrow> ClusterConfig result" where
  "load_cluster T table =
     bindR (ReadRequiredValue T (tm_str T) table ''cluster.node_id'') (\<lambda>node_id.
     bindR (ReadStringArray T table ''cluster.peers'') (\<lambda>peers.
       if node_id = [] then Err (ConfigError ''cluster.node_id'')
       else Ok \<lparr>cc_node_id = node_id, cc_peers = peers\<rparr>))"

definition load_raft :: "('t, 'n) toml \<Rightarrow> 't \<Rightarrow> RaftConfig result" where
  "load_raft T table = (let d = default_RaftConfig; opt = ReadOptionalValue T (tm_u32 T) table in
     bindR (opt ''raft.heartbeat_interval_ms'' (rc_heartbeat_interval_ms d)) (\<lambda>heartbeat.
     bindR (opt ''raft.election_timeout_min_ms'' (rc_election_timeout_min_ms d)) (\<lambda>election_min.
     bindR (opt ''raft.election_timeout_max_ms'' (rc_election_timeout_max_ms d)) (\<lambda>election_max.
     bindR (opt ''raft.clock_drift_bound_ms'' (rc_clock_drift_bound_ms d)) (\<lambda>clock_drift.
     bindR (TryReadValue T (tm_u32 T) table ''raft.lease_duration_ms'') (\<lambda>explicit_lease.
     bindR (opt ''raft.snapshot_threshold'' (rc_snapshot_threshold d)) (\<lambda>snapshot_threshold.
     bindR (opt ''raft.pipeline_window_size'' (rc_pipeline_window_size d)) (\<lambda>pipeline_window.
     bindR (opt ''raft.batch_max_entries'' (rc_batch_max_entries d)) (\<lambda>batch_max.
     bindR (opt ''raft.batch_flush_interval_us'' (rc_batch_flush_interval_us d)) (\<lambda>batch_flush.
     bindR (opt ''raft.mentor_ack_timeout_ms'' (rc_mentor_ack_timeout_ms d)) (\<lambda>mentor_ack.
     bindR (opt ''raft.mentor_recover_timeout_ms'' (rc_mentor_recover_timeout_ms d)) (\<lambda>mentor_recover.
     bindR (opt ''raft.topology_refresh_interval_ms'' (rc_topology_refresh_interval_ms d)) (\<lambda>topology_refresh.
       Ok \<lparr>rc_heartbeat_interval_ms = heartbeat, rc_election_timeout_min_ms = election_min,
         rc_election_timeout_max_ms = election_max, rc_clock_drift_bound_ms = clock_drift,
         rc_lease_duration_ms = (case explicit_lease of Some l \<Rightarrow> l | None \<Rightarrow> election_min - clock_drift),
         rc_snapshot_threshold = snapshot_threshold, rc_pipeline_window_size = pipeline_window,
         rc_batch_max_entries = batch_max, rc_batch_flush_interval_us = batch_flush,
         rc_mentor_ack_timeout_ms = mentor_ack, rc_mentor_recover_timeout_ms = mentor_recover,
         rc_topology_refresh_interval_ms = topology_refresh\<rparr>)))))))))))))"

definition load_vector :: "('t, 'n) toml \<Rightarrow> 't \<Rightarrow> VectorConfig result" where
  "load_vector T table = (let d = default_VectorConfig; opt = ReadOptionalValue T (tm_u32 T) table in
     bindR (ReadRequiredValueWithAliases T (tm_u32 T) table [''vector.dim'', ''vector.dimension'']) (\<lambda>dim.
     bindR (ReadOptionalValue T (tm_str T) table ''vector.metric'' (vc_metric d)) (\<lambda>metric.
     bindR (ReadRequiredValueWithAliases T (tm_str T) table [''vector.data_type'', ''vector.scalar_kind'']) (\<lambda>data_type.
     bindR (opt ''vector.initial_capacity'' (vc_initial_capacity d)) (\<lambda>initial_capacity.
     bindR (opt ''vector.connectivity'' (vc_connectivity d)) (\<lambda>connectivity.
     bindR (opt ''vector.expansion_add'' (vc_expansion_add d)) (\<lambda>expansion_add.
     bindR (opt ''vector.expansion_search'' (vc_expansion_search d)) (\<lambda>expansion_search.
       Ok \<lparr>vc_dim = dim, vc_metric = ToLower metric, vc_data_type = ToLower data_type,
         vc_initial_capacity = initial_capacity, vc_connectivity = connectivity,
         vc_expansion_add = expansion_add, vc_expansion_search = expansion_search\<rparr>))))))))"

definition load_maintenance :: "('t, 'n) toml \<Rightarrow> 't \<Rightarrow> IndexMaintenanceConfig result" where
  "load_maintenance T table = (let d = default_IndexMaintenanceConfig in
     bindR (ReadOptionalValue T (tm_u32 T) table ''index_maintenance.check_interval_s''
       (ic_check_interval_s d)) (\<lambda>maintenance_interval.
     bindR (ReadOptionalValue T (tm_f32 T) table ''index_maintenance.compact_delete_ratio_threshold''
       (ic_compact_delete_ratio_threshold d)) (\<lambda>compact_ratio.
     bindR (ReadOptionalValue T (tm_u32 T) table ''index_maintenance.compact_max_interval_s''
       (ic_compact_max_interval_s d)) (\<lambda>compact_interval.
     bindR (ReadOptionalValue T (tm_f32 T) table ''index_maintenance.isolate_fragmentation_threshold''
       (ic_isolate_fragmentation_threshold d)) (\<lambda>isolate_ratio.
       Ok \<lparr>ic_check_interval_s = maintenance_interval, ic_compact_delete_ratio_threshold = compact_ratio,
         ic_compact_max_interval_s = compact_interval, ic_isolate_fragmentation_threshold = isolate_ratio\<rparr>)))))"

definition load_client :: "('t, 'n) toml \<Rightarrow> 't \<Rightarrow> ClientConfig result" where
  "load_client T table = (let d = default_ClientConfig; opt = ReadOptionalValue T (tm_u32 T) table in
     bindR (opt ''client.dedup_window_size'' (cl_dedup_window_size d)) (\<lambda>dedup_window.
     bindR (opt ''client.retry_base_ms'' (cl_retry_base_ms d)) (\<lambda>retry_base.
     bindR (opt ''client.retry_max_ms'' (cl_retry_max_ms d)) (\<lambda>retry_max.
     bindR (opt ''client.max_retry_count'' (cl_max_retry_count d)) (\<lambda>retry_count.
       Ok \<lparr>cl_dedup_window_size = dedup_window, cl_retry_base_ms = retry_base,
         cl_retry_max_ms = retry_max, cl_max_retry_count = retry_count\<rparr>)))))"

definition choose_dir :: "string option \<Rightarrow> string option \<Rightarrow> string \<Rightarrow> string \<Rightarrow> string" where
  "choose_dir explicit data_dir sub fallback = (case explicit of
       Some d \<Rightarrow> d
     | None \<Rightarrow> (case data_dir of Some base \<Rightarrow> path_join base sub | None \<Rightarrow> fallback))"

definition load_storage :: "('t, 'n) toml \<Rightarrow> 't \<Rightarrow> StorageConfig result" where
  "load_storage T table = (let d = default_StorageConfig; str = TryReadValue T (tm_str T) table in
     bindR (str ''storage.raft_log_dir'') (\<lambda>raft_log_dir.
     bindR (str ''storage.snapshot_dir'') (\<lambda>snapshot_dir.
     bindR (str ''storage.data_dir'') (\<lambda>data_dir.
     bindR (ReadOptionalValue T (tm_u32 T) table ''storage.wal_segment_size_mb'' (sc_wal_segment_size_mb d))
       (\<lambda>wal_segment_size_mb.
       Ok \<lparr>sc_raft_log_dir = choose_dir raft_log_dir data_dir ''raft'' (sc_raft_log_dir d),
         sc_snapshot_dir = choose_dir snapshot_dir data_dir ''snapshot'' (sc_snapshot_dir d),
         sc_wal_segment_size_mb = wal_segment_size_mb\<rparr>)))))"

definition validate :: "Config \<Rightarrow> Config result" where
  "validate cfg =
     bindR (ValidateLeaseConfig (cfg_raft cfg)) (\<lambda>_.
     bindR (ValidateVectorConfig (cfg_vector cfg)) (\<lambda>_.
     bindR (ValidateIndexMaintenanceConfig (cfg_index_maintenance cfg)) (\<lambda>_.
     bindR (ValidateClientConfig (cfg_client cfg)) (\<lambda>_.
     bindR (ValidateServerConfig (cfg_grpc_port cfg)) (\<lambda>_.
     bindR (ValidateStorageConfig (cfg_storage cfg)) (\<lambda>_.
     bindR (ValidateLoggingConfig (cfg_logging_level cfg)) (\<lambda>_. Ok cfg)))))))"

definition Config_LoadFromFile :: "('t, 'n) toml \<Rightarrow> path \<Rightarrow> Config result" where
  "Config_LoadFromFile T p = (case tm_parse_file T p of
       None \<Rightarrow> Err (ConfigError ''parse'')
     | Some table \<Rightarrow>
         bindR (load_cluster T table) (\<lambda>cluster.
         bindR (load_raft T table) (\<lambda>raft.
         bindR (load_vector T table) (\<lambda>vector.
         bindR (load_maintenance T table) (\<lambda>maintenance.
         bindR (load_client T table) (\<lambda>client.
         bindR (ReadOptionalValue T (tm_u16 T) table ''server.grpc_port'' default_grpc_port) (\<lambda>grpc_port.
         bindR (ReadOptionalValue T (tm_str T) table ''logging.level'' default_logging_level) (\<lambda>logging_level.
         bindR (load_storage T table) (\<lambda>storage.
           validate \<lparr>cfg_cluster = cluster, cfg_raft = raft, cfg_vector = vector,
             cfg_index_maintenance = maintenance, cfg_client = client, cfg_grpc_port = grpc_port,
             cfg_storage = storage, cfg_logging_level = ToLower logging_level\<rparr>)))))))))"

section \<open>What a loaded configuration guarantees\<close>

text \<open>
  The timing a Raft node relies on, over the natural numbers: the lease a leader holds and the
  bound on the clock drift add up to the shortest election timeout, without wrap-around.
\<close>

definition timing_ok :: "RaftConfig \<Rightarrow> bool" where
  "timing_ok cfg \<longleftrightarrow> 0 < unat (rc_heartbeat_interval_ms cfg) \<and>
     unat (rc_heartbeat_interval_ms cfg) < unat (rc_election_timeout_min_ms cfg) \<and>
     unat (rc_election_timeout_min_ms cfg) \<le> unat (rc_election_timeout_max_ms cfg) \<and>
     0 < unat (rc_lease_duration_ms cfg) \<and>
     unat (rc_lease_duration_ms cfg) + unat (rc_clock_drift_bound_ms cfg) = unat (rc_election_timeout_min_ms cfg)"

lemma bindR_Ok: "bindR r f = Ok y \<longleftrightarrow> (\<exists>x. r = Ok x \<and> f x = Ok y)"
  by (cases r) simp_all

lemma ValidateLeaseConfig_iff: "ValidateLeaseConfig cfg = Ok () \<longleftrightarrow> timing_ok cfg"
proof -
  define m where "m = rc_election_timeout_min_ms cfg"
  define d where "d = rc_clock_drift_bound_ms cfg"
  have sub: "unat (m - d) = unat m - unat d" if "d < m" using that by (simp add: unat_sub order.strict_implies_order)
  have "rc_lease_duration_ms cfg = m - d \<longleftrightarrow> unat (rc_lease_duration_ms cfg) = unat m - unat d" if "d < m"
    using sub [OF that] by (metis unsigned_word_eqI)
  then show ?thesis
    unfolding ValidateLeaseConfig_def timing_ok_def m_def [symmetric] d_def [symmetric]
    by (auto simp: word_less_nat_alt word_le_nat_alt unat_gt_0 unat_eq_0 not_less split: if_splits)
qed

definition vector_ok :: "VectorConfig \<Rightarrow> bool" where
  "vector_ok cfg \<longleftrightarrow> 0 < unat (vc_dim cfg) \<and> 0 < unat (vc_initial_capacity cfg) \<and> 2 \<le> unat (vc_connectivity cfg) \<and>
     0 < unat (vc_expansion_add cfg) \<and> 0 < unat (vc_expansion_search cfg) \<and>
     vc_metric cfg \<in> {''ip'', ''l2sq'', ''cos''} \<and> vc_data_type cfg \<in> {''f32'', ''f16'', ''i8''}"

lemma ValidateVectorConfig_ok: "ValidateVectorConfig cfg = Ok () \<Longrightarrow> vector_ok cfg"
  by (auto simp: ValidateVectorConfig_def vector_ok_def word_less_nat_alt unat_gt_0 split: if_splits)

lemma load_cluster_id: "load_cluster T table = Ok c \<Longrightarrow> cc_node_id c \<noteq> []"
  by (auto simp: load_cluster_def bindR_Ok split: if_splits)

text \<open>
  C27: a configuration that loads is one the node can run with. The timing parameters are
  consistent (heartbeats fit into the election timeout; the lease plus the clock drift is
  exactly the shortest election timeout, with no wrapped subtraction), the vector parameters
  are in range with a known metric and scalar type, the de-duplication window is not empty, and
  the node has a name, a port and directories.
\<close>

theorem config_loaded_ok:
  assumes "Config_LoadFromFile T p = Ok cfg"
  shows "timing_ok (cfg_raft cfg) \<and> vector_ok (cfg_vector cfg) \<and>
    cc_node_id (cfg_cluster cfg) \<noteq> [] \<and> cfg_grpc_port cfg \<noteq> 0 \<and>
    0 < unat (cl_dedup_window_size (cfg_client cfg)) \<and>
    0 < unat (cl_retry_base_ms (cfg_client cfg)) \<and>
    unat (cl_retry_base_ms (cfg_client cfg)) \<le> unat (cl_retry_max_ms (cfg_client cfg)) \<and>
    sc_raft_log_dir (cfg_storage cfg) \<noteq> [] \<and> sc_snapshot_dir (cfg_storage cfg) \<noteq> [] \<and>
    0 < unat (sc_wal_segment_size_mb (cfg_storage cfg))"
proof -
  obtain table c where "load_cluster T table = Ok c" and c: "cfg_cluster cfg = c" and "validate cfg = Ok cfg"
    using assms by (auto simp: Config_LoadFromFile_def validate_def bindR_Ok split: option.splits)
  then have "ValidateLeaseConfig (cfg_raft cfg) = Ok ()" and "ValidateVectorConfig (cfg_vector cfg) = Ok ()"
    and "ValidateClientConfig (cfg_client cfg) = Ok ()" and "ValidateServerConfig (cfg_grpc_port cfg) = Ok ()"
    and "ValidateStorageConfig (cfg_storage cfg) = Ok ()" and "cc_node_id (cfg_cluster cfg) \<noteq> []"
    by (auto simp: validate_def bindR_Ok c load_cluster_id)
  then show ?thesis
    by (auto simp: ValidateLeaseConfig_iff ValidateVectorConfig_ok ValidateClientConfig_def ValidateServerConfig_def
        ValidateStorageConfig_def word_less_nat_alt word_le_nat_alt unat_gt_0 not_less split: if_splits)
qed

lemmas config_reads = TryReadValue_def ReadRequiredValue_def ReadRequiredValueWithAliases_def ReadOptionalValue_def
  ReadStringArray_def

lemmas config_defaults = default_RaftConfig_def default_VectorConfig_def default_IndexMaintenanceConfig_def
  default_ClientConfig_def default_StorageConfig_def default_grpc_port_def default_logging_level_def

lemmas config_validations = ValidateLeaseConfig_def ValidateVectorConfig_def ValidateIndexMaintenanceConfig_def
  ValidateClientConfig_def ValidateServerConfig_def ValidateStorageConfig_def ValidateLoggingConfig_def
  logging_levels_def

text \<open>A table of the sample TOML library maps dotted paths to integers or strings.\<close>

definition sample_toml :: "((string \<times> (nat + string)) list, nat + string) toml" where
  "sample_toml = \<lparr>tm_parse_file = (\<lambda>p. if p = ''node.toml''
       then Some [(''cluster.node_id'', Inr ''n1''), (''vector.dimension'', Inl 8),
         (''vector.data_type'', Inr ''F32''), (''raft.clock_drift_bound_ms'', Inl 100)] else None),
     tm_at_path = map_of,
     tm_u32 = (\<lambda>v. case v of Inl n \<Rightarrow> Some (of_nat n) | Inr _ \<Rightarrow> None),
     tm_u16 = (\<lambda>v. case v of Inl n \<Rightarrow> Some (of_nat n) | Inr _ \<Rightarrow> None),
     tm_f32 = (\<lambda>_. None),
     tm_str = (\<lambda>v. case v of Inr s \<Rightarrow> Some s | Inl _ \<Rightarrow> None),
     tm_array = (\<lambda>_. None)\<rparr>"

theorem config_loaded_ok_witness:
  "\<exists>cfg. Config_LoadFromFile sample_toml ''node.toml'' = Ok cfg \<and>
    timing_ok (cfg_raft cfg) \<and> vector_ok (cfg_vector cfg)"
proof -
  have "\<exists>cfg. Config_LoadFromFile sample_toml ''node.toml'' = Ok cfg"
    by (simp add: Config_LoadFromFile_def sample_toml_def load_cluster_def load_raft_def load_vector_def
        load_maintenance_def load_client_def load_storage_def config_reads config_defaults validate_def
        config_validations ToLower_def tolower_def code_def Let_def choose_dir_def
        char_of_def bit_0)
  then show ?thesis using config_loaded_ok by blast
qed

end
