(* ===== verification/SnapshotStore.thy ===== *)
theory SnapshotStore
  imports RaftMeta Config
begin

text \<open>
  \<^verbatim>\<open>include/storage/snapshot_store.hpp\<close> and \<^verbatim>\<open>src/storage/snapshot_store.cpp\<close>: the snapshot
  directory and the JSON file \<^verbatim>\<open>snapshot.meta\<close> that describes the snapshot in it. A position
  in a text is modelled by the rest of the text from there on.
\<close>

section \<open>JSON strings\<close>

definition escape_char :: "char \<Rightarrow> string" where
  "escape_char ch =
     (if ch = CHR 0x5C then [CHR 0x5C, CHR 0x5C]
      else if ch = CHR 0x22 then [CHR 0x5C, CHR 0x22]
      else if ch = CHR 0x0A then [CHR 0x5C, CHR ''n'']
      else if ch = CHR 0x0D then [CHR 0x5C, CHR ''r'']
      else if ch = CHR 0x09 then [CHR 0x5C, CHR ''t'']
      else [ch])"

definition EscapeJson :: "string \<Rightarrow> string" where
  "EscapeJson input = concat (map escape_char input)"

fun UnescapeJson :: "string \<Rightarrow> string result" where
  "UnescapeJson [] = Ok []"
| "UnescapeJson (ch # r) =
     (if ch \<noteq> CHR 0x5C then bindR (UnescapeJson r) (\<lambda>v. Ok (ch # v))
      else case r of
          [] \<Rightarrow> Err (ConfigError ''incomplete escape'')
        | escaped # r' \<Rightarrow>
            if escaped = CHR 0x5C then bindR (UnescapeJson r') (\<lambda>v. Ok (CHR 0x5C # v))
            else if escaped = CHR 0x22 then bindR (UnescapeJson r') (\<lambda>v. Ok (CHR 0x22 # v))
            else if escaped = CHR ''n'' then bindR (UnescapeJson r') (\<lambda>v. Ok (CHR 0x0A # v))
            else if escaped = CHR ''r'' then bindR (UnescapeJson r') (\<lambda>v. Ok (CHR 0x0D # v))
            else if escaped = CHR ''t'' then bindR (UnescapeJson r') (\<lambda>v. Ok (CHR 0x09 # v))
            else Err (ConfigError ''unsupported escape''))"

text \<open>\<^verbatim>\<open>std::string::find\<close>: what follows the first occurrence of the pattern.\<close>

fun find_after :: "string \<Rightarrow> string \<Rightarrow> string option" where
  "find_after pat [] = (if pat = [] then Some [] else None)"
| "find_after pat (ch # r) = (if prefix pat (ch # r) then Some (drop (length pat) (ch # r)) else find_after pat r)"

definition FindJsonValueStart :: "string \<Rightarrow> string \<Rightarrow> string result" where
  "FindJsonValueStart json key = (case find_after (CHR 0x22 # key @ [CHR 0x22]) json of
       None \<Rightarrow> Err (ConfigError (''snapshot.meta: '' @ key))
     | Some r \<Rightarrow> (case find_after '':'' r of
         None \<Rightarrow> Err (ConfigError (''snapshot.meta: '' @ key))
       | Some v \<Rightarrow> (let value = dropWhile isspace v in
           if value = [] then Err (ConfigError (''snapshot.meta: '' @ key)) else Ok value)))"

fun scan_string :: "string \<Rightarrow> bool \<Rightarrow> string \<Rightarrow> string \<Rightarrow> string result" where
  "scan_string key escaping raw [] = Err (ConfigError (''snapshot.meta: '' @ key))"
| "scan_string key escaping raw (ch # r) =
     (if \<not> escaping \<and> ch = CHR 0x22 then UnescapeJson raw
      else if \<not> escaping \<and> ch = CHR 0x5C then scan_string key True (raw @ [ch]) r
      else scan_string key False (raw @ [ch]) r)"

definition ParseJsonString :: "string \<Rightarrow> string \<Rightarrow> string result" where
  "ParseJsonString json key = bindR (FindJsonValueStart json key) (\<lambda>value.
     if hd value \<noteq> CHR 0x22 then Err (ConfigError (''snapshot.meta: '' @ key))
     else scan_string key False [] (tl value))"

definition ParseJsonUnsigned :: "string \<Rightarrow> string \<Rightarrow> nat result" where
  "ParseJsonUnsigned json key = bindR (FindJsonValueStart json key) (\<lambda>value.
     let digits = takeWhile isdigit value in
     if digits = [] then Err (ConfigError (''snapshot.meta: '' @ key))
     else case stoull digits of
         None \<Rightarrow> Err (ConfigError (''snapshot.meta: '' @ key))
       | Some n \<Rightarrow> Ok n)"

section \<open>Files\<close>

definition WriteTextFileAtomically :: "path \<Rightarrow> string \<Rightarrow> (os, unit) prog" where
  "WriteTextFileAtomically final_path text =
     (let tmp_path = final_path @ ''.tmp'' in
      andThen (sys_mkdirs (parent_path final_path)) (\<lambda>_.
      andThen (sys_open True True tmp_path) (\<lambda>_ s.
        case sys_save tmp_path text s of
          (Err e, s) \<Rightarrow> (Err e, snd (sys_remove tmp_path s))
        | (Ok _, s) \<Rightarrow> (case sys_rename tmp_path final_path s of
            (Err e, s) \<Rightarrow> (Err e, snd (sys_remove tmp_path s))
          | (Ok _, s) \<Rightarrow> (Ok (), s)))))"

definition ReadTextFile :: "path \<Rightarrow> (os, string) prog" where
  "ReadTextFile p = stream_load p"

section \<open>The metadata\<close>

record SnapshotMeta =
  sm_raft_term :: nat
  sm_raft_index :: nat
  sm_dim :: u32
  sm_metric :: string
  sm_data_type :: string
  sm_created_at :: string

definition json_number :: "string \<Rightarrow> nat \<Rightarrow> string" where
  "json_number key n = ''  '' @ CHR 0x22 # key @ CHR 0x22 # '': '' @ dec n @ [CHR '','', CHR 0x0A]"

definition json_string :: "string \<Rightarrow> string \<Rightarrow> string \<Rightarrow> string" where
  "json_string key v ending =
     ''  '' @ CHR 0x22 # key @ CHR 0x22 # '': '' @ CHR 0x22 # EscapeJson v @ CHR 0x22 # ending"

definition meta_json :: "SnapshotMeta \<Rightarrow> string \<Rightarrow> string" where
  "meta_json m created =
     CHR ''{'' # CHR 0x0A #
     json_number ''raft_term'' (sm_raft_term m) @
     json_number ''raft_index'' (sm_raft_index m) @
     json_number ''dim'' (unat (sm_dim m)) @
     json_string ''metric'' (sm_metric m) [CHR '','', CHR 0x0A] @
     json_string ''data_type'' (sm_data_type m) [CHR '','', CHR 0x0A] @
     json_string ''created_at'' created [CHR 0x0A] @
     [CHR ''}'', CHR 0x0A]"

text \<open>\<open>now\<close> is what \<^verbatim>\<open>CurrentUtcIso8601()\<close> returns.\<close>

definition SnapshotMeta_SaveToFile :: "string \<Rightarrow> SnapshotMeta \<Rightarrow> path \<Rightarrow> (os, unit) prog" where
  "SnapshotMeta_SaveToFile now m p =
     (if sm_dim m = 0 then throw (ConfigError ''snapshot.meta dim'')
      else if sm_metric m = [] then throw (ConfigError ''snapshot.meta metric'')
      else if sm_data_type m = [] then throw (ConfigError ''snapshot.meta data_type'')
      else WriteTextFileAtomically p
        (meta_json m (if sm_created_at m = [] then now else sm_created_at m)))"

definition parse_meta :: "string \<Rightarrow> SnapshotMeta result" where
  "parse_meta text =
     bindR (ParseJsonUnsigned text ''raft_term'') (\<lambda>raft_term.
     bindR (ParseJsonUnsigned text ''raft_index'') (\<lambda>raft_index.
     bindR (ParseJsonUnsigned text ''dim'') (\<lambda>dim.
     bindR (ParseJsonString text ''metric'') (\<lambda>metric.
     bindR (ParseJsonString text ''data_type'') (\<lambda>data_type.
     bindR (ParseJsonString text ''created_at'') (\<lambda>created_at.
       Ok \<lparr>sm_raft_term = raft_term, sm_raft_index = raft_index, sm_dim = of_nat dim,
         sm_metric = ToLower metric, sm_data_type = ToLower data_type, sm_created_at = created_at\<rparr>))))))"

definition SnapshotMeta_LoadFromFile :: "path \<Rightarrow> (os, SnapshotMeta) prog" where
  "SnapshotMeta_LoadFromFile p = andThen (ReadTextFile p) (\<lambda>text s. (parse_meta text, s))"

definition ValidateAgainstConfig :: "SnapshotMeta \<Rightarrow> VectorConfig \<Rightarrow> unit result" where
  "ValidateAgainstConfig m cfg =
     (if sm_dim m \<noteq> vc_dim cfg then Err (ConfigError ''snapshot.meta dim mismatch'')
      else if ToLower (sm_metric m) \<noteq> ToLower (vc_metric cfg) then Err (ConfigError ''snapshot.meta metric mismatch'')
      else if ToLower (sm_data_type m) \<noteq> ToLower (vc_data_type cfg) then Err (ConfigError ''snapshot.meta data_type mismatch'')
      else Ok ())"

section \<open>The store\<close>

record SnapshotStore =
  ss_snapshot_dir :: path

definition SnapshotPath :: "SnapshotStore \<Rightarrow> path" where
  "SnapshotPath st = path_join (ss_snapshot_dir st) ''snapshot.usearch''"

definition SnapshotMetaPath :: "SnapshotStore \<Rightarrow> path" where
  "SnapshotMetaPath st = path_join (ss_snapshot_dir st) ''snapshot.meta''"

definition TemporarySnapshotPath :: "SnapshotStore \<Rightarrow> path" where
  "TemporarySnapshotPath st = path_join (ss_snapshot_dir st) ''snapshot.tmp''"

definition TemporaryMetaPath :: "SnapshotStore \<Rightarrow> path" where
  "TemporaryMetaPath st = path_join (ss_snapshot_dir st) ''snapshot.meta.tmp''"

fun remove_all :: "path list \<Rightarrow> (os, unit) prog" where
  "remove_all [] = ret ()"
| "remove_all (p # ps) = andThen (sys_remove p) (\<lambda>_. remove_all ps)"

definition CleanupTemporaryFiles :: "SnapshotStore \<Rightarrow> (os, unit) prog" where
  "CleanupTemporaryFiles st = (\<lambda>s.
     remove_all (filter (\<lambda>p. ends_with ''.tmp'' (path_filename p)) (dir_files s (ss_snapshot_dir st))) s)"

definition SnapshotStore_Initialize :: "SnapshotStore \<Rightarrow> (os, unit) prog" where
  "SnapshotStore_Initialize st = andThen (sys_mkdirs (ss_snapshot_dir st)) (\<lambda>_. CleanupTemporaryFiles st)"

definition FinalizeSnapshot :: "string \<Rightarrow> SnapshotStore \<Rightarrow> SnapshotMeta \<Rightarrow> (os, unit) prog" where
  "FinalizeSnapshot now st m = (\<lambda>s.
     if \<not> file_exists s (TemporarySnapshotPath st) then (Err (ConfigError ''snapshot.tmp missing''), s)
     else case SnapshotMeta_SaveToFile now m (TemporaryMetaPath st) s of
         (Err e, s) \<Rightarrow> (Err e, snd (sys_remove (TemporaryMetaPath st) s))
       | (Ok _, s) \<Rightarrow> (case sys_rename (TemporarySnapshotPath st) (SnapshotPath st) s of
           (Err e, s) \<Rightarrow> (Err e, snd (sys_remove (TemporaryMetaPath st)
              (snd (sys_remove (TemporarySnapshotPath st) s))))
         | (Ok _, s) \<Rightarrow> (case sys_rename (TemporaryMetaPath st) (SnapshotMetaPath st) s of
             (Err e, s) \<Rightarrow> (Err e, snd (sys_remove (TemporaryMetaPath st) s))
           | (Ok _, s) \<Rightarrow> (Ok (), s))))"

definition HasSnapshot :: "SnapshotStore \<Rightarrow> os \<Rightarrow> bool" where
  "HasSnapshot st s = (file_exists s (SnapshotPath st) \<and> file_exists s (SnapshotMetaPath st))"

definition LoadLatest :: "SnapshotStore \<Rightarrow> VectorConfig \<Rightarrow> (os, SnapshotMeta) prog" where
  "LoadLatest st cfg = (\<lambda>s.
     if \<not> HasSnapshot st s then (Err (ConfigError ''no snapshot''), s)
     else andThen (SnapshotMeta_LoadFromFile (SnapshotMetaPath st)) (\<lambda>m s.
       case ValidateAgainstConfig m cfg of Err e \<Rightarrow> (Err e, s) | Ok _ \<Rightarrow> (Ok m, s)) s)"

section \<open>The metadata file reads back\<close>

lemma escape_char_cases:
  "escape_char ch = [ch] \<and> ch \<noteq> CHR 0x22 \<and> ch \<noteq> CHR 0x5C \<or>
   (\<exists>x. escape_char ch = [CHR 0x5C, x] \<and> UnescapeJson (CHR 0x5C # x # r) = bindR (UnescapeJson r) (\<lambda>v. Ok (ch # v)))"
  by (simp add: escape_char_def)

lemma Unescape_Escape [simp]: "UnescapeJson (EscapeJson v) = Ok v"
proof (induction v)
  case (Cons ch v)
  then show ?case using escape_char_cases [of ch "EscapeJson v"] by (auto simp: EscapeJson_def)
qed (simp add: EscapeJson_def)

lemma scan_escape [simp]:
  "scan_string key False raw (EscapeJson v @ CHR 0x22 # rest) = UnescapeJson (raw @ EscapeJson v)"
proof (induction v arbitrary: raw)
  case (Cons ch v)
  have "EscapeJson (ch # v) = escape_char ch @ EscapeJson v" by (simp add: EscapeJson_def)
  then show ?case using escape_char_cases [of ch "[]"] Cons by (auto simp del: UnescapeJson.simps)
qed (simp add: EscapeJson_def)

lemma digit_no_quote: "isdigit ch \<Longrightarrow> ch \<noteq> CHR 0x22"
  by (auto simp: isdigit_def code_def)

lemma find_after_dec [simp]: "find_after (CHR 0x22 # p) (dec n @ r) = find_after (CHR 0x22 # p) r"
proof -
  have "\<forall>ch \<in> set ds. isdigit ch \<Longrightarrow> find_after (CHR 0x22 # p) (ds @ r) = find_after (CHR 0x22 # p) r" for ds
    by (induction ds) (auto dest: digit_no_quote)
  then show ?thesis by simp
qed

lemma dropWhile_space_dec [simp]: "dropWhile isspace (dec n @ r) = dec n @ r"
proof -
  obtain ch cs where d: "dec n = ch # cs" by (cases "dec n") simp_all
  then have "isdigit ch" using dec_digits [of n] by simp
  then show ?thesis using isdigit_not_space by (simp add: d)
qed

lemma takeWhile_dec [simp]: "\<not> isdigit ch \<Longrightarrow> takeWhile isdigit (dec n @ ch # r) = dec n"
  using dec_digits [of n] by (subst takeWhile_append2) auto

lemma plain_words:
  "EscapeJson ''ip'' = ''ip''" "EscapeJson ''l2sq'' = ''l2sq''" "EscapeJson ''cos'' = ''cos''"
  "EscapeJson ''f32'' = ''f32''" "EscapeJson ''f16'' = ''f16''" "EscapeJson ''i8'' = ''i8''"
  by (simp_all add: EscapeJson_def escape_char_def)

lemma json_chars: "isspace CHR '' ''" "\<not> isspace CHR 0x22" "\<not> isdigit CHR '',''"
  by (simp_all add: isspace_def isdigit_def code_def)

lemmas json_parse = ParseJsonUnsigned_def ParseJsonString_def FindJsonValueStart_def json_chars stoull_dec Let_def

lemmas json_defs = meta_json_def json_number_def json_string_def

lemma parse_numbers:
  assumes "sm_raft_term m < 2 ^ 64" and "sm_raft_index m < 2 ^ 64"
  shows "ParseJsonUnsigned (meta_json m created) ''raft_term'' = Ok (sm_raft_term m)"
    and "ParseJsonUnsigned (meta_json m created) ''raft_index'' = Ok (sm_raft_index m)"
    and "ParseJsonUnsigned (meta_json m created) ''dim'' = Ok (unat (sm_dim m))"
proof -
  have "unat (sm_dim m) < 2 ^ 64" using unsigned_less [of "sm_dim m", where 'a = nat] by simp
  then show "ParseJsonUnsigned (meta_json m created) ''dim'' = Ok (unat (sm_dim m))"
    by (simp add: json_defs json_parse)
qed (use assms in \<open>simp_all add: json_defs json_parse\<close>)

lemma parse_strings:
  assumes "sm_metric m \<in> {''ip'', ''l2sq'', ''cos''}" and "sm_data_type m \<in> {''f32'', ''f16'', ''i8''}"
  shows "ParseJsonString (meta_json m created) ''metric'' = Ok (sm_metric m)"
    and "ParseJsonString (meta_json m created) ''data_type'' = Ok (sm_data_type m)"
    and "ParseJsonString (meta_json m created) ''created_at'' = Ok created"
proof -
  show "ParseJsonString (meta_json m created) ''metric'' = Ok (sm_metric m)"
    by (simp add: json_defs json_parse)
  show "ParseJsonString (meta_json m created) ''data_type'' = Ok (sm_data_type m)"
    using assms(1) by (elim insertE) (simp_all add: json_defs json_parse plain_words)
  show "ParseJsonString (meta_json m created) ''created_at'' = Ok created"
    using assms by (elim insertE) (simp_all add: json_defs json_parse plain_words)
qed

lemma metric_lower:
  "v \<in> {''ip'', ''l2sq'', ''cos''} \<Longrightarrow> ToLower v = v" "v \<in> {''f32'', ''f16'', ''i8''} \<Longrightarrow> ToLower v = v"
  by (auto simp: ToLower_def tolower_def code_def)

lemma parse_meta_json:
  assumes "sm_raft_term m < 2 ^ 64" and "sm_raft_index m < 2 ^ 64"
    and "sm_metric m \<in> {''ip'', ''l2sq'', ''cos''}" and "sm_data_type m \<in> {''f32'', ''f16'', ''i8''}"
  shows "parse_meta (meta_json m created) = Ok (m\<lparr>sm_created_at := created\<rparr>)"
  using parse_numbers [OF assms(1,2), of created] parse_strings [OF assms(3,4), of created]
    metric_lower(1) [OF assms(3)] metric_lower(2) [OF assms(4)]
  by (cases m) (simp add: parse_meta_def)

lemma WriteText_quiet:
  assumes "quiet s"
  shows "WriteTextFileAtomically p text s =
    (Ok (), del_file (p @ ''.tmp'') (put_file p text (put_file (p @ ''.tmp'') text s)))"
proof -
  let ?t = "p @ ''.tmp''"
  have "sys_rename ?t p (put_file ?t text s) = (Ok (), del_file ?t (put_file p text (put_file ?t text s)))"
    using sys_rename_quiet [of "put_file ?t text s" ?t p] assms by simp
  then show ?thesis using assms
    by (simp add: WriteTextFileAtomically_def Let_def andThen_def os_simps)
qed

text \<open>
  C28: the description of a snapshot reads back as it was written: term, index, dimension,
  metric and scalar type are recovered from the JSON text, and so is the creation time, whatever
  characters it has.
\<close>

theorem snapshot_meta_roundtrip:
  assumes "quiet s" and "sm_dim m \<noteq> 0" and "sm_raft_term m < 2 ^ 64" and "sm_raft_index m < 2 ^ 64"
    and "sm_metric m \<in> {''ip'', ''l2sq'', ''cos''}" and "sm_data_type m \<in> {''f32'', ''f16'', ''i8''}"
  shows "\<exists>s'. SnapshotMeta_SaveToFile now m p s = (Ok (), s') \<and> SnapshotMeta_LoadFromFile p s' =
    (Ok (m\<lparr>sm_created_at := (if sm_created_at m = [] then now else sm_created_at m)\<rparr>), s')"
proof -
  let ?j = "meta_json m (if sm_created_at m = [] then now else sm_created_at m)"
  let ?s = "del_file (p @ ''.tmp'') (put_file p ?j (put_file (p @ ''.tmp'') ?j s))"
  have "SnapshotMeta_SaveToFile now m p s = (Ok (), ?s)"
    using assms(2,5,6) WriteText_quiet [OF assms(1), of p ?j] by (auto simp: SnapshotMeta_SaveToFile_def)
  moreover have "stream_load p ?s = (Ok ?j, ?s)" using stream_quiet(2) [of ?s p] assms(1) by simp
  ultimately show ?thesis using parse_meta_json [OF assms(3-6)]
    by (simp add: SnapshotMeta_LoadFromFile_def ReadTextFile_def andThen_def)
qed

definition sample_meta :: SnapshotMeta where
  "sample_meta = \<lparr>sm_raft_term = 3, sm_raft_index = 120, sm_dim = 8, sm_metric = ''cos'',
     sm_data_type = ''f32'', sm_created_at = ''a''\<rparr>"

theorem snapshot_meta_roundtrip_witness:
  "\<exists>s'. SnapshotMeta_SaveToFile [] sample_meta ''snap/snapshot.meta'' \<lparr>os_files = [], os_io = []\<rparr> = (Ok (), s') \<and>
    SnapshotMeta_LoadFromFile ''snap/snapshot.meta'' s' = (Ok sample_meta, s')"
  using snapshot_meta_roundtrip [of "\<lparr>os_files = [], os_io = []\<rparr>" sample_meta "[]" "''snap/snapshot.meta''"]
  by (simp add: sample_meta_def)

section \<open>Committing a snapshot\<close>

lemma rename_outcome:
  assumes "a \<noteq> b"
  shows "case sys_rename a b s of
     (Err _, s') \<Rightarrow> (\<forall>p. same p s s')
   | (Ok _, s') \<Rightarrow> map_of (os_files s') b = map_of (os_files s) a \<and> map_of (os_files s') a = None \<and>
       (\<forall>p. p \<notin> {a, b} \<longrightarrow> same p s s')"
proof -
  obtain x s1 where x: "next_io s = (x, s1)" by fastforce
  then have f: "os_files s1 = os_files s" by simp
  show ?thesis using assms
    by (cases x) (auto simp: sys_rename_def sys_call_def x same_def f content_def file_exists_def put_file_def
        del_file_def delete_conv' update_conv' split: option.split)
qed

lemma save_outcome:
  "case sys_save p d s of
     (Err _, s') \<Rightarrow> (\<forall>q. q \<noteq> p \<longrightarrow> same q s s')
   | (Ok _, s') \<Rightarrow> map_of (os_files s') p = Some d \<and> (\<forall>q. q \<noteq> p \<longrightarrow> same q s s')"
proof -
  obtain x s1 where x: "next_io s = (x, s1)" by fastforce
  then have f: "os_files s1 = os_files s" by simp
  show ?thesis by (cases x) (auto simp: sys_save_def x same_def f put_file_def update_conv')
qed

lemma WriteText_outcome:
  "case WriteTextFileAtomically p text s of
     (Err _, s') \<Rightarrow> (\<forall>q. q \<noteq> p @ ''.tmp'' \<longrightarrow> same q s s')
   | (Ok _, s') \<Rightarrow> map_of (os_files s') p = Some text \<and> (\<forall>q. q \<notin> {p, p @ ''.tmp''} \<longrightarrow> same q s s')"
proof -
  let ?t = "p @ ''.tmp''"
  obtain r1 s1 where m: "sys_mkdirs (parent_path p) s = (r1, s1)" by fastforce
  obtain r2 s2 where opn: "sys_open True True ?t s1 = (r2, s2)" by fastforce
  obtain r3 s3 where w: "sys_save ?t text s2 = (r3, s3)" by fastforce
  obtain r4 s4 where n: "sys_rename ?t p s3 = (r4, s4)" by fastforce
  have s1: "same q s s1" for q using same_sys_ret(3) [of q s "parent_path p"] m by simp
  have s2: "same q s s2" if "q \<noteq> ?t" for q
    using same_trans [OF s1] same_sys_other(1) [OF that, of s1 True True] opn by simp
  have s3: "same q s s3" if "q \<noteq> ?t" for q
    using same_trans [OF s2 [OF that]] save_outcome [of ?t s2 "text"] that w by (cases r3) auto
  have rm: "same q s (snd (sys_remove ?t s'))" if "q \<noteq> ?t" "same q s s'" for q s'
    using same_trans [OF that(2)] same_sys_other(2) [OF that(1)] by simp
  show ?thesis
  proof (cases r1)
    case (Inl e1)
    then show ?thesis using s1 by (simp add: WriteTextFileAtomically_def Let_def andThen_def m)
  next
    case (Inr u1)
    show ?thesis
    proof (cases r2)
      case (Inl e2)
      then show ?thesis using s2 Inr by (simp add: WriteTextFileAtomically_def Let_def andThen_def m opn)
    next
      case (Inr u2)
      show ?thesis
      proof (cases r3)
        case (Inl e3)
        then show ?thesis using rm [OF _ s3] \<open>r1 = Ok u1\<close> Inr
          by (simp add: WriteTextFileAtomically_def Let_def andThen_def m opn w)
      next
        case ok3: (Inr u3)
        have t3: "map_of (os_files s3) ?t = Some text" using save_outcome [of ?t s2 "text"] w ok3 by simp
        have s4: "same q s s4" if "q \<notin> {p, ?t}" for q
          using rename_outcome [of ?t p s3] n that same_trans [OF s3, of q s4] by (cases r4) auto
        show ?thesis
        proof (cases r4)
          case (Inl e4)
          then have "same q s s4" if "q \<noteq> ?t" for q
            using rename_outcome [of ?t p s3] n same_trans [OF s3 [OF that]] by simp
          then show ?thesis using rm [of _ s4] \<open>r1 = Ok u1\<close> \<open>r2 = Ok u2\<close> ok3 Inl
            by (simp add: WriteTextFileAtomically_def Let_def andThen_def m opn w n)
        next
          case (Inr u4)
          then show ?thesis using rename_outcome [of ?t p s3] n t3 s4 \<open>r1 = Ok u1\<close> \<open>r2 = Ok u2\<close> ok3
            by (simp add: WriteTextFileAtomically_def Let_def andThen_def m opn w)
        qed
      qed
    qed
  qed
qed

lemma SaveToFile_outcome:
  "case SnapshotMeta_SaveToFile now m p s of
     (Err _, s') \<Rightarrow> (\<forall>q. q \<noteq> p @ ''.tmp'' \<longrightarrow> same q s s')
   | (Ok _, s') \<Rightarrow> map_of (os_files s') p = Some (meta_json m (if sm_created_at m = [] then now else sm_created_at m)) \<and>
       (\<forall>q. q \<notin> {p, p @ ''.tmp''} \<longrightarrow> same q s s')"
  using WriteText_outcome [of p s "meta_json m (if sm_created_at m = [] then now else sm_created_at m)"]
  by (simp add: SnapshotMeta_SaveToFile_def throw_def)

lemma path_join_eq: "path_join d a = path_join d b \<longleftrightarrow> a = b"
  by (simp add: path_join_def)

lemma path_join_append: "path_join d a @ b = path_join d (a @ b)"
  by (simp add: path_join_def)

lemmas store_paths = SnapshotPath_def SnapshotMetaPath_def TemporarySnapshotPath_def TemporaryMetaPath_def
  path_join_eq path_join_append

text \<open>
  C29: committing a snapshot, whatever system calls fail. On success the snapshot file is the
  file that was prepared and the metadata describe it, and no temporary file is left. On
  failure the metadata are the old ones; the snapshot file is the old one or the prepared one.
\<close>

theorem finalize_snapshot_outcome:
  "let file = (\<lambda>s p. map_of (os_files s) p);
       (r, s') = FinalizeSnapshot now st m s in
   case r of
     Ok _ \<Rightarrow> file s' (SnapshotPath st) = file s (TemporarySnapshotPath st) \<and>
       file s (TemporarySnapshotPath st) \<noteq> None \<and> file s' (TemporarySnapshotPath st) = None \<and>
       file s' (SnapshotMetaPath st) = Some (meta_json m (if sm_created_at m = [] then now else sm_created_at m)) \<and>
       file s' (TemporaryMetaPath st) = None
   | Err _ \<Rightarrow> file s' (SnapshotMetaPath st) = file s (SnapshotMetaPath st) \<and>
       file s' (SnapshotPath st) \<in> {file s (SnapshotPath st), file s (TemporarySnapshotPath st)}"
proof -
  let ?T = "TemporarySnapshotPath st" and ?S = "SnapshotPath st"
  let ?tm = "TemporaryMetaPath st" and ?M = "SnapshotMetaPath st"
  let ?j = "meta_json m (if sm_created_at m = [] then now else sm_created_at m)"
  have ne: "distinct [?T, ?S, ?tm, ?M, ?tm @ ''.tmp''] \<and> distinct [?M, ?tm, ?S, ?T]" by (simp add: store_paths)
  obtain r1 s1 where w: "SnapshotMeta_SaveToFile now m ?tm s = (r1, s1)" by fastforce
  obtain r2 s2 where n1: "sys_rename ?T ?S s1 = (r2, s2)" by fastforce
  obtain r3 s3 where n2: "sys_rename ?tm ?M s2 = (r3, s3)" by fastforce
  have out1: "same q s s1" if "q \<notin> {?tm, ?tm @ ''.tmp''}" for q
    using SaveToFile_outcome [of ?tm s m now] that unfolding w by (cases r1) simp_all
  have keep1: "same ?T s s1" "same ?S s s1" "same ?M s s1"
    by (rule out1; use ne in auto)+
  have j1: "map_of (os_files s1) ?tm = Some ?j" if "r1 = Ok u" for u
    using SaveToFile_outcome [of ?tm s m now] that unfolding w by simp
  have ren1: "case r2 of Err _ \<Rightarrow> (\<forall>q. same q s1 s2)
      | Ok _ \<Rightarrow> map_of (os_files s2) ?S = map_of (os_files s1) ?T \<and> map_of (os_files s2) ?T = None \<and>
          (\<forall>q. q \<notin> {?T, ?S} \<longrightarrow> same q s1 s2)"
    using rename_outcome [of ?T ?S s1] n1 ne by simp
  have ren2: "case r3 of Err _ \<Rightarrow> (\<forall>q. same q s2 s3)
      | Ok _ \<Rightarrow> map_of (os_files s3) ?M = map_of (os_files s2) ?tm \<and> map_of (os_files s3) ?tm = None \<and>
          (\<forall>q. q \<notin> {?tm, ?M} \<longrightarrow> same q s2 s3)"
    using rename_outcome [of ?tm ?M s2] n2 ne by simp
  have rm: "map_of (os_files (snd (sys_remove q s'))) p = map_of (os_files s') p" if "p \<noteq> q" for p q s'
    using same_sys_other(2) [OF that, of s'] by (simp add: same_def)
  note fin = FinalizeSnapshot_def w n1 n2 Let_def
  show ?thesis
  proof (cases "file_exists s ?T")
    case False
    then show ?thesis by (simp add: FinalizeSnapshot_def)
  next
    case True
    then have T: "map_of (os_files s) ?T \<noteq> None" by (simp add: file_exists_def)
    show ?thesis
    proof (cases r1)
      case (Inl e1)
      then show ?thesis using True keep1 ne rm by (simp add: fin same_def)
    next
      case ok1: (Inr u1)
      show ?thesis
      proof (cases r2)
        case (Inl e2)
        then show ?thesis using True ok1 keep1 ren1 ne rm by (simp add: fin same_def)
      next
        case ok2: (Inr u2)
        show ?thesis
          using True T ok1 ok2 keep1 ren1 ren2 j1 [OF ok1] ne rm by (cases r3) (simp_all add: fin same_def)
      qed
    qed
  qed
qed

end
