(* ===== verification/VectorIndex.thy ===== *)
theory VectorIndex
  imports LogEntry Config
begin

text \<open>
  \<^verbatim>\<open>include/vector/vector_index.hpp\<close> and \<^verbatim>\<open>src/vector/vector_index.cpp\<close>: the vector index, a
  wrapper around the vendored USearch library. The library is a parameter (\<open>engine\<close>) with the
  calls the wrapper makes; \<open>engine_writes_ok\<close> and \<open>engine_saves_ok\<close> state what its documentation promises of them, for a
  view of the engine as a map from keys to vectors. Vectors are lists of the 32 bits of each
  \<^verbatim>\<open>float\<close>; a null pointer is \<open>None\<close>.
\<close>

section \<open>The engine\<close>

record index_config =
  xc_dim :: nat
  xc_metric :: nat
  xc_scalar :: nat
  xc_connectivity :: nat
  xc_connectivity_base :: nat
  xc_expansion_add :: nat
  xc_expansion_search :: nat

record snapshot_head =
  sh_dimensions :: nat
  sh_kind_metric :: nat
  sh_kind_scalar :: nat
  sh_count_present :: nat
  sh_count_deleted :: nat

record 'e engine =
  en_metric_from_name :: "string \<Rightarrow> nat option"
  en_scalar_kind_from_name :: "string \<Rightarrow> nat option"
  en_make :: "index_config \<Rightarrow> 'e result"
  en_try_reserve :: "nat \<Rightarrow> 'e \<Rightarrow> bool \<times> 'e"
  en_remove :: "nat \<Rightarrow> ('e, nat) prog"
  en_add :: "nat \<Rightarrow> float32 list \<Rightarrow> ('e, unit) prog"
  en_search :: "float32 list \<Rightarrow> nat \<Rightarrow> 'e \<Rightarrow> (nat \<times> float32) list result"
  en_size :: "'e \<Rightarrow> nat"
  en_copy :: "'e \<Rightarrow> 'e result"
  en_save :: "'e \<Rightarrow> string"
  en_head :: "string \<Rightarrow> snapshot_head result"
  en_load :: "string \<Rightarrow> 'e result"
  en_change_expansion :: "nat \<Rightarrow> nat \<Rightarrow> 'e \<Rightarrow> 'e"
  en_compact :: "('e, unit) prog"
  en_isolate :: "('e, unit) prog"

section \<open>The index\<close>

record 'e VectorIndex =
  vi_index :: 'e
  vi_deleted_count :: nat
  vi_config :: VectorConfig

definition ValidateCreateConfig :: "VectorConfig \<Rightarrow> unit result" where
  "ValidateCreateConfig cfg =
     (if vc_dim cfg = 0 then Err (ConfigError ''vector.dim'')
      else if vc_initial_capacity cfg = 0 then Err (ConfigError ''vector.initial_capacity'')
      else if vc_connectivity cfg < 2 then Err (ConfigError ''vector.connectivity'')
      else if vc_expansion_add cfg = 0 \<or> vc_expansion_search cfg = 0 then Err (ConfigError ''vector.expansion'')
      else Ok ())"

definition ValidateVectorArgument :: "float32 list option \<Rightarrow> nat \<Rightarrow> u32 \<Rightarrow> string \<Rightarrow> unit result" where
  "ValidateVectorArgument vec dims expected_dim operation =
     (if vec = None then Err (BadArgument (operation @ '' vector''))
      else if dims \<noteq> unat expected_dim then Err (BadArgument (operation @ '' dimension''))
      else Ok ())"

definition ParseMetric :: "'e engine \<Rightarrow> string \<Rightarrow> nat result" where
  "ParseMetric E v = (let normalized = ToLower v in
     case en_metric_from_name E normalized of
       None \<Rightarrow> Err (BadArgument (''vector.metric '' @ normalized)) | Some k \<Rightarrow> Ok k)"

definition ParseScalarKind :: "'e engine \<Rightarrow> string \<Rightarrow> nat result" where
  "ParseScalarKind E v = (let normalized = ToLower v in
     case en_scalar_kind_from_name E normalized of
       None \<Rightarrow> Err (BadArgument (''vector.data_type '' @ normalized)) | Some k \<Rightarrow> Ok k)"

definition normalized_config :: "VectorConfig \<Rightarrow> VectorConfig" where
  "normalized_config cfg = cfg\<lparr>vc_metric := ToLower (vc_metric cfg), vc_data_type := ToLower (vc_data_type cfg)\<rparr>"

definition VectorIndex_Create :: "'e engine \<Rightarrow> VectorConfig \<Rightarrow> 'e VectorIndex result" where
  "VectorIndex_Create E cfg =
     bindR (ValidateCreateConfig cfg) (\<lambda>_. let normalized = normalized_config cfg in
     bindR (ParseMetric E (vc_metric normalized)) (\<lambda>metric_kind.
     bindR (ParseScalarKind E (vc_data_type normalized)) (\<lambda>scalar_kind.
     bindR (en_make E \<lparr>xc_dim = unat (vc_dim normalized), xc_metric = metric_kind, xc_scalar = scalar_kind,
         xc_connectivity = unat (vc_connectivity normalized),
         xc_connectivity_base = unat (vc_connectivity normalized) * 2,
         xc_expansion_add = unat (vc_expansion_add normalized),
         xc_expansion_search = unat (vc_expansion_search normalized)\<rparr>) (\<lambda>index.
       case en_try_reserve E (unat (vc_initial_capacity normalized)) index of
         (False, _) \<Rightarrow> Err (EngineError ''reserve'')
       | (True, index) \<Rightarrow> Ok \<lparr>vi_index = index, vi_deleted_count = 0, vi_config = normalized\<rparr>))))"

text \<open>Loading reads the file at the path; \<open>None\<close> is a file that cannot be read.\<close>

definition VectorIndex_LoadFromSnapshot ::
    "'e engine \<Rightarrow> path \<Rightarrow> VectorConfig \<Rightarrow> os \<Rightarrow> 'e VectorIndex result" where
  "VectorIndex_LoadFromSnapshot E snapshot_path cfg s =
     bindR (ValidateCreateConfig cfg) (\<lambda>_. let normalized = normalized_config cfg in
     bindR (ParseMetric E (vc_metric normalized)) (\<lambda>metric_kind.
     bindR (ParseScalarKind E (vc_data_type normalized)) (\<lambda>scalar_kind.
     bindR (if file_exists s snapshot_path then en_head E (content s snapshot_path)
            else Err (OpenFailed snapshot_path)) (\<lambda>head.
       if sh_dimensions head \<noteq> unat (vc_dim normalized) then Err (BadArgument ''snapshot dimension'')
       else if sh_kind_metric head \<noteq> metric_kind then Err (BadArgument ''snapshot metric'')
       else if sh_kind_scalar head \<noteq> scalar_kind then Err (BadArgument ''snapshot data_type'')
       else bindR (en_load E (content s snapshot_path)) (\<lambda>index.
         let index = en_change_expansion E (unat (vc_expansion_add normalized))
               (unat (vc_expansion_search normalized)) index;
             total_slots = sh_count_present head + sh_count_deleted head;
             reserve_members = max (unat (vc_initial_capacity normalized)) total_slots
         in case en_try_reserve E reserve_members index of
              (False, _) \<Rightarrow> Err (EngineError ''reserve'')
            | (True, index) \<Rightarrow> Ok \<lparr>vi_index = index, vi_deleted_count = sh_count_deleted head,
                vi_config = normalized\<rparr>)))))"

definition VectorIndex_Upsert ::
    "'e engine \<Rightarrow> nat \<Rightarrow> float32 list option \<Rightarrow> nat \<Rightarrow> ('e VectorIndex, unit) prog" where
  "VectorIndex_Upsert E key vec dims = (\<lambda>vi.
     case ValidateVectorArgument vec dims (vc_dim (vi_config vi)) ''Upsert'' of
       Err e \<Rightarrow> (Err e, vi)
     | Ok _ \<Rightarrow> (case en_remove E key (vi_index vi) of
         (Err e, index) \<Rightarrow> (Err e, vi\<lparr>vi_index := index\<rparr>)
       | (Ok completed, index) \<Rightarrow>
           let deleted = vi_deleted_count vi + completed in
           (case en_add E key (the vec) index of
              (Err e, index) \<Rightarrow> (Err e, vi\<lparr>vi_index := index, vi_deleted_count := deleted\<rparr>)
            | (Ok _, index) \<Rightarrow> (Ok (), vi\<lparr>vi_index := index,
                vi_deleted_count := (if deleted > 0 then deleted - 1 else deleted)\<rparr>))))"

definition VectorIndex_Delete :: "'e engine \<Rightarrow> nat \<Rightarrow> ('e VectorIndex, unit) prog" where
  "VectorIndex_Delete E key = (\<lambda>vi. case en_remove E key (vi_index vi) of
       (Err e, index) \<Rightarrow> (Err e, vi\<lparr>vi_index := index\<rparr>)
     | (Ok completed, index) \<Rightarrow>
         (Ok (), vi\<lparr>vi_index := index, vi_deleted_count := vi_deleted_count vi + completed\<rparr>))"

definition VectorIndex_Search ::
    "'e engine \<Rightarrow> float32 list option \<Rightarrow> nat \<Rightarrow> nat \<Rightarrow> 'e VectorIndex \<Rightarrow> (nat \<times> float32) list result" where
  "VectorIndex_Search E vec dims top_k vi =
     (if top_k = 0 then Ok []
      else bindR (ValidateVectorArgument vec dims (vc_dim (vi_config vi)) ''Search'') (\<lambda>_.
        if en_size E (vi_index vi) = 0 then Ok []
        else en_search E (the vec) top_k (vi_index vi)))"

definition EnsureParentDirectory :: "path \<Rightarrow> (os, unit) prog" where
  "EnsureParentDirectory p = whenP (CHR ''/'' \<in> set p) (sys_mkdirs (parent_path p))"

definition VectorIndex_CloneUnderLock :: "'e engine \<Rightarrow> 'e VectorIndex \<Rightarrow> 'e result" where
  "VectorIndex_CloneUnderLock E vi = en_copy E (vi_index vi)"

definition VectorIndex_SaveSnapshot :: "'e engine \<Rightarrow> 'e VectorIndex \<Rightarrow> path \<Rightarrow> (os, unit) prog" where
  "VectorIndex_SaveSnapshot E vi tmp_path =
     andThen (EnsureParentDirectory tmp_path) (\<lambda>_.
       case VectorIndex_CloneUnderLock E vi of
         Err e \<Rightarrow> throw e
       | Ok clone \<Rightarrow> andThen (ignoring (sys_remove tmp_path)) (\<lambda>_ s.
           case sys_save tmp_path (en_save E clone) s of
             (Err e, s) \<Rightarrow> (Err e, snd (sys_remove tmp_path s))
           | (Ok _, s) \<Rightarrow> (Ok (), s)))"

definition VectorIndex_Compact :: "'e engine \<Rightarrow> ('e VectorIndex, unit) prog" where
  "VectorIndex_Compact E = (\<lambda>vi. case en_compact E (vi_index vi) of
       (Err e, index) \<Rightarrow> (Err e, vi\<lparr>vi_index := index\<rparr>)
     | (Ok _, index) \<Rightarrow> (Ok (), vi\<lparr>vi_index := index, vi_deleted_count := 0\<rparr>))"

definition VectorIndex_Isolate :: "'e engine \<Rightarrow> ('e VectorIndex, unit) prog" where
  "VectorIndex_Isolate E = (\<lambda>vi. case en_isolate E (vi_index vi) of
       (Err e, index) \<Rightarrow> (Err e, vi\<lparr>vi_index := index\<rparr>)
     | (Ok _, index) \<Rightarrow> (Ok (), vi\<lparr>vi_index := index\<rparr>))"

definition VectorIndex_Size :: "'e engine \<Rightarrow> 'e VectorIndex \<Rightarrow> nat" where
  "VectorIndex_Size E vi = en_size E (vi_index vi)"

definition VectorIndex_DeletedCount :: "'e VectorIndex \<Rightarrow> nat" where
  "VectorIndex_DeletedCount vi = vi_deleted_count vi"

definition VectorIndex_TotalSlots :: "'e engine \<Rightarrow> 'e VectorIndex \<Rightarrow> nat" where
  "VectorIndex_TotalSlots E vi = en_size E (vi_index vi) + vi_deleted_count vi"

section \<open>What the engine promises\<close>

text \<open>
  \<open>view\<close> is the content of an engine, \<open>kind\<close> the dimension, metric and scalar type it was made
  for. A failed call changes no vector. A saved index has the header of its kind and loads with
  the same content.
\<close>

type_synonym vectors = "nat \<Rightarrow> float32 list option"

definition keeps :: "('e \<Rightarrow> vectors) \<Rightarrow> ('e \<Rightarrow> nat \<times> nat \<times> nat) \<Rightarrow> 'e \<Rightarrow> 'e \<Rightarrow> bool" where
  "keeps view kind e e' \<longleftrightarrow> view e' = view e \<and> kind e' = kind e"

definition engine_writes_ok :: "'e engine \<Rightarrow> ('e \<Rightarrow> vectors) \<Rightarrow> ('e \<Rightarrow> nat \<times> nat \<times> nat) \<Rightarrow> bool" where
  "engine_writes_ok E view kind \<longleftrightarrow>
     (\<forall>k e. case en_remove E k e of
        (Err _, e') \<Rightarrow> keeps view kind e e'
      | (Ok n, e') \<Rightarrow> n = (if view e k = None then 0 else 1) \<and> view e' = (view e)(k := None) \<and> kind e' = kind e) \<and>
     (\<forall>k v e. case en_add E k v e of
        (Err _, e') \<Rightarrow> keeps view kind e e'
      | (Ok _, e') \<Rightarrow> view e' = (view e)(k \<mapsto> v) \<and> kind e' = kind e) \<and>
     (\<forall>e. keeps view kind e (snd (en_compact E e))) \<and> (\<forall>e. keeps view kind e (snd (en_isolate E e)))"

definition engine_saves_ok :: "'e engine \<Rightarrow> ('e \<Rightarrow> vectors) \<Rightarrow> ('e \<Rightarrow> nat \<times> nat \<times> nat) \<Rightarrow> bool" where
  "engine_saves_ok E view kind \<longleftrightarrow>
     (\<forall>e e'. en_copy E e = Ok e' \<longrightarrow> keeps view kind e e') \<and>
     (\<forall>e. \<exists>h e'. en_head E (en_save E e) = Ok h \<and>
        (sh_dimensions h, sh_kind_metric h, sh_kind_scalar h) = kind e \<and>
        en_load E (en_save E e) = Ok e' \<and> keeps view kind e e') \<and>
     (\<forall>a s e. keeps view kind e (en_change_expansion E a s e)) \<and>
     (\<forall>n e. fst (en_try_reserve E n e) \<and> keeps view kind e (snd (en_try_reserve E n e)))"

text \<open>An index of a configuration: the engine has the kind the configuration names.\<close>

definition index_ok :: "'e engine \<Rightarrow> ('e \<Rightarrow> nat \<times> nat \<times> nat) \<Rightarrow> VectorConfig \<Rightarrow> 'e VectorIndex \<Rightarrow> bool" where
  "index_ok E kind cfg vi \<longleftrightarrow> ValidateCreateConfig cfg = Ok () \<and> vi_config vi = normalized_config cfg \<and>
     (\<exists>m s. ParseMetric E (vc_metric cfg) = Ok m \<and> ParseScalarKind E (vc_data_type cfg) = Ok s \<and>
        kind (vi_index vi) = (unat (vc_dim cfg), m, s))"

lemma normalized_parse:
  "ParseMetric E (vc_metric (normalized_config cfg)) = ParseMetric E (vc_metric cfg)"
  "ParseScalarKind E (vc_data_type (normalized_config cfg)) = ParseScalarKind E (vc_data_type cfg)"
  by (simp_all add: ParseMetric_def ParseScalarKind_def normalized_config_def)

section \<open>Writes\<close>

text \<open>The commands a log carries, on the abstract content.\<close>

datatype vector_write = Put nat "float32 list" | Del nat

fun write_key :: "vector_write \<Rightarrow> nat" where
  "write_key (Put k v) = k"
| "write_key (Del k) = k"

fun apply_write :: "vector_write \<Rightarrow> vectors \<Rightarrow> vectors" where
  "apply_write (Put k v) m = m(k \<mapsto> v)"
| "apply_write (Del k) m = m(k := None)"

fun run_write :: "'e engine \<Rightarrow> vector_write \<Rightarrow> ('e VectorIndex, unit) prog" where
  "run_write E (Put k v) = VectorIndex_Upsert E k (Some v) (length v)"
| "run_write E (Del k) = VectorIndex_Delete E k"

lemma Upsert_cases:
  assumes "engine_writes_ok E view kind" and "VectorIndex_Upsert E k (Some v) d vi = (r, vi')"
  shows "(case r of
      Ok _ \<Rightarrow> view (vi_index vi') = (view (vi_index vi))(k \<mapsto> v)
    | Err _ \<Rightarrow> view (vi_index vi') \<in> {view (vi_index vi), (view (vi_index vi))(k := None)}) \<and>
    kind (vi_index vi') = kind (vi_index vi) \<and> vi_config vi' = vi_config vi"
proof -
  obtain rr e1 where rem: "en_remove E k (vi_index vi) = (rr, e1)" by fastforce
  obtain ra e2 where add: "en_add E k v e1 = (ra, e2)" by fastforce
  have R: "case rr of Err _ \<Rightarrow> keeps view kind (vi_index vi) e1
      | Ok n \<Rightarrow> view e1 = (view (vi_index vi))(k := None) \<and> kind e1 = kind (vi_index vi)"
    using assms(1) rem unfolding engine_writes_ok_def by (cases rr) (metis (no_types, lifting) case_prod_conv sum.simps(5,6))+
  have A: "case ra of Err _ \<Rightarrow> keeps view kind e1 e2
      | Ok _ \<Rightarrow> view e2 = (view e1)(k \<mapsto> v) \<and> kind e2 = kind e1"
    using assms(1) add unfolding engine_writes_ok_def by (cases ra) (metis (no_types, lifting) case_prod_conv sum.simps(5,6))+
  show ?thesis
  proof (cases "ValidateVectorArgument (Some v) d (vc_dim (vi_config vi)) ''Upsert''")
    case (Inl e)
    then have "r = Err e" "vi' = vi" using assms(2) by (simp_all add: VectorIndex_Upsert_def)
    then show ?thesis by simp
  next
    case (Inr u)
    then have run: "(r, vi') = (case rr of
        Err e \<Rightarrow> (Err e, vi\<lparr>vi_index := e1\<rparr>)
      | Ok n \<Rightarrow> (case ra of
          Err e \<Rightarrow> (Err e, vi\<lparr>vi_index := e2, vi_deleted_count := vi_deleted_count vi + n\<rparr>)
        | Ok _ \<Rightarrow> (Ok (), vi\<lparr>vi_index := e2, vi_deleted_count := (if vi_deleted_count vi + n > 0
            then vi_deleted_count vi + n - 1 else vi_deleted_count vi + n)\<rparr>)))"
      unfolding assms(2) [symmetric] by (simp add: VectorIndex_Upsert_def rem add Let_def split: sum.split)
    show ?thesis using R A run by (cases rr; cases ra) (simp_all add: keeps_def)
  qed
qed

lemma Delete_cases:
  assumes "engine_writes_ok E view kind" and "VectorIndex_Delete E k vi = (r, vi')"
  shows "(case r of
      Ok _ \<Rightarrow> view (vi_index vi') = (view (vi_index vi))(k := None)
    | Err _ \<Rightarrow> view (vi_index vi') = view (vi_index vi)) \<and>
    kind (vi_index vi') = kind (vi_index vi) \<and> vi_config vi' = vi_config vi"
proof -
  obtain rr e1 where rem: "en_remove E k (vi_index vi) = (rr, e1)" by fastforce
  have R: "case rr of Err _ \<Rightarrow> keeps view kind (vi_index vi) e1
      | Ok n \<Rightarrow> view e1 = (view (vi_index vi))(k := None) \<and> kind e1 = kind (vi_index vi)"
    using assms(1) rem unfolding engine_writes_ok_def by (cases rr) (metis (no_types, lifting) case_prod_conv sum.simps(5,6))+
  then show ?thesis using assms(2) by (cases rr) (auto simp: VectorIndex_Delete_def rem keeps_def)
qed


section \<open>Snapshots\<close>


section \<open>A small engine\<close>

text \<open>
  An engine with one slot, for key 0 and for vectors of two components below 256, so that every
  hypothesis on engines is met by an executable instance.
\<close>

definition slot_vector :: "string \<Rightarrow> float32 list" where
  "slot_vector b = map (\<lambda>ch. of_nat (code ch)) b"

definition slot_view :: "string option \<Rightarrow> vectors" where
  "slot_view e = (case e of None \<Rightarrow> Map.empty | Some b \<Rightarrow> [0 \<mapsto> slot_vector b])"

definition slot_kind :: "string option \<Rightarrow> nat \<times> nat \<times> nat" where
  "slot_kind e = (2, 1, 1)"

definition slot_engine :: "string option engine" where
  "slot_engine = \<lparr>en_metric_from_name = (\<lambda>n. if n = ''ip'' then Some 1 else None),
     en_scalar_kind_from_name = (\<lambda>n. if n = ''f32'' then Some 1 else None),
     en_make = (\<lambda>_. Ok None),
     en_try_reserve = (\<lambda>_ e. (True, e)),
     en_remove = (\<lambda>k e. if k = 0 then (Ok (if e = None then 0 else 1), None) else (Ok 0, e)),
     en_add = (\<lambda>k v e. let b = map (\<lambda>x. char_of (unat x)) v in
        if k = 0 \<and> e = None \<and> slot_vector b = v then (Ok (), Some b) else (Err (EngineError ''full''), e)),
     en_search = (\<lambda>_ _ e. Ok (if e = None then [] else [(0, 0)])),
     en_size = (\<lambda>e. if e = None then 0 else 1),
     en_copy = Ok,
     en_save = (\<lambda>e. case e of None \<Rightarrow> [] | Some b \<Rightarrow> CHR ''v'' # b),
     en_head = (\<lambda>b. Ok \<lparr>sh_dimensions = 2, sh_kind_metric = 1, sh_kind_scalar = 1,
        sh_count_present = (if b = [] then 0 else 1), sh_count_deleted = 0\<rparr>),
     en_load = (\<lambda>b. Ok (case b of [] \<Rightarrow> None | _ # v \<Rightarrow> Some v)),
     en_change_expansion = (\<lambda>_ _ e. e),
     en_compact = (\<lambda>e. (Ok (), e)), en_isolate = (\<lambda>e. (Ok (), e))\<rparr>"

lemma slot_engine_ok:
  "engine_writes_ok slot_engine slot_view slot_kind" "engine_saves_ok slot_engine slot_view slot_kind"
  by (auto simp: engine_writes_ok_def engine_saves_ok_def slot_engine_def slot_view_def slot_kind_def keeps_def
      Let_def fun_eq_iff split: option.split)

definition slot_config :: VectorConfig where
  "slot_config = default_VectorConfig\<lparr>vc_dim := 2\<rparr>"

definition slot_index :: "string option VectorIndex" where
  "slot_index = \<lparr>vi_index = None, vi_deleted_count = 0, vi_config = slot_config\<rparr>"



end
