(* ===== verification/IndexMaintenance.thy ===== *)
theory IndexMaintenance
  imports VectorIndex Lease
begin

text \<open>
  \<^verbatim>\<open>src/vector/index_maintenance.cpp\<close>: when the index is compacted or isolated, and the worker
  that does it. The worker runs in its own thread; \<open>worker_steps\<close> runs it to its end. Ratios of
  slot counts are exact rational numbers, compared with the \<^verbatim>\<open>float\<close> thresholds.
\<close>

datatype MaintenanceState = kIdle | kIsolating | kCompacting

record IndexMaintenance =
  im_state :: MaintenanceState
  im_compact_runs :: nat
  im_isolate_runs :: nat
  im_last_compact_time :: time
  im_config :: IndexMaintenanceConfig

definition IndexMaintenance_new :: "IndexMaintenanceConfig \<Rightarrow> time \<Rightarrow> IndexMaintenance" where
  "IndexMaintenance_new cfg now = \<lparr>im_state = kIdle, im_compact_runs = 0, im_isolate_runs = 0,
     im_last_compact_time = now, im_config = cfg\<rparr>"

definition SafeRatio :: "nat \<Rightarrow> nat \<Rightarrow> rat" where
  "SafeRatio numerator denominator = (if denominator = 0 then 0 else of_nat numerator / of_nat denominator)"

text \<open>The state \<^verbatim>\<open>Check\<close> moves to; the worker is started when it is not idle.\<close>

definition IndexMaintenance_Check :: "'e engine \<Rightarrow> 'e VectorIndex \<Rightarrow> time \<Rightarrow> IndexMaintenance \<Rightarrow> IndexMaintenance" where
  "IndexMaintenance_Check E index now im =
     (let total_slots = VectorIndex_TotalSlots E index; size = VectorIndex_Size E index;
          delete_ratio = SafeRatio (VectorIndex_DeletedCount index) total_slots;
          fragmentation_ratio = SafeRatio (total_slots - size) total_slots;
          cfg = im_config im in
      if im_state im \<noteq> kIdle then im
      else let compact_overdue = (ic_compact_max_interval_s cfg = 0 \<or>
                 now - im_last_compact_time im \<ge> unat (ic_compact_max_interval_s cfg) * 1000) in
        if float_less (ic_compact_delete_ratio_threshold cfg) (Fin delete_ratio) \<or> compact_overdue
        then im\<lparr>im_state := kCompacting\<rparr>
        else if float_less (ic_isolate_fragmentation_threshold cfg) (Fin fragmentation_ratio)
        then im\<lparr>im_state := kIsolating\<rparr>
        else im)"

definition RunCompact :: "'e engine \<Rightarrow> time \<Rightarrow> 'e VectorIndex \<times> IndexMaintenance \<Rightarrow> 'e VectorIndex \<times> IndexMaintenance" where
  "RunCompact E now = (\<lambda>(index, im). case VectorIndex_Compact E index of (compacted, index) \<Rightarrow>
     (index, im\<lparr>im_compact_runs := im_compact_runs im + 1,
        im_last_compact_time := (case compacted of Ok _ \<Rightarrow> now | Err _ \<Rightarrow> im_last_compact_time im),
        im_state := kIdle\<rparr>))"

definition RunIsolate :: "'e engine \<Rightarrow> time \<Rightarrow> 'e VectorIndex \<times> IndexMaintenance \<Rightarrow> 'e VectorIndex \<times> IndexMaintenance" where
  "RunIsolate E now = (\<lambda>(index, im). case VectorIndex_Isolate E index of
       (Err _, index) \<Rightarrow> (index, im\<lparr>im_isolate_runs := im_isolate_runs im + 1, im_state := kIdle\<rparr>)
     | (Ok _, index) \<Rightarrow> RunCompact E now
         (index, im\<lparr>im_isolate_runs := im_isolate_runs im + 1, im_state := kCompacting\<rparr>))"

definition worker_steps :: "'e engine \<Rightarrow> time \<Rightarrow> 'e VectorIndex \<times> IndexMaintenance \<Rightarrow> 'e VectorIndex \<times> IndexMaintenance" where
  "worker_steps E now = (\<lambda>(index, im). case im_state im of
       kIdle \<Rightarrow> (index, im)
     | kCompacting \<Rightarrow> RunCompact E now (index, im)
     | kIsolating \<Rightarrow> RunIsolate E now (index, im))"

text \<open>The engine's maintenance keeps its vectors.\<close>

definition engine_maintains_ok :: "'e engine \<Rightarrow> ('e \<Rightarrow> vectors) \<Rightarrow> bool" where
  "engine_maintains_ok E view \<longleftrightarrow>
     (\<forall>e. view (snd (en_compact E e)) = view e) \<and> (\<forall>e. view (snd (en_isolate E e)) = view e)"

lemma SafeRatio_0 [simp]: "SafeRatio 0 d = 0"
  by (simp add: SafeRatio_def)

lemma valid_thresholds:
  assumes "ValidateIndexMaintenanceConfig cfg = Ok ()"
  shows "\<not> float_less (ic_compact_delete_ratio_threshold cfg) (Fin 0)"
    and "\<not> float_less (ic_isolate_fragmentation_threshold cfg) (Fin 0)"
    and "0 < unat (ic_compact_max_interval_s cfg)"
  using assms by (auto simp: ValidateIndexMaintenanceConfig_def unat_gt_0 split: if_splits)

lemma Check_config [simp]: "im_config (IndexMaintenance_Check E index now im) = im_config im"
  by (simp add: IndexMaintenance_Check_def Let_def)

lemma RunCompact_keeps:
  assumes "engine_maintains_ok E view" and "RunCompact E now (index, im) = (index', im')"
  shows "view (vi_index index') = view (vi_index index) \<and> im_state im' = kIdle \<and> im_config im' = im_config im"
proof -
  obtain r e where c: "en_compact E (vi_index index) = (r, e)" by (cases "en_compact E (vi_index index)")
  have "view e = view (vi_index index)"
    using assms(1) c unfolding engine_maintains_ok_def by (metis snd_conv)
  then show ?thesis
    using assms(2) by (auto simp: RunCompact_def VectorIndex_Compact_def c split: sum.splits)
qed

lemma RunIsolate_keeps:
  assumes E: "engine_maintains_ok E view" and "RunIsolate E now (index, im) = (index', im')"
  shows "view (vi_index index') = view (vi_index index) \<and> im_state im' = kIdle \<and> im_config im' = im_config im"
proof -
  obtain r e where c: "en_isolate E (vi_index index) = (r, e)" by (cases "en_isolate E (vi_index index)")
  have "view e = view (vi_index index)"
    using assms(1) c unfolding engine_maintains_ok_def by (metis snd_conv)
  then show ?thesis
    using assms(2) RunCompact_keeps [OF E]
    by (cases r) (auto simp: RunIsolate_def VectorIndex_Isolate_def c)
qed

lemma worker_keeps:
  assumes "engine_maintains_ok E view" and "worker_steps E now (index, im) = (index', im')"
  shows "view (vi_index index') = view (vi_index index) \<and> im_state im' = kIdle \<and> im_config im' = im_config im"
  using assms RunCompact_keeps [OF assms(1)] RunIsolate_keeps [OF assms(1)]
  by (cases "im_state im") (auto simp: worker_steps_def)

lemma compact_clears:
  assumes "RunCompact E now (index, im) = (index', im')" and "\<And>e. \<exists>e'. en_compact E e = (Ok (), e')"
  shows "vi_deleted_count index' = 0 \<and> im_last_compact_time im' = now"
proof -
  obtain e where "en_compact E (vi_index index) = (Ok (), e)" using assms(2) by blast
  then show ?thesis using assms(1) by (auto simp: RunCompact_def VectorIndex_Compact_def)
qed

lemma worker_clears:
  assumes "worker_steps E now (index, im) = (index', im')" and "im_state im \<noteq> kIdle"
    and C: "\<And>e. \<exists>e'. en_compact E e = (Ok (), e')" and I: "\<And>e. \<exists>e'. en_isolate E e = (Ok (), e')"
  shows "vi_deleted_count index' = 0 \<and> im_last_compact_time im' = now"
proof -
  obtain e where i: "en_isolate E (vi_index index) = (Ok (), e)" using I by blast
  then show ?thesis
    using assms(1,2) compact_clears [OF _ C]
    by (cases "im_state im") (auto simp: worker_steps_def RunIsolate_def VectorIndex_Isolate_def)
qed



end
