(* ===== verification/Log.thy ===== *)
theory Log
  imports LogEntry
begin

text \<open>
  The abstract log: a list of entries with contiguous indexes, its lookups, and the contract
  between the log's users (the Raft node) and its implementation (the write-ahead log) as the
  locale \<open>log_store\<close> over the record of the operations of \<^verbatim>\<open>class WAL\<close>.
\<close>

section \<open>Contiguous logs\<close>

definition contiguous :: "LogEntry list \<Rightarrow> bool" where
  "contiguous es \<longleftrightarrow> (\<exists>i. map le_index es = [i..<i + length es])"

lemma contiguous_Nil [simp]: "contiguous []"
  by (simp add: contiguous_def)

lemma contiguous_sorted:
  assumes "contiguous es"
  shows "sorted_wrt (<) (map le_index es)"
proof -
  obtain i where i: "map le_index es = [i..<i + length es]" using assms by (auto simp: contiguous_def)
  show ?thesis unfolding i by (rule sorted_wrt_upt)
qed

lemma contiguous_nth:
  assumes "contiguous es" and "k < length es"
  shows "le_index (es ! k) = le_index (hd es) + k"
proof -
  obtain i where i: "map le_index es = [i..<i + length es]" using assms by (auto simp: contiguous_def)
  have n: "le_index (es ! j) = i + j" if "j < length es" for j
    using arg_cong [OF i, of "\<lambda>xs. xs ! j"] that by simp
  have "hd es = es ! 0" using assms(2) by (cases es) auto
  then show ?thesis using n [of 0] n [OF assms(2)] assms(2) by (cases es) auto
qed

lemma contiguous_last:
  assumes "contiguous es" and "es \<noteq> []"
  shows "le_index (last es) = le_index (hd es) + length es - 1"
  using contiguous_nth [OF assms(1), of "length es - 1"] assms(2)
  by (cases es) (auto simp: last_conv_nth)

lemma contiguous_snoc:
  assumes "contiguous es" and "es \<noteq> [] \<Longrightarrow> le_index e = Suc (le_index (last es))"
  shows "contiguous (es @ [e])"
proof (cases "es = []")
  case True
  then show ?thesis by (auto simp: contiguous_def intro: exI [of _ "le_index e"])
next
  case False
  obtain i where i: "map le_index es = [i..<i + length es]" using assms(1) by (auto simp: contiguous_def)
  have "le_index (last es) = i + length es - 1"
  proof -
    have "le_index (last es) = last (map le_index es)" using False by (simp add: last_map)
    also have "\<dots> = i + length es - 1" unfolding i using False by (simp add: last_upt)
    finally show ?thesis .
  qed
  moreover have "0 < length es" using False by simp
  ultimately have "le_index e = i + length es" using assms(2) [OF False] by linarith
  then have "map le_index (es @ [e]) = [i..<i + length (es @ [e])]" using i by simp
  then show ?thesis unfolding contiguous_def by blast
qed

lemma contiguous_append:
  assumes "contiguous (es @ fs)"
  shows "contiguous es" and "contiguous fs"
proof -
  obtain i where i: "map le_index (es @ fs) = [i..<i + length (es @ fs)]"
    using assms by (auto simp: contiguous_def)
  have "map le_index es = take (length es) (map le_index (es @ fs))" by simp
  also have "\<dots> = [i..<i + length es]" unfolding i by (simp add: take_upt)
  finally show "contiguous es" unfolding contiguous_def by blast
  have "map le_index fs = drop (length es) (map le_index (es @ fs))" by simp
  also have "\<dots> = [i + length es..<(i + length es) + length fs]" unfolding i by (simp add: add.assoc)
  finally show "contiguous fs" unfolding contiguous_def by blast
qed

section \<open>Lookups\<close>

text \<open>The lookups of the abstract log.\<close>

definition log_read :: "LogEntry list \<Rightarrow> nat \<Rightarrow> LogEntry option" where
  "log_read es i = find (\<lambda>e. le_index e = i) es"

definition log_from :: "LogEntry list \<Rightarrow> nat \<Rightarrow> LogEntry list" where
  "log_from es i = filter (\<lambda>e. i \<le> le_index e) es"

lemma log_read_nth:
  assumes "contiguous es"
  shows "log_read es i =
    (if es \<noteq> [] \<and> le_index (hd es) \<le> i \<and> i \<le> le_index (last es)
     then Some (es ! (i - le_index (hd es))) else None)"
proof -
  have n: "k < length es \<Longrightarrow> le_index (es ! k) = le_index (hd es) + k" for k
    by (rule contiguous_nth [OF assms])
  show ?thesis
  proof (cases "es \<noteq> [] \<and> le_index (hd es) \<le> i \<and> i \<le> le_index (last es)")
    case True
    then have k: "i - le_index (hd es) < length es"
      using contiguous_last [OF assms] by (cases es) auto
    have "find (\<lambda>e. le_index e = i) es = Some (es ! (i - le_index (hd es)))"
      unfolding find_Some_iff
    proof (intro exI conjI allI impI)
      show "i - le_index (hd es) < length es" by (rule k)
      show "le_index (es ! (i - le_index (hd es))) = i" using n [OF k] True by simp
      show "le_index (es ! j) \<noteq> i" if "j < i - le_index (hd es)" for j
        using n [of j] that k by simp
    qed simp
    then show ?thesis using True by (simp add: log_read_def)
  next
    case False
    have "le_index e \<noteq> i" if "e \<in> set es" for e
    proof
      assume eq: "le_index e = i"
      from that obtain k where "k < length es" "es ! k = e" unfolding in_set_conv_nth by blast
      with eq have "le_index (hd es) \<le> i" "i \<le> le_index (last es)" "es \<noteq> []"
        using n [of k] contiguous_last [OF assms] by (cases "es = []"; auto)+
      then show False using False by simp
    qed
    then have "find (\<lambda>e. le_index e = i) es = None" by (simp add: find_None_iff)
    then show ?thesis using False by (auto simp: log_read_def)
  qed
qed

lemma log_read_append:
  "log_read (es @ fs) i = (case log_read es i of None \<Rightarrow> log_read fs i | Some e \<Rightarrow> Some e)"
  by (induction es) (auto simp: log_read_def)

lemma log_read_None: "log_read es i = None \<longleftrightarrow> (\<forall>e \<in> set es. le_index e \<noteq> i)"
  by (auto simp: log_read_def find_None_iff)

lemma log_read_Nil [simp]: "log_read [] i = None"
  by (simp add: log_read_def)

lemma log_read_single [simp]: "log_read [e] i = (if le_index e = i then Some e else None)"
  by (simp add: log_read_def)

lemma last_index_max:
  assumes "contiguous es" and "x \<in> set es"
  shows "le_index x \<le> le_index (last es)"
proof -
  have "es \<noteq> []" using assms(2) by auto
  then obtain fs z where es: "es = fs @ [z]" by (metis append_butlast_last_id)
  show ?thesis using contiguous_sorted [OF assms(1)] assms(2) by (auto simp: es sorted_wrt_append)
qed

text \<open>The index an entry must have to be appended to a log that starts at \<open>st\<close>.\<close>

definition follows :: "nat \<Rightarrow> LogEntry list \<Rightarrow> nat \<Rightarrow> bool" where
  "follows st es i \<longleftrightarrow> (if es = [] then st \<le> i else i = Suc (le_index (last es)))"

definition log_below :: "LogEntry list \<Rightarrow> nat \<Rightarrow> LogEntry list" where
  "log_below es i = filter (\<lambda>e. le_index e < i) es"

section \<open>The contract\<close>

record 'w log_ops =
  lo_Append :: "LogEntry \<Rightarrow> ('w, unit) prog"
  lo_Flush :: "('w, unit) prog"
  lo_Read :: "nat \<Rightarrow> ('w, LogEntry) prog"
  lo_ReadFrom :: "nat \<Rightarrow> nat \<Rightarrow> ('w, LogEntry list) prog"
  lo_TermAt :: "nat \<Rightarrow> ('w, nat) prog"
  lo_TruncateBefore :: "nat \<Rightarrow> ('w, unit) prog"
  lo_TruncateSuffix :: "nat \<Rightarrow> ('w, unit) prog"
  lo_LastIndex :: "'w \<Rightarrow> nat"

locale log_store =
  fixes ops :: "'w log_ops" and holds :: "'w \<Rightarrow> LogEntry list \<Rightarrow> bool" and start :: "'w \<Rightarrow> nat"
  assumes holds_contiguous: "holds w es \<Longrightarrow> contiguous es"
    and holds_entry_ok: "holds w es \<Longrightarrow> e \<in> set es \<Longrightarrow> entry_ok e"
    and start_low: "holds w es \<Longrightarrow> es \<noteq> [] \<Longrightarrow> start w \<le> le_index (hd es)"
    and last_index: "holds w es \<Longrightarrow> es \<noteq> [] \<Longrightarrow> lo_LastIndex ops w = le_index (last es)"
    and append: "holds w es \<Longrightarrow> entry_ok e \<Longrightarrow> follows (start w) es (le_index e) \<Longrightarrow>
      \<exists>w'. lo_Append ops e w = (Ok (), w') \<and> holds w' (es @ [e]) \<and>
        lo_LastIndex ops w' = le_index e \<and> start w' = start w"
    and append_gap: "holds w es \<Longrightarrow> es \<noteq> [] \<Longrightarrow> le_index e \<noteq> Suc (le_index (last es)) \<Longrightarrow>
      lo_Append ops e w = (Err IndexNotContiguous, w)"
    and flush: "holds w es \<Longrightarrow> lo_Flush ops w = (Ok (), w)"
    and read: "holds w es \<Longrightarrow> lo_Read ops i w =
      (case log_read es i of None \<Rightarrow> (Err (IndexNotFound i), w) | Some e \<Rightarrow> (Ok e, w))"
    and read_from: "holds w es \<Longrightarrow> lo_ReadFrom ops i n w =
      (if n = 0 \<or> es = [] \<or> i > le_index (last es) then (Ok [], w)
       else if i < le_index (hd es) then (Err (IndexNotFound i), w)
       else (Ok (take n (log_from es i)), w))"
    and term_at: "holds w es \<Longrightarrow> lo_TermAt ops i w =
      (if i = 0 then (Ok 0, w) else
       case log_read es i of None \<Rightarrow> (Err (IndexNotFound i), w) | Some e \<Rightarrow> (Ok (le_term e), w))"
    and truncate_suffix: "holds w es \<Longrightarrow> 0 < i \<Longrightarrow>
      \<exists>w'. lo_TruncateSuffix ops i w = (Ok (), w') \<and> holds w' (log_below es i) \<and>
        lo_LastIndex ops w' =
          (if es \<noteq> [] \<and> i \<le> lo_LastIndex ops w then i - 1 else lo_LastIndex ops w) \<and>
        start w' \<le> max (start w) i"
    and truncate_before: "holds w es \<Longrightarrow> i < 2 ^ 64 \<Longrightarrow>
      \<exists>w' k. lo_TruncateBefore ops i w = (Ok (), w') \<and> holds w' (drop k es) \<and>
        (\<forall>e \<in> set (take k es). le_index e < i) \<and>
        lo_LastIndex ops w' = (if drop k es = [] then 0 else lo_LastIndex ops w) \<and>
        (drop k es = [] \<longrightarrow> start w' \<le> Max {start w, i, Suc (lo_LastIndex ops w)})"

end
