(* ===== verification/RaftNode.thy ===== *)
theory RaftNode
  imports RaftMessages RaftMeta Lease Dedup SnapshotStore IndexMaintenance Log
begin

text \<open>
  \<^verbatim>\<open>include/raft/raft_node.hpp\<close> and the first half of \<^verbatim>\<open>src/raft/raft_node.cpp\<close>: the state of a
  node, its role changes, and the handlers of votes, heartbeats and log entries. A member
  function is a computation on the state of the node. A function that holds the state mutex is
  one step; the calls a function makes to other components are made in the order of the source.
  The log is reached through \<open>log_ops\<close>, the vector engine, the protobuf codec and the wall clock
  through the record \<open>services\<close>. One call reads the steady clock once (\<open>rn_now\<close>).
\<close>

section \<open>State\<close>

datatype RaftState = StFollower | StCandidate | StLeader

record PeerProgress =
  pp_peer_id :: string
  pp_next_index :: nat
  pp_match_index :: nat
  pp_in_flight :: nat
  pp_healthy :: bool
  pp_direct_mode :: bool
  pp_effective_window_size :: u32
  pp_last_ack_time :: time
  pp_last_send_time :: time
  pp_recover_deadline :: time
  pp_avg_ack_latency_ms :: rat
  pp_ack_samples :: nat
  pp_rollback_anchor_index :: nat
  pp_rollback_failures :: u32

definition default_PeerProgress :: PeerProgress where
  "default_PeerProgress = \<lparr>pp_peer_id = [], pp_next_index = 1, pp_match_index = 0, pp_in_flight = 0,
     pp_healthy = True, pp_direct_mode = False, pp_effective_window_size = 0, pp_last_ack_time = 0,
     pp_last_send_time = 0, pp_recover_deadline = 0, pp_avg_ack_latency_ms = 0, pp_ack_samples = 0,
     pp_rollback_anchor_index = 0, pp_rollback_failures = 0\<rparr>"

record ('w, 'e) services =
  sv_log :: "'w log_ops"
  sv_codec :: codec
  sv_engine :: "'e engine"
  sv_utc :: string

text \<open>
  The fields of the class, then what its threads and promises leave behind: the promises that
  were fulfilled, the requests handed to forwarding threads, the snapshot task that was
  launched, and the environment (clock, coming random draws, the directories of the metadata
  and of the snapshots).
\<close>

record ('w, 'e) node =
  rn_config :: Config
  rn_self_id :: string
  rn_self_addr :: string
  rn_state :: RaftState
  rn_current_term :: nat
  rn_commit_index :: nat
  rn_applied_index :: nat
  rn_voted_for :: string
  rn_leader_id :: string
  rn_election_deadline :: time
  rn_last_leader_contact :: time
  rn_last_topology_refresh :: time
  rn_last_index_maintenance_check :: time
  rn_last_snapshot_index :: nat
  rn_last_snapshot_term :: nat
  rn_snapshot_in_progress :: bool
  rn_flushed_index :: nat
  rn_peer_progress :: "(string \<times> PeerProgress) list"
  rn_replicate_requested :: bool
  rn_commit_listeners :: "string list"
  rn_heartbeat_requested :: bool
  rn_running :: bool
  rn_topology_refresh_requested :: bool
  rn_wal :: 'w
  rn_meta :: RaftMeta
  rn_topology :: TopologyManager
  rn_lease :: LeaseManager
  rn_vector_index :: "'e VectorIndex option"
  rn_index_maintenance :: IndexMaintenance
  rn_dedup :: DedupTable
  rn_notified :: "(string \<times> DedupEntry) list"
  rn_forwards :: "AppendEntriesRequest list"
  rn_snapshot_task :: "nat option"
  rn_now :: time
  rn_draws :: "nat list"
  rn_os :: os

type_synonym ('w, 'e, 'a) nprog = "(('w, 'e) node, 'a) prog"

definition onLog :: "('w, 'a) prog \<Rightarrow> ('w, 'e, 'a) nprog" where
  "onLog op n = (case op (rn_wal n) of (r, w) \<Rightarrow> (r, n\<lparr>rn_wal := w\<rparr>))"

definition onDisk :: "(os, 'a) prog \<Rightarrow> ('w, 'e, 'a) nprog" where
  "onDisk op n = (case op (rn_os n) of (r, s) \<Rightarrow> (r, n\<lparr>rn_os := s\<rparr>))"

definition onTopology :: "(TopologyManager \<Rightarrow> TopologyManager) \<Rightarrow> ('w, 'e) node \<Rightarrow> ('w, 'e) node" where
  "onTopology f n = n\<lparr>rn_topology := f (rn_topology n)\<rparr>"

abbreviation raft_cfg :: "('w, 'e) node \<Rightarrow> RaftConfig" where
  "raft_cfg n \<equiv> cfg_raft (rn_config n)"

abbreviation peers :: "('w, 'e) node \<Rightarrow> string list" where
  "peers n \<equiv> cc_peers (cfg_cluster (rn_config n))"

section \<open>Small helpers\<close>

definition SegmentSizeBytes :: "StorageConfig \<Rightarrow> nat" where
  "SegmentSizeBytes storage = unat (sc_wal_segment_size_mb storage) * 1024 * 1024"

text \<open>A draw from \<^verbatim>\<open>uniform_int_distribution(min, max)\<close>, taken from the coming raw draws.\<close>

definition RandomElectionTimeout :: "RaftConfig \<Rightarrow> nat list \<Rightarrow> nat \<times> nat list" where
  "RandomElectionTimeout raft draws =
     (let lo = unat (rc_election_timeout_min_ms raft); hi = unat (rc_election_timeout_max_ms raft) in
      case draws of [] \<Rightarrow> (lo, []) | x # xs \<Rightarrow> (lo + x mod (hi - lo + 1), xs))"

definition ExtractRequestId :: "codec \<Rightarrow> LogEntry \<Rightarrow> string result" where
  "ExtractRequestId c entry =
     (if le_type entry \<noteq> kNormal then Ok []
      else if le_cmd_type entry = kUpsert
        then bindR (UpsertCmd_Deserialize c (le_payload entry)) (\<lambda>cmd. Ok (uc_request_id cmd))
      else if le_cmd_type entry = kDelete
        then bindR (DeleteCmd_Deserialize c (le_payload entry)) (\<lambda>cmd. Ok (dc_request_id cmd))
      else Ok [])"

definition DedupSnapshotPath :: "StorageConfig \<Rightarrow> path" where
  "DedupSnapshotPath storage = path_join (sc_snapshot_dir storage) ''dedup.bin''"

definition TemporaryDedupSnapshotPath :: "StorageConfig \<Rightarrow> path" where
  "TemporaryDedupSnapshotPath storage = DedupSnapshotPath storage @ ''.tmp''"

fun float_words :: "string \<Rightarrow> float32 list" where
  "float_words (a # b # c # d # r) = DecodeUint32LE [a, b, c, d] # float_words r"
| "float_words _ = []"

definition ParseFloatVectorBytes :: "string \<Rightarrow> float32 list result" where
  "ParseFloatVectorBytes bytes =
     (if bytes = [] then Ok []
      else if length bytes mod 4 \<noteq> 0 then Err BadVectorBytes
      else Ok (float_words bytes))"

definition QuorumSize :: "('w, 'e) node \<Rightarrow> nat" where
  "QuorumSize n = (length (peers n) + 1) div 2 + 1"

definition MetaPath :: "('w, 'e) node \<Rightarrow> path" where
  "MetaPath n = path_join (sc_raft_log_dir (cfg_storage (rn_config n))) ''meta.bin''"

definition ResolvePeerAddress :: "string \<Rightarrow> ('w, 'e) node \<Rightarrow> string" where
  "ResolvePeerAddress peer_id n = (case Topology_GetNode peer_id (rn_topology n) of
     Some i \<Rightarrow> if ni_addr i \<noteq> [] then ni_addr i else peer_id | None \<Rightarrow> peer_id)"

definition IsLeader :: "('w, 'e) node \<Rightarrow> bool" where
  "IsLeader n = (rn_state n = StLeader)"

definition LeaderAddr :: "('w, 'e) node \<Rightarrow> string" where
  "LeaderAddr n =
     (if rn_leader_id n = [] then []
      else if rn_leader_id n = rn_self_id n
        then (if rn_self_addr n = [] then rn_self_id n else rn_self_addr n)
      else case Topology_GetNode (rn_leader_id n) (rn_topology n) of
          Some leader \<Rightarrow> if ni_addr leader \<noteq> [] then ni_addr leader else rn_leader_id n
        | None \<Rightarrow> rn_leader_id n)"

definition GetLeaderInfo :: "('w, 'e) node \<Rightarrow> LeaderInfo" where
  "GetLeaderInfo n = \<lparr>li_leader_id = rn_leader_id n, li_leader_addr = LeaderAddr n, li_term = rn_current_term n\<rparr>"

definition RequestReplication :: "('w, 'e) node \<Rightarrow> ('w, 'e) node" where
  "RequestReplication n = n\<lparr>rn_replicate_requested := True\<rparr>"

definition RequestImmediateHeartbeat :: "('w, 'e) node \<Rightarrow> ('w, 'e) node" where
  "RequestImmediateHeartbeat n = n\<lparr>rn_heartbeat_requested := True\<rparr>"

definition ResetElectionDeadlineLocked :: "('w, 'e) node \<Rightarrow> ('w, 'e) node" where
  "ResetElectionDeadlineLocked n = (case RandomElectionTimeout (raft_cfg n) (rn_draws n) of
     (timeout, draws) \<Rightarrow> n\<lparr>rn_last_leader_contact := rn_now n,
       rn_election_deadline := rn_now n + timeout, rn_draws := draws\<rparr>)"

definition NoteLeaderContactLocked :: "('w, 'e) node \<Rightarrow> ('w, 'e) node" where
  "NoteLeaderContactLocked n = ResetElectionDeadlineLocked n"

section \<open>The logical log\<close>

definition LogicalLastIndex :: "('w, 'e) services \<Rightarrow> ('w, 'e) node \<Rightarrow> nat" where
  "LogicalLastIndex S n = max (rn_last_snapshot_index n) (lo_LastIndex (sv_log S) (rn_wal n))"

definition TermAtLogicalIndex :: "('w, 'e) services \<Rightarrow> nat \<Rightarrow> ('w, 'e, nat) nprog" where
  "TermAtLogicalIndex S i = (\<lambda>n.
     if i = 0 then (Ok 0, n)
     else if rn_last_snapshot_index n > 0 \<and> i < rn_last_snapshot_index n
       then (Err (IndexTruncatedBySnapshot i), n)
     else if rn_last_snapshot_index n > 0 \<and> i = rn_last_snapshot_index n \<and> rn_last_snapshot_term n \<noteq> 0
       then (Ok (rn_last_snapshot_term n), n)
     else onLog (lo_TermAt (sv_log S) i) n)"

definition LastLogTermLocked :: "('w, 'e) services \<Rightarrow> ('w, 'e) node \<Rightarrow> nat \<times> ('w, 'e) node" where
  "LastLogTermLocked S n = (let last_index = LogicalLastIndex S n in
     if last_index = 0 then (0, n)
     else case TermAtLogicalIndex S last_index n of (Err _, n) \<Rightarrow> (0, n) | (Ok t, n) \<Rightarrow> (t, n))"

definition IsCandidateLogUpToDateLocked ::
    "('w, 'e) services \<Rightarrow> nat \<Rightarrow> nat \<Rightarrow> ('w, 'e) node \<Rightarrow> bool \<times> ('w, 'e) node" where
  "IsCandidateLogUpToDateLocked S candidate_last_log_index candidate_last_log_term n =
     (case LastLogTermLocked S n of (local_last_log_term, n) \<Rightarrow>
        let local_last_log_index = LogicalLastIndex S n in
        (if candidate_last_log_term \<noteq> local_last_log_term
         then candidate_last_log_term > local_last_log_term
         else candidate_last_log_index \<ge> local_last_log_index, n))"

section \<open>Role changes\<close>

definition PersistMetaLocked :: "('w, 'e) services \<Rightarrow> nat \<Rightarrow> string \<Rightarrow> ('w, 'e, unit) nprog" where
  "PersistMetaLocked S term voted_for = (\<lambda>n.
     let next_meta = \<lparr>rm_current_term = term, rm_voted_for = voted_for\<rparr> in
     case onDisk (RaftMeta_Save (sv_codec S) next_meta (MetaPath n)) n of
       (Err e, n) \<Rightarrow> (Err e, n)
     | (Ok _, n) \<Rightarrow> (Ok (), n\<lparr>rn_meta := next_meta\<rparr>))"

definition BecomeFollower :: "('w, 'e) services \<Rightarrow> nat \<Rightarrow> string \<Rightarrow> ('w, 'e, unit) nprog" where
  "BecomeFollower S term leader_id = (\<lambda>n.
     if term < rn_current_term n then (Err TermRollback, n)
     else andThen (PersistMetaLocked S term []) (\<lambda>_ n.
       (Ok (), (NoteLeaderContactLocked
          (onTopology (Topology_SetLeader leader_id [])
             (n\<lparr>rn_current_term := term, rn_voted_for := [], rn_leader_id := leader_id,
                rn_state := StFollower, rn_lease := Lease_Invalidate (rn_lease n)\<rparr>)))
          \<lparr>rn_peer_progress := []\<rparr>)) n)"

definition BecomeCandidate :: "('w, 'e) services \<Rightarrow> ('w, 'e, unit) nprog" where
  "BecomeCandidate S = (\<lambda>n.
     let next_term = rn_current_term n + 1 in
     andThen (PersistMetaLocked S next_term (rn_self_id n)) (\<lambda>_ n.
       (Ok (), (ResetElectionDeadlineLocked
          (n\<lparr>rn_current_term := next_term, rn_voted_for := rn_self_id n, rn_leader_id := [],
             rn_state := StCandidate, rn_lease := Lease_Invalidate (rn_lease n)\<rparr>))
          \<lparr>rn_peer_progress := []\<rparr>)) n)"

definition AppendEntryLocked :: "('w, 'e) services \<Rightarrow> LogEntry \<Rightarrow> ('w, 'e, nat) nprog" where
  "AppendEntryLocked S entry = (\<lambda>n.
     let nxt = entry\<lparr>le_index := LogicalLastIndex S n + 1, le_term := rn_current_term n\<rparr> in
     andThen (onLog (lo_Append (sv_log S) nxt)) (\<lambda>_.
     andThen (onLog (lo_Flush (sv_log S))) (\<lambda>_ n.
       (Ok (le_index nxt), n\<lparr>rn_flushed_index := le_index nxt\<rparr>))) n)"

definition AppendNoopEntryLocked :: "('w, 'e) services \<Rightarrow> ('w, 'e, nat) nprog" where
  "AppendNoopEntryLocked S = AppendEntryLocked S
     (default_LogEntry\<lparr>le_type := kNoop, le_cmd_type := kUpsert, le_payload := []\<rparr>)"

definition ResetPeerRollbackStateLocked :: "PeerProgress \<Rightarrow> PeerProgress" where
  "ResetPeerRollbackStateLocked p = p\<lparr>pp_rollback_anchor_index := 0, pp_rollback_failures := 0\<rparr>"

definition fresh_progress :: "('w, 'e) node \<Rightarrow> nat \<Rightarrow> string \<Rightarrow> PeerProgress" where
  "fresh_progress n next_index peer = ResetPeerRollbackStateLocked (default_PeerProgress\<lparr>pp_peer_id := peer,
     pp_next_index := next_index, pp_match_index := 0, pp_in_flight := 0, pp_healthy := True,
     pp_direct_mode := (Topology_GetRole peer (rn_topology n) = kFollower),
     pp_effective_window_size := rc_pipeline_window_size (raft_cfg n),
     pp_last_ack_time := rn_now n, pp_last_send_time := rn_now n, pp_recover_deadline := rn_now n\<rparr>)"

definition ResetPeerProgressLocked :: "nat \<Rightarrow> ('w, 'e) node \<Rightarrow> ('w, 'e) node" where
  "ResetPeerProgressLocked next_index n = n\<lparr>rn_peer_progress :=
     fold (\<lambda>peer. AList.update peer (fresh_progress n next_index peer))
       (filter (\<lambda>peer. peer \<noteq> [] \<and> peer \<noteq> rn_self_id n) (peers n)) []\<rparr>"

definition onRebalance :: "string list \<Rightarrow> ('w, 'e, unit) nprog" where
  "onRebalance healthy n = (case Topology_Rebalance healthy (rn_topology n) of
     (r, t) \<Rightarrow> (r, n\<lparr>rn_topology := t\<rparr>))"

definition claim_first_term :: "('w, 'e) services \<Rightarrow> ('w, 'e, unit) nprog" where
  "claim_first_term S = (\<lambda>n.
     if rn_current_term n = 0
     then andThen (PersistMetaLocked S 1 (rn_self_id n)) (\<lambda>_ n.
       (Ok (), n\<lparr>rn_current_term := 1, rn_voted_for := rn_self_id n\<rparr>)) n
     else (Ok (), n))"

definition BecomeLeader :: "('w, 'e) services \<Rightarrow> ('w, 'e, unit) nprog" where
  "BecomeLeader S =
     andThen (claim_first_term S) (\<lambda>_.
     andThen (modify (\<lambda>n. onTopology (Topology_SetLeader (rn_self_id n) (rn_self_addr n))
       (n\<lparr>rn_leader_id := rn_self_id n\<rparr>))) (\<lambda>_.
     andThen (\<lambda>n. onRebalance (peers n) n) (\<lambda>_.
     andThen (AppendNoopEntryLocked S) (\<lambda>noop_index n.
       (Ok (), RequestImmediateHeartbeat (RequestReplication
          ((ResetPeerProgressLocked (noop_index + 1) n)
             \<lparr>rn_state := StLeader, rn_lease := Lease_Invalidate (rn_lease n),
              rn_last_topology_refresh := rn_now n\<rparr>)))))))"

section \<open>Votes\<close>

text \<open>The part under the state lock.\<close>

definition cast_vote ::
    "('w, 'e) services \<Rightarrow> RequestVoteRequest \<Rightarrow> ('w, 'e, RequestVoteResponse) nprog" where
  "cast_vote S request = (\<lambda>n.
     let can_vote = (rn_voted_for n = [] \<or> rn_voted_for n = vq_candidate_id request) in
     case IsCandidateLogUpToDateLocked S (vq_last_log_index request) (vq_last_log_term request) n of
       (log_is_up_to_date, n) \<Rightarrow>
         if can_vote \<and> log_is_up_to_date
         then andThen (PersistMetaLocked S (vq_term request) (vq_candidate_id request)) (\<lambda>_ n.
           (Ok \<lparr>vs_term = rn_current_term n, vs_vote_granted = True\<rparr>,
            NoteLeaderContactLocked (n\<lparr>rn_voted_for := vq_candidate_id request, rn_state := StFollower\<rparr>))) n
         else (Ok \<lparr>vs_term = rn_current_term n, vs_vote_granted = False\<rparr>, n))"

definition HandleRequestVote ::
    "('w, 'e) services \<Rightarrow> RequestVoteRequest \<Rightarrow> ('w, 'e, RequestVoteResponse) nprog" where
  "HandleRequestVote S request = (\<lambda>n.
     if vq_term request < rn_current_term n
     then (Ok \<lparr>vs_term = rn_current_term n, vs_vote_granted = False\<rparr>, n)
     else andThen (whenP (vq_term request > rn_current_term n) (BecomeFollower S (vq_term request) []))
       (\<lambda>_. cast_vote S request) n)"

section \<open>Heartbeats\<close>

definition accept_leader :: "('w, 'e) services \<Rightarrow> nat \<Rightarrow> string \<Rightarrow> ('w, 'e, unit) nprog" where
  "accept_leader S term leader_id = (\<lambda>n.
     if term > rn_current_term n \<or> rn_state n \<noteq> StFollower
     then BecomeFollower S term leader_id n
     else (Ok (), NoteLeaderContactLocked
       (onTopology (Topology_SetLeader leader_id []) (n\<lparr>rn_leader_id := leader_id\<rparr>))))"

definition accept_topology :: "TopologyInfo \<Rightarrow> ('w, 'e, unit) nprog" where
  "accept_topology info = (\<lambda>n.
     if ti_role info = [] then (Ok (), n)
     else case Topology_FromProto (rn_self_id n) info (rn_self_addr n) (rn_topology n) of
       (r, t) \<Rightarrow> (r, n\<lparr>rn_topology := t\<rparr>))"

definition advance_commit :: "('w, 'e) services \<Rightarrow> nat \<Rightarrow> ('w, 'e) node \<Rightarrow> ('w, 'e) node" where
  "advance_commit S leader_commit n =
     (let bounded_commit = min leader_commit (LogicalLastIndex S n) in
      if bounded_commit > rn_commit_index n then n\<lparr>rn_commit_index := bounded_commit\<rparr> else n)"

definition self_name :: "('w, 'e) node \<Rightarrow> string" where
  "self_name n = (if rn_self_addr n = [] then rn_self_id n else rn_self_addr n)"

definition HandleHeartbeat ::
    "('w, 'e) services \<Rightarrow> HeartbeatRequest \<Rightarrow> ('w, 'e, HeartbeatResponse) nprog" where
  "HandleHeartbeat S request = (\<lambda>n.
     if hr_term request < rn_current_term n
     then (Ok \<lparr>hs_term = rn_current_term n, hs_success = False, hs_node_id = self_name n\<rparr>, n)
     else andThen (accept_leader S (hr_term request) (hr_leader_id request)) (\<lambda>_.
       andThen (accept_topology (hr_topology request)) (\<lambda>_ n.
         let n = advance_commit S (hr_commit_index request) n in
         (Ok \<lparr>hs_term = rn_current_term n, hs_success = True, hs_node_id = self_name n\<rparr>, n))) n)"

section \<open>Log entries\<close>

text \<open>The sender of log entries must be the leader or the node's source in the chain.\<close>

definition sender_authorized :: "AppendEntriesRequest \<Rightarrow> ('w, 'e) node \<Rightarrow> bool" where
  "sender_authorized request n =
     (if ar_sender_id request \<noteq> [] \<and> Topology_GetRole (rn_self_id n) (rn_topology n) = kFollower
      then (let expected_source = Topology_GetSource (rn_self_id n) (rn_topology n) in
        ar_sender_id request = ar_leader_id request \<or>
        (expected_source \<noteq> [] \<and> ar_sender_id request = expected_source))
      else True)"

text \<open>Back over the entries of the conflicting term, not below the snapshot.\<close>

fun conflict_scan :: "('w, 'e) services \<Rightarrow> nat \<Rightarrow> nat \<Rightarrow> nat \<Rightarrow> ('w, 'e) node \<Rightarrow> nat \<times> ('w, 'e) node" where
  "conflict_scan S snapshot_index prev_term 0 n = (0, n)"
| "conflict_scan S snapshot_index prev_term (Suc c) n =
     (if Suc c > snapshot_index + 1
      then (case onLog (lo_Read (sv_log S) c) n of
          (Err _, n) \<Rightarrow> (Suc c, n)
        | (Ok previous, n) \<Rightarrow>
            if le_term previous \<noteq> prev_term then (Suc c, n)
            else conflict_scan S snapshot_index prev_term c n)
      else (Suc c, n))"

text \<open>The consistency check on the previous entry: \<open>Some\<close> is the reply that refuses.\<close>

definition check_prev ::
    "('w, 'e) services \<Rightarrow> AppendEntriesRequest \<Rightarrow> ('w, 'e) node \<Rightarrow> AppendEntriesResponse option \<times> ('w, 'e) node" where
  "check_prev S request n =
     (let prev_log_index = ar_prev_log_index request; snapshot_index = rn_last_snapshot_index n;
          logical_last_index = LogicalLastIndex S n;
          refuse = append_reply (self_name n) (rn_current_term n) False in
      if prev_log_index > logical_last_index
      then (Some (refuse\<lparr>as_conflict_index := logical_last_index + 1\<rparr>), n)
      else if snapshot_index > 0 \<and> prev_log_index < snapshot_index
      then (Some (refuse\<lparr>as_conflict_index := snapshot_index + 1, as_conflict_term := rn_last_snapshot_term n\<rparr>), n)
      else if prev_log_index > 0
      then (case TermAtLogicalIndex S prev_log_index n of
          (Err _, n) \<Rightarrow> (Some (refuse\<lparr>as_conflict_index := max (snapshot_index + 1) 1\<rparr>), n)
        | (Ok prev_term, n) \<Rightarrow>
            if prev_term \<noteq> ar_prev_log_term request
            then (if snapshot_index > 0 \<and> prev_log_index = snapshot_index
                  then (Some (refuse\<lparr>as_conflict_term := prev_term, as_conflict_index := snapshot_index\<rparr>), n)
                  else case conflict_scan S snapshot_index prev_term prev_log_index n of
                    (conflict_index, n) \<Rightarrow>
                      (Some (refuse\<lparr>as_conflict_term := prev_term, as_conflict_index := conflict_index\<rparr>), n))
            else (None, n))
      else (None, n))"

definition from_proto :: "proto_LogEntry \<Rightarrow> LogEntry" where
  "from_proto p = \<lparr>le_index = pl_index p, le_term = pl_term p, le_type = ucast (pl_type p),
     le_cmd_type = ucast (pl_cmd_type p), le_payload = pl_payload p\<rparr>"

definition to_proto :: "LogEntry \<Rightarrow> proto_LogEntry" where
  "to_proto e = \<lparr>pl_index = le_index e, pl_term = le_term e, pl_type = ucast (le_type e),
     pl_cmd_type = ucast (le_cmd_type e), pl_payload = le_payload e\<rparr>"

fun append_entries :: "'w log_ops \<Rightarrow> nat \<Rightarrow> LogEntry list \<Rightarrow> bool \<Rightarrow> ('w, bool) prog" where
  "append_entries L snapshot_index [] appended_any = ret appended_any"
| "append_entries L snapshot_index (incoming # es) appended_any = (\<lambda>w.
     if snapshot_index > 0 \<and> le_index incoming \<le> snapshot_index
     then append_entries L snapshot_index es appended_any w
     else case lo_Read L (le_index incoming) w of
         (Ok existing, w) \<Rightarrow>
           if le_term existing \<noteq> le_term incoming
           then andThen (lo_TruncateSuffix L (le_index incoming)) (\<lambda>_.
                andThen (lo_Append L incoming) (\<lambda>_. append_entries L snapshot_index es True)) w
           else append_entries L snapshot_index es appended_any w
       | (Err _, w) \<Rightarrow> andThen (lo_Append L incoming) (\<lambda>_. append_entries L snapshot_index es True) w)"

definition store_entries :: "'w log_ops \<Rightarrow> nat \<Rightarrow> LogEntry list \<Rightarrow> ('w, unit) prog" where
  "store_entries L snapshot_index es =
     andThen (append_entries L snapshot_index es False) (\<lambda>appended_any. whenP appended_any (lo_Flush L))"

definition queue_forward :: "AppendEntriesRequest \<Rightarrow> ('w, 'e) node \<Rightarrow> ('w, 'e) node" where
  "queue_forward request n =
     (if Topology_GetRole (rn_self_id n) (rn_topology n) = kMentor \<and> ar_entries request \<noteq> []
      then n\<lparr>rn_forwards := rn_forwards n @ [request]\<rparr> else n)"

definition HandleAppendEntries ::
    "('w, 'e) services \<Rightarrow> AppendEntriesRequest \<Rightarrow> ('w, 'e, AppendEntriesResponse) nprog" where
  "HandleAppendEntries S request = (\<lambda>n.
     if ar_term request < rn_current_term n
     then (Ok ((append_reply (self_name n) (rn_current_term n) False)
             \<lparr>as_conflict_index := LogicalLastIndex S n + 1\<rparr>), n)
     else andThen (accept_leader S (ar_term request) (ar_leader_id request)) (\<lambda>_.
       andThen (accept_topology (ar_topology request)) (\<lambda>_ n.
         if \<not> sender_authorized request n
         then (Ok (append_reply (self_name n) (rn_current_term n) False), n)
         else case check_prev S request n of
             (Some refusal, n) \<Rightarrow> (Ok refusal, n)
           | (None, n) \<Rightarrow>
               andThen (onLog (store_entries (sv_log S) (rn_last_snapshot_index n)
                   (map from_proto (ar_entries request)))) (\<lambda>_ n.
                 let n = queue_forward request (advance_commit S (ar_leader_commit request) n) in
                 (Ok ((append_reply (self_name n) (rn_current_term n) True)
                    \<lparr>as_match_index := LogicalLastIndex S n\<rparr>), n)) n)) n)"

end
