(* ===== verification/RaftLeader.thy ===== *)
theory RaftLeader
  imports RaftNode
begin

text \<open>
  The leader's side of \<^verbatim>\<open>src/raft/raft_node.cpp\<close>: elections, proposals, commitment, the progress
  kept for every peer, replication, forwarding by mentors, heartbeats and the lease. A function
  that waits for remote calls is split where it waits: the first part yields the requests, the
  second takes the responses, and anything may happen to the node in between.
\<close>

section \<open>Commitment\<close>

definition matched_count :: "('w, 'e) node \<Rightarrow> nat \<Rightarrow> nat" where
  "matched_count n candidate =
     (if rn_flushed_index n \<ge> candidate then 1 else 0) +
     length (filter (\<lambda>(_, p). pp_match_index p \<ge> candidate) (rn_peer_progress n))"

text \<open>The loop over candidates, from the last index down to the commit index.\<close>

fun commit_scan :: "('w, 'e) services \<Rightarrow> nat \<Rightarrow> nat \<Rightarrow> ('w, 'e, nat) nprog" where
  "commit_scan S commit 0 n = (Ok commit, n)"
| "commit_scan S commit (Suc c) n =
     (if Suc c > commit
      then (case TermAtLogicalIndex S (Suc c) n of
          (Err e, n) \<Rightarrow> (Err e, n)
        | (Ok t, n) \<Rightarrow>
            if t \<noteq> rn_current_term n then commit_scan S commit c n
            else if matched_count n (Suc c) \<ge> QuorumSize n then (Ok (Suc c), n)
            else commit_scan S commit c n)
      else (Ok commit, n))"

definition MaybeCommit :: "('w, 'e) services \<Rightarrow> ('w, 'e, unit) nprog" where
  "MaybeCommit S = (\<lambda>n.
     if \<not> IsLeader n then (Ok (), n)
     else andThen (commit_scan S (rn_commit_index n) (LogicalLastIndex S n)) (\<lambda>new_commit n.
       if new_commit > rn_commit_index n
       then (Ok (), RequestImmediateHeartbeat (n\<lparr>rn_commit_index := new_commit\<rparr>))
       else (Ok (), n)) n)"

section \<open>Proposals\<close>

definition track_request :: "codec \<Rightarrow> LogEntry \<Rightarrow> nat \<Rightarrow> ('w, 'e) node \<Rightarrow> ('w, 'e) node" where
  "track_request c entry log_index n = (case ExtractRequestId c entry of
       Err _ \<Rightarrow> n
     | Ok request_id \<Rightarrow> if request_id = [] then n
         else n\<lparr>rn_dedup := snd (DedupTable_TrackPending request_id log_index (rn_dedup n))\<rparr>)"

definition Propose :: "('w, 'e) services \<Rightarrow> LogEntry \<Rightarrow> ('w, 'e, nat) nprog" where
  "Propose S entry = (\<lambda>n.
     if rn_state n \<noteq> StLeader then (Err NotLeader, n)
     else let nxt = entry\<lparr>le_index := LogicalLastIndex S n + 1, le_term := rn_current_term n\<rparr>;
              log_index = le_index nxt in
       andThen (onLog (lo_Append (sv_log S) nxt)) (\<lambda>_ n.
         let n = track_request (sv_codec S) entry log_index n in
         if QuorumSize n = 1
         then andThen (onLog (lo_Flush (sv_log S))) (\<lambda>_ n.
           (Ok log_index, n\<lparr>rn_flushed_index := log_index, rn_commit_index := log_index\<rparr>)) n
         else andThen (onLog (lo_Flush (sv_log S))) (\<lambda>_ n.
           (Ok log_index, n\<lparr>rn_flushed_index := log_index\<rparr>))
             (RequestImmediateHeartbeat (RequestReplication n))) n)"

section \<open>Progress of the peers\<close>

definition progress_of :: "string \<Rightarrow> ('w, 'e) node \<Rightarrow> PeerProgress" where
  "progress_of peer_id n = (case map_of (rn_peer_progress n) peer_id of
     None \<Rightarrow> default_PeerProgress | Some p \<Rightarrow> p)"

definition set_progress :: "string \<Rightarrow> PeerProgress \<Rightarrow> ('w, 'e) node \<Rightarrow> ('w, 'e) node" where
  "set_progress peer_id p n = n\<lparr>rn_peer_progress := AList.update peer_id p (rn_peer_progress n)\<rparr>"

definition ApplyPeerRollbackStateLocked :: "u32 \<Rightarrow> PeerProgress \<Rightarrow> nat \<Rightarrow> nat \<Rightarrow> PeerProgress" where
  "ApplyPeerRollbackStateLocked window p attempted_next_index conflict_index =
     (let linear_threshold = max 1 (window * 2);
          p = (if pp_rollback_anchor_index p = 0 then p\<lparr>pp_rollback_anchor_index := attempted_next_index\<rparr> else p);
          p = (if conflict_index \<noteq> 0 \<and> conflict_index < pp_rollback_anchor_index p
               then p\<lparr>pp_rollback_anchor_index := conflict_index\<rparr> else p);
          p = p\<lparr>pp_rollback_failures := pp_rollback_failures p + 1\<rparr>;
          retreat = (if pp_rollback_failures p > linear_threshold
            then (let exponential_rounds = pp_rollback_failures p - linear_threshold;
                      capped_rounds = min (exponential_rounds - 1) 20
                  in unat linear_threshold + 2 ^ unat capped_rounds)
            else unat (pp_rollback_failures p))
      in p\<lparr>pp_next_index := (if pp_rollback_anchor_index p > retreat
             then pp_rollback_anchor_index p - retreat else 1)\<rparr>)"

text \<open>The running average of the acknowledgement latency.\<close>

definition add_latency :: "nat \<Rightarrow> PeerProgress \<Rightarrow> PeerProgress" where
  "add_latency sample_ms p = p\<lparr>pp_avg_ack_latency_ms :=
       (pp_avg_ack_latency_ms p * of_nat (pp_ack_samples p) + of_nat sample_ms) / of_nat (pp_ack_samples p + 1),
     pp_ack_samples := pp_ack_samples p + 1\<rparr>"

definition acked :: "nat \<Rightarrow> string \<Rightarrow> nat \<Rightarrow> time \<Rightarrow> PeerProgress \<Rightarrow> PeerProgress" where
  "acked now peer_id match_index sent_at p = add_latency (now - sent_at)
     (ResetPeerRollbackStateLocked (p\<lparr>pp_peer_id := peer_id,
        pp_match_index := max (pp_match_index p) match_index,
        pp_next_index := max (pp_next_index p) (match_index + 1),
        pp_in_flight := pp_in_flight p - 1, pp_healthy := True, pp_last_ack_time := now\<rparr>))"

definition UpdatePeerAck :: "('w, 'e) services \<Rightarrow> string \<Rightarrow> nat \<Rightarrow> time \<Rightarrow> ('w, 'e) node \<Rightarrow> ('w, 'e) node" where
  "UpdatePeerAck S peer_id match_index sent_at n =
     (let n = onTopology (Topology_MarkHealthy peer_id) n;
          p = acked (rn_now n) peer_id match_index sent_at (progress_of peer_id n);
          n = set_progress peer_id p n
      in if match_index \<ge> LogicalLastIndex S n \<and>
           (pp_direct_mode p \<or> pp_effective_window_size p \<noteq> rc_pipeline_window_size (raft_cfg n))
         then n\<lparr>rn_topology_refresh_requested := True\<rparr> else n)"

definition UpdatePeerHeartbeatAck :: "string \<Rightarrow> time \<Rightarrow> ('w, 'e) node \<Rightarrow> ('w, 'e) node" where
  "UpdatePeerHeartbeatAck peer_id sent_at n =
     (let n = onTopology (Topology_MarkHealthy peer_id) n in
      set_progress peer_id (add_latency (rn_now n - sent_at)
        ((progress_of peer_id n)\<lparr>pp_peer_id := peer_id, pp_healthy := True, pp_last_ack_time := rn_now n\<rparr>)) n)"

definition UpdatePeerFailure :: "string \<Rightarrow> nat \<Rightarrow> ('w, 'e) node \<Rightarrow> ('w, 'e) node" where
  "UpdatePeerFailure peer_id restore_next_index n =
     (let p = progress_of peer_id n;
          p = p\<lparr>pp_peer_id := peer_id, pp_in_flight := pp_in_flight p - 1\<rparr>
      in set_progress peer_id
           (if restore_next_index > 0
            then p\<lparr>pp_next_index := min (pp_next_index p) restore_next_index\<rparr> else p) n)"

section \<open>Elections\<close>

definition StartElection_begin :: "('w, 'e) services \<Rightarrow> ('w, 'e, RequestVoteRequest) nprog" where
  "StartElection_begin S = andThen (BecomeCandidate S) (\<lambda>_ n.
     case LastLogTermLocked S n of (last_log_term, n') \<Rightarrow>
       (Ok \<lparr>vq_term = rn_current_term n, vq_candidate_id = rn_self_id n,
          vq_last_log_index = LogicalLastIndex S n, vq_last_log_term = last_log_term\<rparr>, n'))"

text \<open>
  \<open>responses\<close> are the results of the calls in the order in which the threads finish.
\<close>

definition highest_vote_term :: "nat \<Rightarrow> RequestVoteResponse result list \<Rightarrow> nat" where
  "highest_vote_term term responses = fold (\<lambda>r h. case r of Err _ \<Rightarrow> h | Ok v \<Rightarrow> max h (vs_term v)) responses term"

definition granted_votes :: "RequestVoteResponse result list \<Rightarrow> nat" where
  "granted_votes responses =
     1 + length (filter (\<lambda>r. case r of Err _ \<Rightarrow> False | Ok v \<Rightarrow> vs_vote_granted v) responses)"

definition StartElection_end ::
    "('w, 'e) services \<Rightarrow> RequestVoteRequest \<Rightarrow> RequestVoteResponse result list \<Rightarrow> ('w, 'e, unit) nprog" where
  "StartElection_end S request responses = (\<lambda>n.
     if highest_vote_term (vq_term request) responses > vq_term request
     then BecomeFollower S (highest_vote_term (vq_term request) responses) [] n
     else if rn_state n \<noteq> StCandidate \<or> rn_current_term n \<noteq> vq_term request then (Ok (), n)
     else if granted_votes responses \<ge> QuorumSize n
     then andThen (BecomeLeader S) (\<lambda>_. MaybeCommit S) n
     else (Ok (), n))"

definition StartElection ::
    "('w, 'e) services \<Rightarrow> (RequestVoteRequest \<Rightarrow> RequestVoteResponse result list) \<Rightarrow> ('w, 'e, unit) nprog" where
  "StartElection S rpc = andThen (StartElection_begin S) (\<lambda>request. StartElection_end S request (rpc request))"

section \<open>Heartbeats\<close>

definition BuildTopologyForPeer :: "string \<Rightarrow> ('w, 'e) node \<Rightarrow> TopologyInfo result" where
  "BuildTopologyForPeer peer_id n = Topology_ToProto peer_id (rn_topology n)"

definition topology_or_empty :: "string \<Rightarrow> ('w, 'e) node \<Rightarrow> TopologyInfo" where
  "topology_or_empty peer_id n = (case BuildTopologyForPeer peer_id n of Ok t \<Rightarrow> t | Err _ \<Rightarrow> empty_TopologyInfo)"

definition heartbeat_request :: "string \<Rightarrow> ('w, 'e) node \<Rightarrow> HeartbeatRequest" where
  "heartbeat_request peer n = \<lparr>hr_term = rn_current_term n, hr_leader_id = rn_self_id n,
     hr_commit_index = rn_commit_index n, hr_topology = topology_or_empty peer n\<rparr>"

definition BroadcastHeartbeat_begin :: "('w, 'e) node \<Rightarrow> (string \<times> HeartbeatRequest) list" where
  "BroadcastHeartbeat_begin n =
     (if IsLeader n then map (\<lambda>peer. (peer, heartbeat_request peer n)) (peers n) else [])"

text \<open>What one thread does with its response: the highest term and the successes so far.\<close>

definition heartbeat_response ::
    "time \<Rightarrow> string \<times> HeartbeatResponse result \<Rightarrow> nat \<times> nat \<times> ('w, 'e) node \<Rightarrow> nat \<times> nat \<times> ('w, 'e) node" where
  "heartbeat_response sent_at = (\<lambda>(peer, response) (highest_term, success_count, n).
     case response of
       Err _ \<Rightarrow> (highest_term, success_count, UpdatePeerFailure peer 0 n)
     | Ok r \<Rightarrow>
         if hs_term r > highest_term then (hs_term r, success_count, n)
         else if hs_success r then (highest_term, success_count + 1, UpdatePeerHeartbeatAck peer sent_at n)
         else (highest_term, success_count, UpdatePeerFailure peer 0 n))"

definition BroadcastHeartbeat_end ::
    "('w, 'e) services \<Rightarrow> nat \<Rightarrow> time \<Rightarrow> (string \<times> HeartbeatResponse result) list \<Rightarrow> ('w, 'e, unit) nprog" where
  "BroadcastHeartbeat_end S term sent_at responses = (\<lambda>n.
     case fold (heartbeat_response sent_at) responses (term, 1, n) of
       (highest_term, success_count, n) \<Rightarrow>
         if highest_term > term then BecomeFollower S highest_term [] n
         else if success_count \<ge> QuorumSize n
         then (Ok (), n\<lparr>rn_lease := Lease_Renew (rn_now n) (uint (rc_lease_duration_ms (raft_cfg n))) (rn_lease n)\<rparr>)
         else (Ok (), n))"

definition BroadcastHeartbeat ::
    "('w, 'e) services \<Rightarrow> (string \<times> HeartbeatRequest \<Rightarrow> HeartbeatResponse result) \<Rightarrow> ('w, 'e, unit) nprog" where
  "BroadcastHeartbeat S rpc = (\<lambda>n.
     if \<not> IsLeader n then (Ok (), n)
     else BroadcastHeartbeat_end S (rn_current_term n) (rn_now n)
       (map (\<lambda>q. (fst q, rpc q)) (BroadcastHeartbeat_begin n)) n)"

section \<open>Lease reads\<close>

text \<open>\<open>wait\<close> is what the node does while the reader waits for the state machine.\<close>

definition EnsureLeaseReadable ::
    "('w, 'e) services \<Rightarrow> (string \<times> HeartbeatRequest \<Rightarrow> HeartbeatResponse result) \<Rightarrow>
     (('w, 'e) node \<Rightarrow> ('w, 'e) node) \<Rightarrow> ('w, 'e, unit) nprog" where
  "EnsureLeaseReadable S rpc wait = (\<lambda>n.
     if \<not> IsLeader n then (Err NotLeader, n)
     else andThen
       (if \<not> Lease_IsValid (rn_now n) (rn_lease n)
        then andThen (BroadcastHeartbeat S rpc) (\<lambda>_ n.
          if \<not> Lease_IsValid (rn_now n) (rn_lease n) then (Err LeaseInvalid, n) else (Ok (), n))
        else ret ()) (\<lambda>_ n.
          let n = (if rn_applied_index n < rn_commit_index n then wait n else n) in
          if rn_applied_index n < rn_commit_index n then (Err ApplyBehind, n) else (Ok (), n)) n)"

definition LeaseRead ::
    "('w, 'e) services \<Rightarrow> (string \<times> HeartbeatRequest \<Rightarrow> HeartbeatResponse result) \<Rightarrow>
     (('w, 'e) node \<Rightarrow> ('w, 'e) node) \<Rightarrow> ('w, 'e, nat) nprog" where
  "LeaseRead S rpc wait = andThen (EnsureLeaseReadable S rpc wait) (\<lambda>_. gets rn_commit_index)"

definition LeaseReadSearch ::
    "('w, 'e) services \<Rightarrow> (string \<times> HeartbeatRequest \<Rightarrow> HeartbeatResponse result) \<Rightarrow>
     (('w, 'e) node \<Rightarrow> ('w, 'e) node) \<Rightarrow> float32 list option \<Rightarrow> nat \<Rightarrow> nat \<Rightarrow> ('w, 'e, (nat \<times> float32) list) nprog" where
  "LeaseReadSearch S rpc wait vec dims top_k = andThen (EnsureLeaseReadable S rpc wait) (\<lambda>_ n.
     case rn_vector_index n of
       None \<Rightarrow> (Err VectorIndexMissing, n)
     | Some vi \<Rightarrow> (VectorIndex_Search (sv_engine S) vec dims top_k vi, n))"

end
