(* ===== verification/RaftReplication.thy ===== *)
theory RaftReplication
  imports RaftLeader
begin

text \<open>
  Replication in \<^verbatim>\<open>src/raft/raft_node.cpp\<close>: one round for a peer and the callback of its
  response, the forwarding of a mentor to its follower, the timeout checks, the topology
  refresh, and one iteration of each background loop.
\<close>

section \<open>One replication round\<close>

datatype replication = Idle | NeedSnapshot | Dispatch AppendEntriesRequest

definition window_of :: "PeerProgress \<Rightarrow> ('w, 'e) node \<Rightarrow> nat" where
  "window_of p n = unat (if pp_effective_window_size p = 0 then rc_pipeline_window_size (raft_cfg n)
                         else pp_effective_window_size p)"

definition append_request ::
    "string \<Rightarrow> string \<Rightarrow> nat \<Rightarrow> nat \<Rightarrow> LogEntry list \<Rightarrow> ('w, 'e) node \<Rightarrow> AppendEntriesRequest" where
  "append_request peer_id leader_id prev_log_index prev_log_term entries n =
     \<lparr>ar_term = rn_current_term n, ar_leader_id = leader_id, ar_prev_log_index = prev_log_index,
      ar_prev_log_term = prev_log_term, ar_entries = map to_proto entries,
      ar_leader_commit = rn_commit_index n, ar_topology = topology_or_empty peer_id n,
      ar_sender_id = rn_self_id n\<rparr>"

definition ReplicatePeerOnce_dispatch :: "('w, 'e) services \<Rightarrow> string \<Rightarrow> ('w, 'e, replication) nprog" where
  "ReplicatePeerOnce_dispatch S peer_id = (\<lambda>n.
     if \<not> IsLeader n then (Ok Idle, n)
     else case map_of (rn_peer_progress n) peer_id of
         None \<Rightarrow> (Ok Idle, n)
       | Some p \<Rightarrow>
           if pp_in_flight p \<ge> window_of p n then (Ok Idle, n)
           else if rn_last_snapshot_index n > 0 \<and> pp_next_index p \<le> rn_last_snapshot_index n
           then (Ok NeedSnapshot, n)
           else let logical_last_index = LogicalLastIndex S n in
             andThen (onLog (lo_ReadFrom (sv_log S) (pp_next_index p)
                 (unat (rc_batch_max_entries (raft_cfg n))))) (\<lambda>entries n.
               if entries = [] \<and> pp_match_index p \<ge> logical_last_index then (Ok Idle, n)
               else andThen (TermAtLogicalIndex S (pp_next_index p - 1)) (\<lambda>prev_term n.
                 let request = append_request peer_id (rn_self_id n) (pp_next_index p - 1) prev_term entries n;
                     q = progress_of peer_id n
                 in (Ok (Dispatch request), set_progress peer_id
                      (q\<lparr>pp_in_flight := pp_in_flight q + 1, pp_last_send_time := rn_now n,
                         pp_next_index := pp_next_index q + length entries\<rparr>) n)) n) n)"

text \<open>A refusal: take the peer's boundary when it is lower, otherwise fall back.\<close>

definition refused :: "u32 \<Rightarrow> nat \<Rightarrow> nat \<Rightarrow> PeerProgress \<Rightarrow> PeerProgress" where
  "refused window attempted_next_index conflict_index p =
     (if conflict_index > 0 \<and> conflict_index < attempted_next_index
      then ResetPeerRollbackStateLocked (p\<lparr>pp_next_index := conflict_index\<rparr>)
      else ApplyPeerRollbackStateLocked window p attempted_next_index conflict_index)"

definition AppendEntries_callback ::
    "('w, 'e) services \<Rightarrow> string \<Rightarrow> time \<Rightarrow> AppendEntriesRequest \<Rightarrow> AppendEntriesResponse result \<Rightarrow>
     ('w, 'e) node \<Rightarrow> ('w, 'e) node" where
  "AppendEntries_callback S peer_id sent_at request response n = (case response of
       Err _ \<Rightarrow> RequestReplication (UpdatePeerFailure peer_id (ar_prev_log_index request + 1) n)
     | Ok r \<Rightarrow>
         if as_term r > rn_current_term n then snd (BecomeFollower S (as_term r) [] n)
         else if \<not> IsLeader n then n
         else RequestReplication
           (if as_success r
            then snd (MaybeCommit S (UpdatePeerAck S peer_id (as_match_index r) sent_at n))
            else case map_of (rn_peer_progress n) peer_id of
                None \<Rightarrow> n
              | Some p \<Rightarrow> set_progress peer_id
                  (refused (rc_pipeline_window_size (raft_cfg n)) (ar_prev_log_index request + 1)
                     (as_conflict_index r) (p\<lparr>pp_in_flight := 0, pp_healthy := True\<rparr>)) n))"

text \<open>The call could not be started.\<close>

definition ReplicatePeerOnce_failed :: "string \<Rightarrow> AppendEntriesRequest \<Rightarrow> ('w, 'e) node \<Rightarrow> ('w, 'e) node" where
  "ReplicatePeerOnce_failed peer_id request n = UpdatePeerFailure peer_id (ar_prev_log_index request + 1) n"

section \<open>Forwarding by a mentor\<close>

definition ForwardToFollower_begin :: "('w, 'e) services \<Rightarrow> ('w, 'e, (string \<times> replication)) nprog" where
  "ForwardToFollower_begin S = (\<lambda>n.
     case Topology_GetFollowerOf (rn_self_id n) (rn_topology n) of
       None \<Rightarrow> (Ok ([], Idle), n)
     | Some follower \<Rightarrow>
         if \<not> ni_healthy follower then (Ok ([], Idle), n)
         else let fid = ni_node_id follower;
                  p = (case map_of (rn_peer_progress n) fid of
                      Some p \<Rightarrow> p
                    | None \<Rightarrow> default_PeerProgress\<lparr>pp_peer_id := fid, pp_next_index := LogicalLastIndex S n + 1\<rparr>) in
           if rn_last_snapshot_index n > 0 \<and> pp_next_index p \<le> rn_last_snapshot_index n
           then (Ok (fid, NeedSnapshot), n)
           else if pp_in_flight p \<ge> window_of p n then (Ok (fid, Idle), n)
           else let logical_last_index = LogicalLastIndex S n in
             andThen (onLog (lo_ReadFrom (sv_log S) (pp_next_index p)
                 (unat (rc_batch_max_entries (raft_cfg n))))) (\<lambda>entries n.
               if entries = [] \<and> pp_match_index p \<ge> logical_last_index then (Ok (fid, Idle), n)
               else andThen (TermAtLogicalIndex S (pp_next_index p - 1)) (\<lambda>prev_term n.
                 let request = append_request fid (rn_leader_id n) (pp_next_index p - 1) prev_term entries n;
                     q = progress_of fid n
                 in (Ok (fid, Dispatch request), set_progress fid
                      (q\<lparr>pp_peer_id := fid, pp_next_index := max (pp_next_index q) (pp_next_index p),
                         pp_in_flight := pp_in_flight q + 1, pp_last_send_time := rn_now n\<rparr>) n)) n) n)"

definition ForwardToFollower_end ::
    "('w, 'e) services \<Rightarrow> string \<Rightarrow> time \<Rightarrow> AppendEntriesRequest \<Rightarrow> AppendEntriesResponse result \<Rightarrow>
     ('w, 'e, unit) nprog" where
  "ForwardToFollower_end S fid sent_at request response = (\<lambda>n. case response of
       Err e \<Rightarrow> (Err e, UpdatePeerFailure fid 0 n)
     | Ok r \<Rightarrow>
         if as_term r > rn_current_term n then BecomeFollower S (as_term r) [] n
         else if as_success r then (Ok (), UpdatePeerAck S fid (as_match_index r) sent_at n)
         else let p = progress_of fid n in
           (Ok (), set_progress fid
              (refused (rc_pipeline_window_size (raft_cfg n)) (ar_prev_log_index request + 1)
                 (as_conflict_index r)
                 (p\<lparr>pp_peer_id := fid, pp_in_flight := pp_in_flight p - 1, pp_healthy := True\<rparr>)) n))"

section \<open>Timeouts\<close>

type_synonym heartbeat_rpc = "string \<Rightarrow> HeartbeatRequest \<Rightarrow> HeartbeatResponse result"
type_synonym append_rpc = "string \<Rightarrow> AppendEntriesRequest \<Rightarrow> AppendEntriesResponse result"

definition HealthyPeerIds :: "('w, 'e) node \<Rightarrow> string list" where
  "HealthyPeerIds n = map ni_node_id
     (filter (\<lambda>i. ni_node_id i \<noteq> rn_self_id n \<and> ni_healthy i) (Topology_AllNodes (rn_topology n)))"

definition send_heartbeat :: "heartbeat_rpc \<Rightarrow> string \<Rightarrow> ('w, 'e) node \<Rightarrow> bool" where
  "send_heartbeat hb peer n =
     (case hb (ResolvePeerAddress peer n) (heartbeat_request peer n) of Err _ \<Rightarrow> False | Ok r \<Rightarrow> hs_success r)"

definition check_mentor :: "heartbeat_rpc \<Rightarrow> NodeInfo \<Rightarrow> ('w, 'e) node \<Rightarrow> ('w, 'e) node" where
  "check_mentor hb mentor n = (case map_of (rn_peer_progress n) (ni_node_id mentor) of
       None \<Rightarrow> n
     | Some p \<Rightarrow>
         if rn_now n - pp_last_ack_time p \<le> unat (rc_mentor_ack_timeout_ms (raft_cfg n)) then n
         else let follower = Topology_GetFollowerOf (ni_node_id mentor) (rn_topology n);
                  n = UpdatePeerFailure (ni_node_id mentor) 0
                        (onTopology (Topology_MarkUnhealthy (ni_node_id mentor)) n)
           in case follower of
                None \<Rightarrow> n
              | Some f \<Rightarrow>
                  if \<not> ni_healthy f then n
                  else let n = RequestImmediateHeartbeat ((onTopology (Topology_PromoteToMentor (ni_node_id f)) n)
                                 \<lparr>rn_topology_refresh_requested := True\<rparr>)
                    in if send_heartbeat hb (ni_node_id f) n
                       then UpdatePeerHeartbeatAck (ni_node_id f) (rn_now n) n
                       else onTopology (Topology_MarkUnhealthy (ni_node_id f)) n)"

definition CheckMentorTimeouts :: "heartbeat_rpc \<Rightarrow> ('w, 'e) node \<Rightarrow> ('w, 'e) node" where
  "CheckMentorTimeouts hb n =
     (if \<not> IsLeader n then n else fold (check_mentor hb) (Topology_GetMentors (rn_topology n)) n)"

text \<open>Whether the follower answers a direct request, and what the answer changes.\<close>

definition probe_follower ::
    "('w, 'e) services \<Rightarrow> heartbeat_rpc \<Rightarrow> append_rpc \<Rightarrow> NodeInfo \<Rightarrow> PeerProgress \<Rightarrow> ('w, 'e) node \<Rightarrow> bool \<times> ('w, 'e) node" where
  "probe_follower S hb ap node p n =
     (let fid = ni_node_id node; sent_at = rn_now n in
      if pp_next_index p \<le> LogicalLastIndex S n
      then (case TermAtLogicalIndex S (pp_next_index p - 1) n of (prev_term, n) \<Rightarrow>
            case onLog (lo_ReadFrom (sv_log S) (pp_next_index p) (unat (rc_batch_max_entries (raft_cfg n)))) n of
              (entries, n) \<Rightarrow>
                let request = (append_request fid (rn_self_id n) (pp_next_index p - 1)
                      (case prev_term of Ok t \<Rightarrow> t | Err _ \<Rightarrow> 0)
                      (case entries of Ok es \<Rightarrow> es | Err _ \<Rightarrow> []) n)\<lparr>ar_sender_id := []\<rparr>
                in case ap (ResolvePeerAddress fid n) request of
                     Err _ \<Rightarrow> (False, n)
                   | Ok r \<Rightarrow> if as_success r then (True, UpdatePeerAck S fid (as_match_index r) sent_at n) else (False, n))
      else if send_heartbeat hb fid n then (True, UpdatePeerHeartbeatAck fid sent_at n)
      else (False, n))"

text \<open>The follower answers although its mentor is alive: slow the mentor down or swap.\<close>

definition diagnose_mentor ::
    "('w, 'e) services \<Rightarrow> time \<Rightarrow> string \<Rightarrow> string \<Rightarrow> ('w, 'e) node \<Rightarrow> ('w, 'e) node" where
  "diagnose_mentor S now mentor_id fid n =
     (case (map_of (rn_peer_progress n) mentor_id, map_of (rn_peer_progress n) fid) of
        (Some m, Some f) \<Rightarrow>
          if pp_ack_samples m < 3 \<or>
             pp_avg_ack_latency_ms m > of_nat (unat (rc_heartbeat_interval_ms (raft_cfg n) * 2)) \<or>
             pp_match_index m + 1 < LogicalLastIndex S n
          then let n = set_progress mentor_id
                 (m\<lparr>pp_effective_window_size := max 1 (rc_pipeline_window_size (raft_cfg n) div 2),
                    pp_recover_deadline := now + unat (rc_mentor_recover_timeout_ms (raft_cfg n))\<rparr>) n
               in set_progress fid ((progress_of fid n)\<lparr>pp_direct_mode := True\<rparr>) n
          else (case find (\<lambda>i. ni_node_id i \<noteq> mentor_id \<and> ni_healthy i) (Topology_GetMentors (rn_topology n)) of
              Some other \<Rightarrow> onTopology (Topology_SwapFollowers mentor_id (ni_node_id other)) n
            | None \<Rightarrow> set_progress fid (f\<lparr>pp_direct_mode := True\<rparr>) n)\<lparr>rn_topology_refresh_requested := True\<rparr>
      | _ \<Rightarrow> n)"

definition check_follower ::
    "('w, 'e) services \<Rightarrow> heartbeat_rpc \<Rightarrow> append_rpc \<Rightarrow> time \<Rightarrow> NodeInfo \<Rightarrow> ('w, 'e) node \<Rightarrow> ('w, 'e) node" where
  "check_follower S hb ap now node n =
     (if ni_node_id node = rn_self_id n \<or> ni_role node \<noteq> kFollower \<or> \<not> ni_healthy node then n
      else case map_of (rn_peer_progress n) (ni_node_id node) of
          None \<Rightarrow> n
        | Some p \<Rightarrow>
            if now - pp_last_ack_time p \<le> unat (rc_mentor_ack_timeout_ms (raft_cfg n) * 2) then n
            else let mentor_id = (case Topology_GetMentorOf (ni_node_id node) (rn_topology n) of
                       Some m \<Rightarrow> if ni_healthy m then ni_node_id m else [] | None \<Rightarrow> []);
                     mentor_recent = (case Topology_GetMentorOf (ni_node_id node) (rn_topology n) of
                         Some m \<Rightarrow> ni_healthy m \<and> (case map_of (rn_peer_progress n) (ni_node_id m) of
                             Some q \<Rightarrow> now - pp_last_ack_time q \<le> unat (rc_mentor_ack_timeout_ms (raft_cfg n))
                           | None \<Rightarrow> False)
                       | None \<Rightarrow> False)
              in case probe_follower S hb ap node p n of
                   (True, n) \<Rightarrow>
                     if \<not> mentor_recent
                     then (let n = onTopology (Topology_PromoteToMentor (ni_node_id node)) n;
                               n = (if mentor_id \<noteq> [] then onTopology (Topology_MarkUnhealthy mentor_id) n else n)
                           in n\<lparr>rn_topology_refresh_requested := True\<rparr>)
                     else diagnose_mentor S now mentor_id (ni_node_id node) n
                 | (False, n) \<Rightarrow>
                     if mentor_recent
                     then RequestImmediateHeartbeat ((onTopology (Topology_MarkUnhealthy (ni_node_id node)) n)
                            \<lparr>rn_topology_refresh_requested := True\<rparr>)
                     else n)"

definition CheckFollowerTimeouts ::
    "('w, 'e) services \<Rightarrow> heartbeat_rpc \<Rightarrow> append_rpc \<Rightarrow> ('w, 'e) node \<Rightarrow> ('w, 'e) node" where
  "CheckFollowerTimeouts S hb ap n =
     (if \<not> IsLeader n then n
      else fold (check_follower S hb ap (rn_now n)) (Topology_AllNodes (rn_topology n)) n)"

definition RebalanceTopology :: "('w, 'e, unit) nprog" where
  "RebalanceTopology = (\<lambda>n. andThen (onRebalance (HealthyPeerIds n)) (\<lambda>_ n.
     (Ok (), RequestImmediateHeartbeat (n\<lparr>
        rn_peer_progress := map (\<lambda>(k, p). (k, p\<lparr>pp_direct_mode := False,
          pp_effective_window_size := rc_pipeline_window_size (raft_cfg n)\<rparr>)) (rn_peer_progress n),
        rn_last_topology_refresh := rn_now n, rn_topology_refresh_requested := False\<rparr>))) n)"

section \<open>One iteration of the background loops\<close>

definition ElectionLoop_fires :: "('w, 'e) node \<Rightarrow> bool" where
  "ElectionLoop_fires n = (\<not> IsLeader n \<and> rn_now n \<ge> rn_election_deadline n)"

text \<open>The peers a replication round serves.\<close>

definition ReplicationLoop_targets :: "('w, 'e) node \<Rightarrow> string list" where
  "ReplicationLoop_targets n =
     (if \<not> IsLeader n then []
      else let quorum_edge_mode = (length (HealthyPeerIds n) + 1 \<le> QuorumSize n) in
        map ni_node_id (filter (\<lambda>node.
          ni_node_id node \<noteq> rn_self_id n \<and> ni_healthy node \<and>
          (ni_role node = kMentor \<or> ni_source_node_id node = rn_self_id n \<or>
           (case map_of (rn_peer_progress n) (ni_node_id node) of Some p \<Rightarrow> pp_direct_mode p | None \<Rightarrow> False) \<or>
           (quorum_edge_mode \<and> ni_role node = kFollower))) (Topology_AllNodes (rn_topology n))))"

definition HeartbeatLoop_step ::
    "('w, 'e) services \<Rightarrow> (string \<times> HeartbeatRequest \<Rightarrow> HeartbeatResponse result) \<Rightarrow> ('w, 'e) node \<Rightarrow> ('w, 'e) node" where
  "HeartbeatLoop_step S rpc n = (let n = n\<lparr>rn_heartbeat_requested := False\<rparr> in
     if IsLeader n then snd (BroadcastHeartbeat S rpc n) else n)"

definition recover_window :: "time \<Rightarrow> ('w, 'e) node \<Rightarrow> ('w, 'e) node" where
  "recover_window now n =
     (let window = rc_pipeline_window_size (raft_cfg n);
          due = (\<lambda>p. pp_effective_window_size p \<noteq> window \<and> pp_recover_deadline p \<le> now) in
      n\<lparr>rn_peer_progress := map (\<lambda>(k, p). (k, if due p
           then p\<lparr>pp_effective_window_size := window, pp_direct_mode := False\<rparr> else p)) (rn_peer_progress n),
        rn_topology_refresh_requested :=
          (rn_topology_refresh_requested n \<or> list_ex (\<lambda>(_, p). due p) (rn_peer_progress n))\<rparr>)"

definition MaintenanceLoop_leader ::
    "('w, 'e) services \<Rightarrow> heartbeat_rpc \<Rightarrow> append_rpc \<Rightarrow> ('w, 'e) node \<Rightarrow> ('w, 'e) node" where
  "MaintenanceLoop_leader S hb ap n =
     (if \<not> IsLeader n then n
      else let now = rn_now n;
               n = (if \<not> Lease_IsValid now (rn_lease n) then RequestImmediateHeartbeat n else n);
               n = recover_window now (CheckFollowerTimeouts S hb ap (CheckMentorTimeouts hb n))
        in if rn_topology_refresh_requested n \<or>
              now - rn_last_topology_refresh n \<ge> unat (rc_topology_refresh_interval_ms (raft_cfg n))
           then snd (RebalanceTopology n) else n)"

definition MaybeRunIndexMaintenance :: "('w, 'e) services \<Rightarrow> time \<Rightarrow> ('w, 'e) node \<Rightarrow> ('w, 'e) node" where
  "MaybeRunIndexMaintenance S now n = (case rn_vector_index n of
       None \<Rightarrow> n
     | Some index \<Rightarrow>
         if rn_snapshot_in_progress n \<or>
            now - rn_last_index_maintenance_check n <
              unat (ic_check_interval_s (cfg_index_maintenance (rn_config n))) * 1000
         then n
         else n\<lparr>rn_last_index_maintenance_check := now,
           rn_index_maintenance := IndexMaintenance_Check (sv_engine S) index now (rn_index_maintenance n)\<rparr>)"

definition MaintenanceLoop_step ::
    "('w, 'e) services \<Rightarrow> heartbeat_rpc \<Rightarrow> append_rpc \<Rightarrow> ('w, 'e) node \<Rightarrow> ('w, 'e) node" where
  "MaintenanceLoop_step S hb ap n = MaintenanceLoop_leader S hb ap (MaybeRunIndexMaintenance S (rn_now n) n)"

definition RegisterConfiguredPeers :: "('w, 'e) node \<Rightarrow> ('w, 'e) node" where
  "RegisterConfiguredPeers n = onTopology (\<lambda>t.
     fold (\<lambda>peer. Topology_RegisterNode peer peer)
       (filter (\<lambda>peer. peer \<noteq> [] \<and> peer \<noteq> rn_self_id n) (peers n))
       (Topology_RegisterNode (rn_self_id n) (rn_self_addr n)
         (Topology_SetSelf (rn_self_id n) (rn_self_addr n) t))) n"

end
