(* ===== verification/RaftApply.thy ===== *)
theory RaftApply
  imports RaftLeader
begin

text \<open>
  Applying committed entries in \<^verbatim>\<open>src/raft/raft_node.cpp\<close>: the commit listeners of waiting
  clients, the apply loop with its snapshot trigger, the snapshot task, and the client requests.
  Promises that were fulfilled are collected in \<open>rn_notified\<close>; a snapshot thread that was started
  is kept in \<open>rn_snapshot_task\<close> until it runs (thread creation succeeds).
\<close>

section \<open>Commit listeners\<close>

text \<open>
  \<^verbatim>\<open>emplace\<close> keeps an existing listener; the new promise is then destroyed unfulfilled.
\<close>

definition RegisterCommitListener :: "string \<Rightarrow> ('w, 'e) node \<Rightarrow> ('w, 'e) node" where
  "RegisterCommitListener request_id n =
     (if request_id \<in> set (rn_commit_listeners n) then n
      else n\<lparr>rn_commit_listeners := request_id # rn_commit_listeners n\<rparr>)"

definition UnregisterCommitListener :: "string \<Rightarrow> ('w, 'e) node \<Rightarrow> ('w, 'e) node" where
  "UnregisterCommitListener request_id n =
     n\<lparr>rn_commit_listeners := filter (\<lambda>r. r \<noteq> request_id) (rn_commit_listeners n)\<rparr>"

definition NotifyCommitListener :: "string \<Rightarrow> DedupEntry \<Rightarrow> ('w, 'e) node \<Rightarrow> ('w, 'e) node" where
  "NotifyCommitListener request_id entry n =
     (if request_id \<in> set (rn_commit_listeners n)
      then UnregisterCommitListener request_id (n\<lparr>rn_notified := rn_notified n @ [(request_id, entry)]\<rparr>)
      else n)"

section \<open>The snapshot task\<close>

definition LaunchSnapshotTask :: "nat \<Rightarrow> ('w, 'e) node \<Rightarrow> ('w, 'e) node" where
  "LaunchSnapshotTask snapshot_index n = (case rn_vector_index n of
       None \<Rightarrow> n\<lparr>rn_snapshot_in_progress := False\<rparr>
     | Some _ \<Rightarrow> n\<lparr>rn_snapshot_task := Some snapshot_index\<rparr>)"

definition MaybeTriggerSnapshot :: "nat \<Rightarrow> ('w, 'e) node \<Rightarrow> ('w, 'e) node" where
  "MaybeTriggerSnapshot applied_index n =
     (let threshold = unat (rc_snapshot_threshold (raft_cfg n)) in
      if threshold = 0 \<or> applied_index \<le> rn_last_snapshot_index n \<or>
         applied_index - rn_last_snapshot_index n \<le> threshold \<or> rn_snapshot_in_progress n
      then n
      else LaunchSnapshotTask applied_index (n\<lparr>rn_snapshot_in_progress := True\<rparr>))"

definition snapshot_meta :: "VectorConfig \<Rightarrow> nat \<Rightarrow> nat \<Rightarrow> string \<Rightarrow> SnapshotMeta" where
  "snapshot_meta cfg term i created_at = \<lparr>sm_raft_term = term, sm_raft_index = i, sm_dim = vc_dim cfg,
     sm_metric = vc_metric cfg, sm_data_type = vc_data_type cfg, sm_created_at = created_at\<rparr>"

abbreviation store_of :: "('w, 'e) node \<Rightarrow> SnapshotStore" where
  "store_of n \<equiv> \<lparr>ss_snapshot_dir = sc_snapshot_dir (cfg_storage (rn_config n))\<rparr>"

text \<open>
  The body of the thread. \<open>vi\<close> is the index the launch captured, in the state it has when the
  thread saves it. The body stops at the first failing step; saving the de-duplication table and
  truncating the log may fail.
\<close>

definition snapshot_body :: "('w, 'e) services \<Rightarrow> nat \<Rightarrow> 'e VectorIndex \<Rightarrow> ('w, 'e, unit) nprog" where
  "snapshot_body S snapshot_index vi = (\<lambda>n.
     andThen (onDisk (SnapshotStore_Initialize (store_of n))) (\<lambda>_.
     andThen (onDisk (VectorIndex_SaveSnapshot (sv_engine S) vi (TemporarySnapshotPath (store_of n)))) (\<lambda>_.
     andThen (onLog (lo_TermAt (sv_log S) snapshot_index)) (\<lambda>snapshot_term.
     andThen (onDisk (FinalizeSnapshot (sv_utc S) (store_of n)
       (snapshot_meta (cfg_vector (rn_config n)) snapshot_term snapshot_index (sv_utc S)))) (\<lambda>_.
     andThen (ignoring (\<lambda>n. onDisk (DedupTable_SaveTo (sv_codec S)
       (DedupSnapshotPath (cfg_storage (rn_config n))) (rn_dedup n)) n)) (\<lambda>_.
     andThen (modify (\<lambda>n. n\<lparr>rn_last_snapshot_index := snapshot_index,
       rn_last_snapshot_term := snapshot_term\<rparr>)) (\<lambda>_.
     ignoring (onLog (lo_TruncateBefore (sv_log S) snapshot_index)))))))) n)"

definition run_snapshot_task :: "('w, 'e) services \<Rightarrow> nat \<Rightarrow> 'e VectorIndex \<Rightarrow> ('w, 'e) node \<Rightarrow> ('w, 'e) node" where
  "run_snapshot_task S snapshot_index vi n = (snd (snapshot_body S snapshot_index vi n))
     \<lparr>rn_snapshot_in_progress := False, rn_snapshot_task := None\<rparr>"

section \<open>Applying entries\<close>

text \<open>The result of a command: success, error text and request id.\<close>

definition onIndex :: "('e VectorIndex, unit) prog \<Rightarrow> string \<Rightarrow> 'e VectorIndex \<Rightarrow> ('w, 'e) node \<Rightarrow> (bool \<times> string \<times> string) \<times> ('w, 'e) node" where
  "onIndex op request_id vi n = (case op vi of
       (Ok _, vi) \<Rightarrow> ((True, [], request_id), n\<lparr>rn_vector_index := Some vi\<rparr>)
     | (Err e, vi) \<Rightarrow> ((False, what e, request_id), n\<lparr>rn_vector_index := Some vi\<rparr>))"

definition apply_command :: "('w, 'e) services \<Rightarrow> LogEntry \<Rightarrow> ('w, 'e) node \<Rightarrow> (bool \<times> string \<times> string) \<times> ('w, 'e) node" where
  "apply_command S entry n =
     (if le_type entry \<noteq> kNormal then ((True, [], []), n)
      else case rn_vector_index n of
          None \<Rightarrow> ((False, what VectorIndexMissing, []), n)
        | Some vi \<Rightarrow>
            if le_cmd_type entry = kUpsert
            then (case UpsertCmd_Deserialize (sv_codec S) (le_payload entry) of
                Err e \<Rightarrow> ((False, what e, []), n)
              | Ok cmd \<Rightarrow> onIndex (VectorIndex_Upsert (sv_engine S) (uc_id cmd) (Some (uc_vector cmd))
                    (length (uc_vector cmd))) (uc_request_id cmd) vi n)
            else if le_cmd_type entry = kDelete
            then (case DeleteCmd_Deserialize (sv_codec S) (le_payload entry) of
                Err e \<Rightarrow> ((False, what e, []), n)
              | Ok cmd \<Rightarrow> onIndex (VectorIndex_Delete (sv_engine S) (dc_id cmd)) (dc_request_id cmd) vi n)
            else ((True, [], []), n))"

definition publish_result :: "nat \<Rightarrow> bool \<times> string \<times> string \<Rightarrow> ('w, 'e) node \<Rightarrow> ('w, 'e) node" where
  "publish_result next_index = (\<lambda>(success, err, request_id) n.
     if request_id = [] then n
     else NotifyCommitListener request_id
       \<lparr>de_committed = True, de_success = success, de_error = err, de_log_index = next_index\<rparr>
       (n\<lparr>rn_dedup := DedupTable_Record request_id next_index success err (rn_dedup n)\<rparr>))"

definition apply_entry :: "('w, 'e) services \<Rightarrow> nat \<Rightarrow> LogEntry \<Rightarrow> ('w, 'e) node \<Rightarrow> ('w, 'e) node" where
  "apply_entry S next_index entry n = (case apply_command S entry n of (res, n) \<Rightarrow>
     MaybeTriggerSnapshot next_index ((publish_result next_index res n)\<lparr>rn_applied_index := next_index\<rparr>))"

lemma onLog_fields [simp]:
  "rn_commit_index (snd (onLog m n)) = rn_commit_index n" "rn_applied_index (snd (onLog m n)) = rn_applied_index n"
  by (simp_all add: onLog_def split: prod.splits)

lemma apply_command_fields [simp]:
  "rn_commit_index (snd (apply_command S e n)) = rn_commit_index n"
  by (simp add: apply_command_def onIndex_def split: prod.splits option.splits sum.splits)

lemma MaybeTriggerSnapshot_fields [simp]:
  "rn_commit_index (MaybeTriggerSnapshot i n) = rn_commit_index n"
  "rn_applied_index (MaybeTriggerSnapshot i n) = rn_applied_index n"
  by (simp_all add: MaybeTriggerSnapshot_def LaunchSnapshotTask_def Let_def split: option.splits)

lemma publish_result_fields [simp]:
  "rn_commit_index (publish_result i r n) = rn_commit_index n"
  by (simp add: publish_result_def NotifyCommitListener_def UnregisterCommitListener_def split: prod.splits)

lemma apply_entry_fields [simp]:
  "rn_commit_index (apply_entry S i e n) = rn_commit_index n" "rn_applied_index (apply_entry S i e n) = i"
proof -
  obtain r n' where c: "apply_command S e n = (r, n')" by (cases "apply_command S e n")
  show "rn_commit_index (apply_entry S i e n) = rn_commit_index n" "rn_applied_index (apply_entry S i e n) = i"
    using apply_command_fields [of S e n] by (simp_all add: apply_entry_def c)
qed

function ApplyCommittedEntries :: "('w, 'e) services \<Rightarrow> ('w, 'e) node \<Rightarrow> ('w, 'e) node" where
  "ApplyCommittedEntries S n =
     (if rn_applied_index n < rn_commit_index n
      then (case onLog (lo_Read (sv_log S) (rn_applied_index n + 1)) n of
          (Err _, n) \<Rightarrow> n
        | (Ok entry, n) \<Rightarrow> ApplyCommittedEntries S (apply_entry S (rn_applied_index n + 1) entry n))
      else n)"
  by pat_completeness auto

termination
proof (relation "measure (\<lambda>(S, n). rn_commit_index n - rn_applied_index n)", simp)
  fix S :: "('w, 'e) services" and n n' :: "('w, 'e) node" and r entry
  assume "rn_applied_index n < rn_commit_index n" and r: "(r, n') = onLog (lo_Read (sv_log S) (rn_applied_index n + 1)) n"
  have "rn_commit_index n' = rn_commit_index n" "rn_applied_index n' = rn_applied_index n"
    using arg_cong [OF r, of snd] by (simp_all add: eq_commute)
  then show "((S, apply_entry S (rn_applied_index n' + 1) entry n'), S, n)
      \<in> measure (\<lambda>(S, n). rn_commit_index n - rn_applied_index n)"
    using \<open>rn_applied_index n < rn_commit_index n\<close> by simp
qed

declare ApplyCommittedEntries.simps [simp del]

section \<open>Client requests\<close>

text \<open>
  A write that is not answered at once waits for its promise. \<open>Abandoned\<close>: another request with
  the same id holds the listener, so the promise of this one is destroyed and reading the future
  throws \<^verbatim>\<open>std::future_error\<close>.
\<close>

datatype client_write = Replied ClientWriteResponse | Waiting | Abandoned

definition committed_reply :: "string \<Rightarrow> ('w, 'e) node \<Rightarrow> ClientWriteResponse option" where
  "committed_reply request_id n = (case DedupTable_Check request_id (rn_dedup n) of
       (kAlreadyCommitted, Some e) \<Rightarrow> Some (write_reply (de_success e) (de_error e) [])
     | _ \<Rightarrow> None)"

definition client_entry :: "('w, 'e) services \<Rightarrow> ClientWriteRequest \<Rightarrow> ('w, 'e) node \<Rightarrow> LogEntry result" where
  "client_entry S request n =
     (if cw_cmd_type request = 1
      then bindR (ParseFloatVectorBytes (cw_vector request)) (\<lambda>vec.
        if length vec \<noteq> unat (vc_dim (cfg_vector (rn_config n))) then Err (BadArgument ''vector dimension'')
        else Ok (default_LogEntry\<lparr>le_type := kNormal, le_cmd_type := kUpsert,
          le_payload := UpsertCmd_Serialize (sv_codec S)
            \<lparr>uc_id = cw_id request, uc_vector = vec, uc_request_id = cw_request_id request\<rparr>\<rparr>))
      else if cw_cmd_type request = 2
      then Ok (default_LogEntry\<lparr>le_type := kNormal, le_cmd_type := kDelete,
          le_payload := DeleteCmd_Serialize (sv_codec S)
            \<lparr>dc_id = cw_id request, dc_request_id = cw_request_id request\<rparr>\<rparr>)
      else Err (BadArgument ''cmd_type''))"

text \<open>Waiting: the listener is registered, then the table is looked up once more.\<close>

definition await_commit :: "string \<Rightarrow> ('w, 'e) node \<Rightarrow> client_write \<times> ('w, 'e) node" where
  "await_commit request_id n =
     (let known = request_id \<in> set (rn_commit_listeners n); n = RegisterCommitListener request_id n in
      case committed_reply request_id n of
        Some reply \<Rightarrow> (Replied reply, UnregisterCommitListener request_id n)
      | None \<Rightarrow> (if known then Abandoned else Waiting, n))"

definition HandleClientWrite_begin ::
    "('w, 'e) services \<Rightarrow> ClientWriteRequest \<Rightarrow> ('w, 'e) node \<Rightarrow> client_write \<times> ('w, 'e) node" where
  "HandleClientWrite_begin S request n =
     (if \<not> IsLeader n then (Replied (write_reply False [] (LeaderAddr n)), n)
      else if cw_request_id request = [] then (Replied (write_reply False ''request_id'' []), n)
      else case DedupTable_Check (cw_request_id request) (rn_dedup n) of
          (kAlreadyCommitted, Some e) \<Rightarrow> (Replied (write_reply (de_success e) (de_error e) []), n)
        | (kNotFound, _) \<Rightarrow> (case client_entry S request n of
              Err e \<Rightarrow> (Replied (write_reply False (what e) []), n)
            | Ok entry \<Rightarrow> (case Propose S entry n of
                (Err e, n) \<Rightarrow> (Replied (if IsLeader n then write_reply False (what e) []
                                        else write_reply False [] (LeaderAddr n)), n)
              | (Ok _, n) \<Rightarrow> await_commit (cw_request_id request) n))
        | _ \<Rightarrow> await_commit (cw_request_id request) n)"

text \<open>The future became ready with an entry, or the wait timed out (\<open>None\<close>).\<close>

definition HandleClientWrite_end ::
    "string \<Rightarrow> DedupEntry option \<Rightarrow> ('w, 'e) node \<Rightarrow> ClientWriteResponse \<times> ('w, 'e) node" where
  "HandleClientWrite_end request_id outcome n = (case outcome of
       Some committed \<Rightarrow> (write_reply (de_success committed) (de_error committed) [], n)
     | None \<Rightarrow>
         let n = UnregisterCommitListener request_id n in
         (case committed_reply request_id n of
            Some reply \<Rightarrow> (reply, n)
          | None \<Rightarrow> (write_reply False [] (if IsLeader n then [] else LeaderAddr n), n)))"

text \<open>\<open>forward\<close> is the call to the leader.\<close>

definition HandleClientSearch ::
    "('w, 'e) services \<Rightarrow> (string \<times> HeartbeatRequest \<Rightarrow> HeartbeatResponse result) \<Rightarrow>
     (('w, 'e) node \<Rightarrow> ('w, 'e) node) \<Rightarrow> (string \<Rightarrow> ClientSearchRequest \<Rightarrow> ClientSearchResponse result) \<Rightarrow>
     ClientSearchRequest \<Rightarrow> ('w, 'e) node \<Rightarrow> ClientSearchResponse \<times> ('w, 'e) node" where
  "HandleClientSearch S rpc wait forward request n =
     (if \<not> IsLeader n
      then (let leader_addr = LeaderAddr n in
        if leader_addr \<noteq> [] \<and> leader_addr \<noteq> rn_self_addr n
        then (case forward leader_addr request of
            Ok reply \<Rightarrow> (reply, n) | Err _ \<Rightarrow> (search_reply False [] leader_addr, n))
        else (search_reply False [] leader_addr, n))
      else if cq_top_k request = 0 then (search_reply False ''top_k'' [], n)
      else case ParseFloatVectorBytes (cq_vector request) of
          Err e \<Rightarrow> (search_reply False (what e) [], n)
        | Ok vec \<Rightarrow>
            if length vec \<noteq> unat (vc_dim (cfg_vector (rn_config n)))
            then (search_reply False ''vector dimension'' [], n)
            else (case LeaseReadSearch S rpc wait (Some vec) (length vec) (unat (cq_top_k request)) n of
                (Err e, n) \<Rightarrow> (if IsLeader n then search_reply False (what e) []
                               else search_reply False [] (LeaderAddr n), n)
              | (Ok hits, n) \<Rightarrow> ((search_reply True [] [])\<lparr>ct_hits := hits\<rparr>, n)))"

end
