(* ===== verification/Voting.thy ===== *)
theory Voting
  imports RaftNode
begin

text \<open>
  What the nodes promise each other about votes, as an abstract machine: every voter has a term, a
  role and a vote in memory and a term and a vote on disk; votes that were granted and elections
  that were won are recorded for the whole run. The contract of quorums is the locale
  \<open>quorum_system\<close>, interpreted on majorities. \<open>Cluster\<close> shows that the nodes of
  \<^verbatim>\<open>raft_node.cpp\<close> implement this machine.
\<close>

section \<open>Quorums\<close>

locale quorum_system =
  fixes quorum :: "string set \<Rightarrow> bool"
  assumes quorums_meet: "quorum A \<Longrightarrow> quorum B \<Longrightarrow> \<exists>j. j \<in> A \<and> j \<in> B"

definition majority :: "string set \<Rightarrow> string set \<Rightarrow> bool" where
  "majority members Q \<longleftrightarrow> finite members \<and> Q \<subseteq> members \<and> card members < 2 * card Q"

interpretation majorities: quorum_system "majority members" for members
proof
  fix A B
  assume a: "majority members A" "majority members B"
  have f: "finite A" "finite B" "A \<union> B \<subseteq> members" "finite members"
    using a finite_subset [of _ members] unfolding majority_def by blast+
  have "card A + card B = card (A \<union> B) + card (A \<inter> B)" by (rule card_Un_Int [OF f(1,2)])
  moreover have "card (A \<union> B) \<le> card members" by (rule card_mono [OF f(4,3)])
  ultimately have "0 < card (A \<inter> B)" using a unfolding majority_def by linarith
  then have "A \<inter> B \<noteq> {}" by auto
  then show "\<exists>j. j \<in> A \<and> j \<in> B" by blast
qed

section \<open>One voter\<close>

type_synonym ballot = "nat \<times> RaftState \<times> string"

datatype move = Stay | Yield | Stand | Grant string | Lead

inductive voter :: "string \<Rightarrow> move \<Rightarrow> ballot \<times> RaftMeta \<Rightarrow> ballot \<times> RaftMeta \<Rightarrow> bool" for i where
  stay: "voter i Stay x x"
| saved_ahead: "t < rm_current_term m' \<Longrightarrow> voter i Stay ((t, r, v), m) ((t, r, v), m')"
| saved_vote: "v = [] \<or> v = c \<Longrightarrow>
    voter i Stay ((t, r, v), m) ((t, r, v), \<lparr>rm_current_term = t, rm_voted_for = c\<rparr>)"
| step_down: "t < t' \<Longrightarrow>
    voter i Stay ((t, r, v), m) ((t', StFollower, []), \<lparr>rm_current_term = t', rm_voted_for = []\<rparr>)"
| restart: "voter i Stay ((t, r, v), m) ((rm_current_term m, StFollower, rm_voted_for m), m)"
| not_saved: "voter i Yield x x"
| saved_yield: "r \<noteq> StFollower \<Longrightarrow>
    voter i Yield ((t, r, v), m) ((t, r, v), \<lparr>rm_current_term = t, rm_voted_for = []\<rparr>)"
| yield: "r \<noteq> StFollower \<Longrightarrow>
    voter i Yield ((t, r, v), m) ((t, StFollower, []), \<lparr>rm_current_term = t, rm_voted_for = []\<rparr>)"
| stand: "voter i Stand ((t, r, v), m)
    ((Suc t, StCandidate, i), \<lparr>rm_current_term = Suc t, rm_voted_for = i\<rparr>)"
| grant: "v = [] \<or> v = c \<Longrightarrow> voter i (Grant c) ((t, r, v), m)
    ((t, StFollower, c), \<lparr>rm_current_term = t, rm_voted_for = c\<rparr>)"
| lead: "voter i Lead ((t, StCandidate, v), m) ((t, StLeader, v), m)"

inductive_cases voter_StayE: "voter i Stay x y"
inductive_cases voter_YieldE: "voter i Yield x y"
inductive_cases voter_StandE: "voter i Stand x y"
inductive_cases voter_GrantE: "voter i (Grant c) x y"
inductive_cases voter_LeadE: "voter i Lead x y"

section \<open>All voters\<close>

record votes =
  vt :: "string \<Rightarrow> ballot \<times> RaftMeta"
  granted :: "(nat \<times> string \<times> string) set"
  elected :: "(nat \<times> string) set"

abbreviation term_of :: "ballot \<times> RaftMeta \<Rightarrow> nat" where "term_of x \<equiv> fst (fst x)"

definition supporters :: "votes \<Rightarrow> nat \<Rightarrow> string \<Rightarrow> string set" where
  "supporters s t l = insert l {j. (t, j, l) \<in> granted s}"

inductive election :: "(string set \<Rightarrow> bool) \<Rightarrow> votes \<Rightarrow> votes \<Rightarrow> bool" for quorum where
  e_stay: "voter i Stay (vt s i) x \<Longrightarrow> election quorum s (s\<lparr>vt := (vt s)(i := x)\<rparr>)"
| e_yield: "voter i Yield (vt s i) x \<Longrightarrow> (term_of (vt s i), l) \<in> elected s \<Longrightarrow> l \<noteq> i \<Longrightarrow>
    election quorum s (s\<lparr>vt := (vt s)(i := x)\<rparr>)"
| e_stand: "voter i Stand (vt s i) x \<Longrightarrow> i \<noteq> [] \<Longrightarrow> election quorum s (s\<lparr>vt := (vt s)(i := x)\<rparr>)"
| e_grant: "voter i (Grant c) (vt s i) x \<Longrightarrow> c \<noteq> i \<Longrightarrow> c \<noteq> [] \<Longrightarrow> i \<noteq> [] \<Longrightarrow>
    election quorum s (s\<lparr>vt := (vt s)(i := x), granted := insert (term_of (vt s i), i, c) (granted s)\<rparr>)"
| e_lead: "voter i Lead (vt s i) x \<Longrightarrow> quorum Q \<Longrightarrow> Q \<subseteq> supporters s (term_of (vt s i)) i \<Longrightarrow>
    election quorum s (s\<lparr>vt := (vt s)(i := x), elected := insert (term_of (vt s i), i) (elected s)\<rparr>)"

section \<open>The invariant\<close>

text \<open>What memory and disk of voter \<open>i\<close> say about what it granted and won.\<close>

definition voter_inv :: "votes \<Rightarrow> string \<Rightarrow> ballot \<times> RaftMeta \<Rightarrow> bool" where
  "voter_inv s i = (\<lambda>((t, r, v), m).
     t \<le> rm_current_term m \<and>
     (r = StFollower \<and> rm_current_term m = t \<longrightarrow> v = [] \<or> rm_voted_for m = v) \<and>
     (r = StCandidate \<longrightarrow> v = i \<and> i \<noteq> [] \<and>
        (rm_current_term m = t \<longrightarrow> rm_voted_for m = i \<or> (\<exists>l. l \<noteq> i \<and> (t, l) \<in> elected s))) \<and>
     (r = StLeader \<longrightarrow> (t, i) \<in> elected s) \<and>
     (\<forall>t' c. (t', i, c) \<in> granted s \<longrightarrow> t' \<le> t \<and> (t' = t \<longrightarrow> r = StFollower \<and> v = c)) \<and>
     (\<forall>t'. (t', i) \<in> elected s \<longrightarrow> t' \<le> t \<and>
        (t' = t \<longrightarrow> v = i \<and> (rm_current_term m = t \<longrightarrow> rm_voted_for m = i))))"

definition votes_inv :: "(string set \<Rightarrow> bool) \<Rightarrow> votes \<Rightarrow> bool" where
  "votes_inv quorum s \<longleftrightarrow>
     (\<forall>i. voter_inv s i (vt s i)) \<and>
     (\<forall>t j c c'. (t, j, c) \<in> granted s \<longrightarrow> (t, j, c') \<in> granted s \<longrightarrow> c = c') \<and>
     (\<forall>t j c. (t, j, c) \<in> granted s \<longrightarrow> c \<noteq> [] \<and> c \<noteq> j \<and> (t, j) \<notin> elected s) \<and>
     (\<forall>t l. (t, l) \<in> elected s \<longrightarrow> l \<noteq> [] \<and> (\<exists>Q. quorum Q \<and> Q \<subseteq> supporters s t l))"

context quorum_system
begin

lemma elected_unique:
  assumes "votes_inv quorum s" and "(t, l) \<in> elected s" and "(t, l') \<in> elected s"
  shows "l = l'"
proof -
  have q: "\<exists>Q. quorum Q \<and> Q \<subseteq> supporters s t k" if "(t, k) \<in> elected s" for k
    using assms(1) that unfolding votes_inv_def by blast
  have g: "c = c'" if "(t, j, c) \<in> granted s" "(t, j, c') \<in> granted s" for j c c'
    using assms(1) that unfolding votes_inv_def by blast
  have n: "(t, k, c) \<notin> granted s" if "(t, k) \<in> elected s" for k c
    using assms(1) that unfolding votes_inv_def by blast
  obtain j where "j \<in> supporters s t l" "j \<in> supporters s t l'"
    using q [OF assms(2)] q [OF assms(3)] quorums_meet by (meson subsetD)
  then show ?thesis
    using g [of j l l'] n [OF assms(2), of l'] n [OF assms(3), of l] unfolding supporters_def by auto
qed

lemma stay_inv:
  assumes "voter_inv s i x" and "voter i Stay x y"
    and g: "\<And>t c. (t, i, c) \<in> granted s \<Longrightarrow> c \<noteq> []" and e: "\<And>t. (t, i) \<in> elected s \<Longrightarrow> i \<noteq> []"
  shows "voter_inv s i y"
  using assms(2)
proof cases
  case stay
  then show ?thesis using assms(1) by simp
next
  case (saved_ahead t m' r v m)
  then show ?thesis using assms(1) by (simp add: voter_inv_def)
next
  case (saved_vote v c t r m)
  then show ?thesis using assms(1) e by (cases r) (auto simp: voter_inv_def)
next
  case (step_down t t' r v m)
  then show ?thesis using assms(1) by (fastforce simp: voter_inv_def)
next
  case (restart t r v m)
  have a: "t \<le> rm_current_term m"
    and f: "r = StFollower \<and> rm_current_term m = t \<longrightarrow> v = [] \<or> rm_voted_for m = v"
    and gr: "(t', i, c) \<in> granted s \<longrightarrow> t' \<le> t \<and> (t' = t \<longrightarrow> r = StFollower \<and> v = c)"
    and el: "(t', i) \<in> elected s \<longrightarrow> t' \<le> t \<and>
        (t' = t \<longrightarrow> v = i \<and> (rm_current_term m = t \<longrightarrow> rm_voted_for m = i))" for t' c
    using assms(1) restart(1) by (simp_all add: voter_inv_def)
  have "t' \<le> rm_current_term m \<and> (t' = rm_current_term m \<longrightarrow> rm_voted_for m = c)"
    if "(t', i, c) \<in> granted s" for t' c
    using that gr [of t' c] f a g [OF that] by (cases "t' = t") auto
  moreover have "t' \<le> rm_current_term m \<and> (t' = rm_current_term m \<longrightarrow> rm_voted_for m = i)"
    if "(t', i) \<in> elected s" for t'
    using that el [of t'] a by (cases "t' = t") auto
  ultimately show ?thesis using restart(2) by (simp add: voter_inv_def)
qed

lemma yield_inv:
  assumes "voter_inv s i x" and "voter i Yield x y" and "(term_of x, l) \<in> elected s" and "l \<noteq> i"
    and "(term_of x, i) \<notin> elected s"
  shows "voter_inv s i y"
  using assms(2,1,3,4,5) by (cases rule: voter_YieldE) (auto simp: voter_inv_def)

lemma stand_inv: "voter_inv s i x \<Longrightarrow> voter i Stand x y \<Longrightarrow> i \<noteq> [] \<Longrightarrow> voter_inv s i y"
  by (erule voter_StandE) (fastforce simp: voter_inv_def)

text \<open>A voter that may grant its vote neither stands nor was elected in its term.\<close>

lemma grant_follower:
  assumes "voter_inv s i ((t, r, v), m)" and "v = [] \<or> v = c" and "c \<noteq> i" and "i \<noteq> []"
  shows "r = StFollower \<and> (t, i) \<notin> elected s"
proof (cases r)
  case StLeader
  then have "(t, i) \<in> elected s" using assms(1) by (simp add: voter_inv_def)
  then have "v = i" using assms(1) by (simp add: voter_inv_def)
  then show ?thesis using assms StLeader by auto
qed (use assms in \<open>auto simp: voter_inv_def\<close>)

lemma voter_inv_other:
  assumes "voter_inv s j x" and "granted s' \<inter> {(t, k, c). k = j} = granted s \<inter> {(t, k, c). k = j}"
    and "elected s \<subseteq> elected s'" and "\<And>t. (t, j) \<in> elected s' \<Longrightarrow> (t, j) \<in> elected s"
  shows "voter_inv s' j x"
proof -
  have g: "(t, j, c) \<in> granted s' \<longleftrightarrow> (t, j, c) \<in> granted s" for t c
    using assms(2) by blast
  have e: "(t, j) \<in> elected s' \<longleftrightarrow> (t, j) \<in> elected s" for t using assms(3,4) by blast
  obtain t r v m where x: "x = ((t, r, v), m)" by (metis prod.exhaust)
  show ?thesis
    using assms(1,3) unfolding x voter_inv_def prod.case g e by blast
qed

lemma votes_inv_parts:
  assumes "votes_inv quorum s"
  shows "voter_inv s i (vt s i)" and "(t, j, c) \<in> granted s \<Longrightarrow> (t, j, c') \<in> granted s \<Longrightarrow> c = c'"
    and "(t, j, c) \<in> granted s \<Longrightarrow> c \<noteq> [] \<and> c \<noteq> j \<and> (t, j) \<notin> elected s"
    and "(t, l) \<in> elected s \<Longrightarrow> l \<noteq> [] \<and> (\<exists>Q. quorum Q \<and> Q \<subseteq> supporters s t l)"
  using assms unfolding votes_inv_def by blast+

lemma votes_inv_vt:
  assumes "votes_inv quorum s" and "voter_inv s i x"
  shows "votes_inv quorum (s\<lparr>vt := (vt s)(i := x)\<rparr>)"
proof -
  have "voter_inv (s\<lparr>vt := f\<rparr>) j y = voter_inv s j y" for f j y
    by (simp add: voter_inv_def)
  moreover have "supporters (s\<lparr>vt := f\<rparr>) = supporters s" for f
    by (intro ext) (simp add: supporters_def)
  ultimately show ?thesis using assms by (simp add: votes_inv_def)
qed

lemma grant_inv:
  assumes inv: "votes_inv quorum s" and g: "voter i (Grant c) (vt s i) x" and "c \<noteq> i" "c \<noteq> []" and "i \<noteq> []"
  shows "votes_inv quorum (s\<lparr>vt := (vt s)(i := x), granted := insert (term_of (vt s i), i, c) (granted s)\<rparr>)"
    (is "votes_inv quorum ?s")
proof -
  obtain t r v m where x: "vt s i = ((t, r, v), m)" "v = [] \<or> v = c"
      "x = ((t, StFollower, c), \<lparr>rm_current_term = t, rm_voted_for = c\<rparr>)"
    using g by cases
  note vi = votes_inv_parts(1) [OF inv, of i, unfolded x(1)]
  have rf: "r = StFollower" "(t, i) \<notin> elected s"
    using grant_follower [OF vi x(2) assms(3)] assms(5) by auto
  have same: "c' = c" if "(t, i, c') \<in> granted s" for c'
    using vi that x(2) votes_inv_parts(3) [OF inv that] by (simp add: voter_inv_def)
  have "voter_inv ?s i x"
    using vi rf same by (auto simp: voter_inv_def x(1,3))
  moreover have "voter_inv ?s j (vt s j)" if "j \<noteq> i" for j
    by (rule voter_inv_other [OF votes_inv_parts(1) [OF inv, of j]]) (use that in auto)
  ultimately have "\<forall>j. voter_inv ?s j (vt ?s j)" by simp
  moreover have "\<forall>t' j c1 c2. (t', j, c1) \<in> granted ?s \<longrightarrow> (t', j, c2) \<in> granted ?s \<longrightarrow> c1 = c2"
    using votes_inv_parts(2) [OF inv] same by (simp add: x(1))
  moreover have "\<forall>t' j c1. (t', j, c1) \<in> granted ?s \<longrightarrow> c1 \<noteq> [] \<and> c1 \<noteq> j \<and> (t', j) \<notin> elected ?s"
    using votes_inv_parts(3) [OF inv] assms(3,4) rf(2) by (simp add: x(1))
  moreover have "\<forall>t' l. (t', l) \<in> elected ?s \<longrightarrow> l \<noteq> [] \<and> (\<exists>Q. quorum Q \<and> Q \<subseteq> supporters ?s t' l)"
  proof (intro allI impI)
    fix t' l
    assume "(t', l) \<in> elected ?s"
    then obtain Q where "l \<noteq> []" "quorum Q" "Q \<subseteq> supporters s t' l"
      using votes_inv_parts(4) [OF inv, of t' l] by auto
    moreover have "supporters s t' l \<subseteq> supporters ?s t' l" by (auto simp: supporters_def)
    ultimately show "l \<noteq> [] \<and> (\<exists>Q. quorum Q \<and> Q \<subseteq> supporters ?s t' l)" by blast
  qed
  ultimately show ?thesis unfolding votes_inv_def by blast
qed

lemma lead_inv:
  assumes inv: "votes_inv quorum s" and g: "voter i Lead (vt s i) x"
    and Q: "quorum Q" "Q \<subseteq> supporters s (term_of (vt s i)) i"
  shows "votes_inv quorum (s\<lparr>vt := (vt s)(i := x), elected := insert (term_of (vt s i), i) (elected s)\<rparr>)"
    (is "votes_inv quorum ?s")
proof -
  obtain t v m where x: "vt s i = ((t, StCandidate, v), m)" "x = ((t, StLeader, v), m)" using g by cases
  note vi = votes_inv_parts(1) [OF inv, of i, unfolded x(1)]
  have v: "v = i" "i \<noteq> []" using vi by (simp_all add: voter_inv_def)
  have ng: "(t, i, c) \<notin> granted s" for c using vi by (auto simp: voter_inv_def)
  have sup: "supporters ?s = supporters s" by (intro ext) (simp add: supporters_def)
  have only: "l = i" if el: "(t, l) \<in> elected s" for l
  proof -
    obtain Q' where "quorum Q'" "Q' \<subseteq> supporters s t l" using votes_inv_parts(4) [OF inv el] by blast
    then obtain j where "j \<in> supporters s t l" "j \<in> supporters s t i"
      using Q x(1) quorums_meet by (metis fst_conv subsetD)
    then show ?thesis
      using ng votes_inv_parts(2,3) [OF inv] el unfolding supporters_def by blast
  qed
  have "voter_inv ?s i x" using vi only v ng by (auto simp: voter_inv_def x)
  moreover have "voter_inv ?s j (vt s j)" if "j \<noteq> i" for j
    by (rule voter_inv_other [OF votes_inv_parts(1) [OF inv, of j]]) (use that in auto)
  ultimately have "\<forall>j. voter_inv ?s j (vt ?s j)" by simp
  moreover have "\<forall>t' j c c'. (t', j, c) \<in> granted ?s \<longrightarrow> (t', j, c') \<in> granted ?s \<longrightarrow> c = c'"
    using votes_inv_parts(2) [OF inv] by simp
  moreover have "\<forall>t' j c. (t', j, c) \<in> granted ?s \<longrightarrow> c \<noteq> [] \<and> c \<noteq> j \<and> (t', j) \<notin> elected ?s"
    using votes_inv_parts(3) [OF inv] ng by (auto simp: x(1))
  moreover have "\<forall>t' l. (t', l) \<in> elected ?s \<longrightarrow> l \<noteq> [] \<and> (\<exists>Q. quorum Q \<and> Q \<subseteq> supporters ?s t' l)"
    using votes_inv_parts(4) [OF inv] Q v(2) unfolding sup by (auto simp: x(1))
  ultimately show ?thesis unfolding votes_inv_def by blast
qed

lemma election_inv:
  assumes "votes_inv quorum s" and "election quorum s s'"
  shows "votes_inv quorum s'"
  using assms(2)
proof cases
  case (e_stay i x)
  then show ?thesis
    using votes_inv_vt [OF assms(1)] stay_inv [OF votes_inv_parts(1) [OF assms(1)]] votes_inv_parts(3,4) [OF assms(1)]
    by blast
next
  case (e_yield i x l)
  then have "(term_of (vt s i), i) \<notin> elected s" using elected_unique [OF assms(1)] by blast
  then show ?thesis
    using e_yield votes_inv_vt [OF assms(1)] yield_inv [OF votes_inv_parts(1) [OF assms(1)]] by blast
next
  case (e_stand i x)
  then show ?thesis
    using votes_inv_vt [OF assms(1)] stand_inv [OF votes_inv_parts(1) [OF assms(1)]] by blast
next
  case (e_grant i c x)
  then show ?thesis using grant_inv [OF assms(1)] by blast
next
  case (e_lead i x Q)
  then show ?thesis using lead_inv [OF assms(1)] by blast
qed

end

end
