(* ===== verification/RaftBallot.thy ===== *)
theory RaftBallot
  imports RaftReplication RaftApply Voting
begin

text \<open>
  Votes and terms of one node: what every operation of \<open>RaftNode\<close> and \<open>RaftLeader\<close> does to the
  term, the role, the vote and the metadata file. The metadata file is seen through the locale
  \<open>meta_store\<close>, which is interpreted on \<^verbatim>\<open>RaftMeta::Save\<close> and \<^verbatim>\<open>RaftMeta::Load\<close>.
\<close>

section \<open>The metadata file as a store\<close>

locale meta_store =
  fixes save :: "RaftMeta \<Rightarrow> ('d, unit) prog" and load :: "('d, RaftMeta) prog"
    and holds :: "'d \<Rightarrow> RaftMeta \<Rightarrow> bool" and valid :: "RaftMeta \<Rightarrow> bool"
  assumes save_outcome: "holds d m \<Longrightarrow> valid m' \<Longrightarrow> save m' d = (r, d') \<Longrightarrow>
      holds d' m' \<or> holds d' m \<and> (\<exists>e. r = Err e)"
    and load_outcome: "holds d m \<Longrightarrow> load d = (Ok m', d') \<Longrightarrow> m' = m \<and> holds d' m"
begin

lemma save_ok: "holds d m \<Longrightarrow> valid m' \<Longrightarrow> save m' d = (Ok u, d') \<Longrightarrow> holds d' m'"
  using save_outcome [of d m m' "Ok u" d'] by auto

lemma save_err: "holds d m \<Longrightarrow> valid m' \<Longrightarrow> save m' d = (Err e, d') \<Longrightarrow> holds d' m \<or> holds d' m'"
  using save_outcome [of d m m' "Err e" d'] by auto

lemma load_after_save:
  "holds d m \<Longrightarrow> valid m' \<Longrightarrow> save m' d = (Ok u, d') \<Longrightarrow> load d' = (Ok m'', d'') \<Longrightarrow> m'' = m'"
  using save_ok load_outcome by blast

end

definition meta_valid :: "RaftMeta \<Rightarrow> bool" where
  "meta_valid m \<longleftrightarrow> rm_current_term m < 2 ^ 64 \<and> ascii (rm_voted_for m)"

definition meta_holds :: "codec \<Rightarrow> path \<Rightarrow> os \<Rightarrow> RaftMeta \<Rightarrow> bool" where
  "meta_holds c p s m \<longleftrightarrow> codec_ok c \<and> (case map_of (os_files s) p of
     None \<Rightarrow> m = default_RaftMeta | Some b \<Rightarrow> parse_RaftMeta c b = Some (RaftMeta_toProto m))"

lemma toProto_inj [simp]: "RaftMeta_toProto m = RaftMeta_toProto m' \<longleftrightarrow> m = m'"
  by (auto simp: RaftMeta_toProto_def)

lemma meta_holds_unique: "meta_holds c p s m \<Longrightarrow> meta_holds c p s m' \<Longrightarrow> m = m'"
  by (auto simp: meta_holds_def split: option.splits)

lemma meta_holds_same: "meta_holds c p s m \<Longrightarrow> same p s s' \<Longrightarrow> meta_holds c p s' m"
  by (simp add: meta_holds_def same_def)

lemma pread_prefix:
  assumes "sys_pread p off n s = (Ok (Some b), s')"
  shows "b = take (length b) (drop off (content s p)) \<and> os_files s' = os_files s"
proof -
  obtain x s1 where x: "next_io s = (x, s1)" by (cases "next_io s")
  then show ?thesis
    using assms content_next_io [OF x] os_files_next_io [OF x]
    by (cases x) (auto simp: sys_pread_def min_def)
qed

lemma pread_intr_files: "sys_pread p off n s = (Ok None, s') \<Longrightarrow> os_files s' = os_files s"
  by (auto simp: sys_pread_def os_files_next_io split: prod.splits io_outcome.splits)

lemma take_append_drop: "a = take (length a) xs \<Longrightarrow> b = take (length b) (drop (length a) xs) \<Longrightarrow>
  a @ b = take (length (a @ b)) xs"
  by (metis length_append take_add)

lemma ReadExactly_prefix:
  assumes "acc = take (length acc) (drop off (content s p))" and "ReadExactly p off sz acc s = (Ok b, s')"
  shows "b = take (length b) (drop off (content s p)) \<and> os_files s' = os_files s"
  using assms
proof (induction p off sz acc s rule: ReadExactly.induct)
  case (1 p off sz acc s)
  show ?case
  proof (cases "length acc < sz")
    case False
    then show ?thesis using 1(3,4) by (simp add: ReadExactly.simps)
  next
    case True
    obtain r s1 where r: "sys_pread p (off + length acc) (sz - length acc) s = (r, s1)"
      by (cases "sys_pread p (off + length acc) (sz - length acc) s")
    consider e where "r = Err e" | "r = Ok None" | c where "r = Ok (Some c)"
      by (metis option.exhaust sum.exhaust)
    then show ?thesis
    proof cases
      case 1
      then show ?thesis using "1.prems"(2) True r by (subst (asm) ReadExactly.simps) simp
    next
      case 2
      note f = pread_intr_files [OF r [unfolded 2]]
      then have c: "content s1 p = content s p" by (simp add: content_def)
      have "ReadExactly p off sz acc s1 = (Ok b, s')"
        using "1.prems"(2) True r 2 by (subst (asm) ReadExactly.simps) simp
      then show ?thesis
        using "1.IH"(1) [OF True r [symmetric]] 2 "1.prems"(1) f c by simp
    next
      case (3 ch)
      note f = pread_prefix [OF r [unfolded 3]]
      then have c: "content s1 p = content s p" by (simp add: content_def)
      have "acc @ ch = take (length (acc @ ch)) (drop off (content s p))"
      proof (rule take_append_drop [OF "1.prems"(1)])
        show "ch = take (length ch) (drop (length acc) (drop off (content s p)))"
          using f unfolding drop_drop by (simp only: add.commute)
      qed
      moreover have "if ch = [] then (Ok acc, s1) = (Ok b, s') else ReadExactly p off sz (acc @ ch) s1 = (Ok b, s')"
        using "1.prems"(2) True r 3 by (subst (asm) ReadExactly.simps) (simp split: if_splits)
      ultimately show ?thesis
      proof (cases "ch = []")
        case False
        have "acc @ ch = take (length (acc @ ch)) (drop off (content s1 p))"
          unfolding c by (fact \<open>acc @ ch = _\<close>)
        moreover have "ReadExactly p off sz (acc @ ch) s1 = (Ok b, s')"
          using False \<open>if ch = [] then _ else _\<close> by simp
        ultimately have "b = take (length b) (drop off (content s1 p)) \<and> os_files s' = os_files s1"
          by (rule "1.IH"(2) [OF True r [symmetric] 3 refl False])
        then show ?thesis using f c by simp
      qed (use "1.prems"(1) f in simp)
    qed
  qed
qed

lemma load_holds:
  assumes h: "meta_holds c p s m" and l: "RaftMeta_Load c p s = (Ok m', s')"
  shows "m' = m \<and> meta_holds c p s' m"
proof (cases "file_exists s p")
  case False
  then show ?thesis using h l by (auto simp: RaftMeta_Load_def file_exists_def meta_holds_def)
next
  case True
  then obtain b where b: "map_of (os_files s) p = Some b" by (auto simp: file_exists_def)
  obtain r1 s1 where o: "sys_open False False p s = (r1, s1)" by (cases "sys_open False False p s")
  have f1: "os_files s1 = os_files s"
    using o by (auto simp: sys_open_def sys_call_def os_files_next_io split: prod.splits io_outcome.splits if_splits)
  obtain r2 s2 where r: "ReadExactly p 0 (length b) [] s1 = (r2, s2)" by (cases "ReadExactly p 0 (length b) [] s1")
  obtain r3 s3 where cl: "sys_close s2 = (r3, s3)" by (cases "sys_close s2")
  have f3: "os_files s3 = os_files s2"
    using sys_ret_files [of CloseFailed "()" s2] cl unfolding sys_close_def by simp
  have c: "content s p = b" "content s1 p = b" using b f1 by (simp_all add: content_def)
  obtain x where x: "r2 = Ok x" "length x = length b" "s' = s3"
      "(case parse_RaftMeta c x of None \<Rightarrow> Err (ProtoParseFailed ''RaftMeta'')
        | Some record \<Rightarrow> Ok \<lparr>rm_current_term = pm_current_term record, rm_voted_for = pm_voted_for record\<rparr>) = Ok m'"
    using l True o r cl c
    by (auto simp: RaftMeta_Load_def andThen_def Let_def throw_def ret_def split: sum.splits if_splits option.splits prod.splits)
  have "x = take (length x) b" and f2: "os_files s2 = os_files s1"
    using ReadExactly_prefix [of "[]" 0 s1 p "length b" x s2] r x(1) c by simp_all
  then have xb: "x = b" using x(2) by simp
  then have "m' = m" using x(4) h b
    by (cases "parse_RaftMeta c b") (auto simp: meta_holds_def RaftMeta_toProto_def)
  moreover have "meta_holds c p s' m" using h f1 f2 f3 x(3) by (simp add: meta_holds_def)
  ultimately show ?thesis by simp
qed

interpretation meta_file: meta_store "\<lambda>m. RaftMeta_Save c m p" "RaftMeta_Load c p" "meta_holds c p" meta_valid
proof
  fix d m m' r d'
  assume h: "meta_holds c p d m" and v: "meta_valid m'" and s: "RaftMeta_Save c m' p d = (r, d')"
  have b: "parse_RaftMeta c b = Some (RaftMeta_toProto m')" if "ser_RaftMeta c (RaftMeta_toProto m') = Some b" for b
    using codec_meta [of c "RaftMeta_toProto m'"] h v that
    by (auto simp: meta_holds_def meta_valid_def RaftMeta_toProto_def)
  show "meta_holds c p d' m' \<or> meta_holds c p d' m \<and> (\<exists>e. r = Err e)"
    using Save_atomic [OF s] meta_holds_same [OF h] b h by (auto simp: meta_holds_def replaced_def)
next
  fix d m m' d'
  assume "meta_holds c p d m" "RaftMeta_Load c p d = (Ok m', d')"
  then show "m' = m \<and> meta_holds c p d' m" by (rule load_holds)
qed

section \<open>What leaves votes alone\<close>

text \<open>The part of a node that elections read and write, and its files.\<close>

definition vote_core :: "('w, 'e) node \<Rightarrow> Config \<times> string \<times> nat \<times> RaftState \<times> string \<times> os" where
  "vote_core n = (rn_config n, rn_self_id n, rn_current_term n, rn_state n, rn_voted_for n, rn_os n)"

lemma vote_core_iff: "vote_core n = vote_core n' \<longleftrightarrow>
  rn_config n = rn_config n' \<and> rn_self_id n = rn_self_id n' \<and> rn_current_term n = rn_current_term n' \<and>
  rn_state n = rn_state n' \<and> rn_voted_for n = rn_voted_for n' \<and> rn_os n = rn_os n'"
  by (simp add: vote_core_def)

lemma core_updates [simp]:
  "vote_core (n\<lparr>rn_wal := w\<rparr>) = vote_core n" "vote_core (n\<lparr>rn_topology := tp\<rparr>) = vote_core n"
  "vote_core (n\<lparr>rn_leader_id := l\<rparr>) = vote_core n" "vote_core (n\<lparr>rn_lease := le\<rparr>) = vote_core n"
  "vote_core (n\<lparr>rn_peer_progress := pp\<rparr>) = vote_core n" "vote_core (n\<lparr>rn_commit_index := i\<rparr>) = vote_core n"
  "vote_core (n\<lparr>rn_applied_index := i\<rparr>) = vote_core n" "vote_core (n\<lparr>rn_flushed_index := i\<rparr>) = vote_core n"
  "vote_core (n\<lparr>rn_forwards := fs\<rparr>) = vote_core n" "vote_core (n\<lparr>rn_now := now\<rparr>) = vote_core n"
  "vote_core (n\<lparr>rn_replicate_requested := b\<rparr>) = vote_core n"
  "vote_core (n\<lparr>rn_heartbeat_requested := b\<rparr>) = vote_core n"
  "vote_core (n\<lparr>rn_topology_refresh_requested := b\<rparr>) = vote_core n"
  "vote_core (n\<lparr>rn_last_topology_refresh := now\<rparr>) = vote_core n"
  "vote_core (n\<lparr>rn_dedup := t\<rparr>) = vote_core n" "vote_core (n\<lparr>rn_meta := m\<rparr>) = vote_core n"
  "vote_core (n\<lparr>rn_vector_index := vi\<rparr>) = vote_core n"
  "vote_core (n\<lparr>rn_notified := x\<rparr>) = vote_core n" "vote_core (n\<lparr>rn_commit_listeners := y\<rparr>) = vote_core n"
  "vote_core (n\<lparr>rn_snapshot_in_progress := b\<rparr>) = vote_core n" "vote_core (n\<lparr>rn_snapshot_task := st\<rparr>) = vote_core n"
  by (simp_all add: vote_core_def)

lemma core_helpers [simp]:
  "vote_core (onTopology f n) = vote_core n" "vote_core (RequestReplication n) = vote_core n"
  "vote_core (RequestImmediateHeartbeat n) = vote_core n" "vote_core (ResetElectionDeadlineLocked n) = vote_core n"
  "vote_core (NoteLeaderContactLocked n) = vote_core n" "vote_core (ResetPeerProgressLocked i n) = vote_core n"
  "vote_core (advance_commit S i n) = vote_core n" "vote_core (queue_forward q n) = vote_core n"
  "vote_core (set_progress p pr n) = vote_core n" "vote_core (UpdatePeerFailure p i n) = vote_core n"
  "vote_core (UpdatePeerHeartbeatAck p tm n) = vote_core n" "vote_core (UpdatePeerAck S p i tm n) = vote_core n"
  "vote_core (track_request c e i n) = vote_core n"
  by (simp_all add: onTopology_def RequestReplication_def RequestImmediateHeartbeat_def NoteLeaderContactLocked_def
      ResetElectionDeadlineLocked_def ResetPeerProgressLocked_def advance_commit_def queue_forward_def
      set_progress_def UpdatePeerFailure_def UpdatePeerHeartbeatAck_def UpdatePeerAck_def track_request_def Let_def
      vote_core_def split: prod.splits sum.splits)

lemma core_onLog: "onLog m n = (r, n') \<Longrightarrow> vote_core n' = vote_core n"
  by (auto simp: onLog_def split: prod.splits)

lemma core_TermAtLogicalIndex: "TermAtLogicalIndex S i n = (r, n') \<Longrightarrow> vote_core n' = vote_core n"
  by (auto simp: TermAtLogicalIndex_def dest: core_onLog split: if_splits)

lemma core_LastLogTermLocked: "LastLogTermLocked S n = (t, n') \<Longrightarrow> vote_core n' = vote_core n"
  by (auto simp: LastLogTermLocked_def Let_def dest: core_TermAtLogicalIndex split: if_splits prod.splits sum.splits)

lemma core_UpToDate: "IsCandidateLogUpToDateLocked S i t n = (b, n') \<Longrightarrow> vote_core n' = vote_core n"
  by (auto simp: IsCandidateLogUpToDateLocked_def Let_def dest: core_LastLogTermLocked split: prod.splits)

lemma core_AppendEntryLocked: "AppendEntryLocked S e n = (r, n') \<Longrightarrow> vote_core n' = vote_core n"
  by (auto simp: AppendEntryLocked_def Let_def andThen_def dest!: core_onLog split: prod.splits sum.splits)

lemma core_accept_topology: "accept_topology i n = (r, n') \<Longrightarrow> vote_core n' = vote_core n"
  by (auto simp: accept_topology_def split: if_splits prod.splits)

lemma core_conflict_scan: "conflict_scan S si t c n = (r, n') \<Longrightarrow> vote_core n' = vote_core n"
proof (induction S si t c n rule: conflict_scan.induct)
  case (2 S si t c n)
  obtain x n1 where x: "onLog (lo_Read (sv_log S) c) n = (x, n1)" by (cases "onLog (lo_Read (sv_log S) c) n")
  then show ?case using 2 core_onLog [OF x] by (auto split: if_splits sum.splits)
qed simp

lemma core_check_prev: "check_prev S q n = (r, n') \<Longrightarrow> vote_core n' = vote_core n"
  by (auto simp: check_prev_def Let_def dest!: core_TermAtLogicalIndex core_conflict_scan
      split: if_splits prod.splits sum.splits)

lemma core_commit_scan: "commit_scan S i c n = (r, n') \<Longrightarrow> vote_core n' = vote_core n"
proof (induction S i c n rule: commit_scan.induct)
  case (2 S i c n)
  obtain x n1 where x: "TermAtLogicalIndex S (Suc c) n = (x, n1)" by (cases "TermAtLogicalIndex S (Suc c) n")
  then show ?case using 2 core_TermAtLogicalIndex [OF x] by (auto split: if_splits sum.splits)
qed simp

lemma core_MaybeCommit: "MaybeCommit S n = (r, n') \<Longrightarrow> vote_core n' = vote_core n"
  by (auto simp: MaybeCommit_def andThen_def dest!: core_commit_scan split: if_splits prod.splits sum.splits)

lemma core_Propose: "Propose S e n = (r, n') \<Longrightarrow> vote_core n' = vote_core n"
  by (auto simp: Propose_def Let_def andThen_def dest!: core_onLog split: if_splits prod.splits sum.splits)

section \<open>What changes votes\<close>

definition ballot :: "('w, 'e) node \<Rightarrow> ballot" where
  "ballot n = (rn_current_term n, rn_state n, rn_voted_for n)"

definition ident :: "('w, 'e) node \<Rightarrow> Config \<times> string" where
  "ident n = (rn_config n, rn_self_id n)"

definition disk :: "('w, 'e) services \<Rightarrow> ('w, 'e) node \<Rightarrow> RaftMeta \<Rightarrow> bool" where
  "disk S n m \<longleftrightarrow> meta_holds (sv_codec S) (MetaPath n) (rn_os n) m"

text \<open>The node makes a move of the abstract voter.\<close>

definition moves :: "('w, 'e) services \<Rightarrow> move \<Rightarrow> ('w, 'e) node \<Rightarrow> ('w, 'e) node \<Rightarrow> bool" where
  "moves S a n n' \<longleftrightarrow> ident n' = ident n \<and>
     (\<forall>m. disk S n m \<longrightarrow> (\<exists>m'. disk S n' m' \<and> voter (rn_self_id n) a (ballot n, m) (ballot n', m')))"

lemma core_determines:
  assumes "vote_core n = vote_core n'"
  shows "ballot n = ballot n'" "ident n = ident n'" "disk S n = disk S n'" "rn_self_id n = rn_self_id n'"
    "rn_current_term n = rn_current_term n'" "rn_state n = rn_state n'" "rn_voted_for n = rn_voted_for n'"
  using assms by (auto simp: vote_core_def ballot_def ident_def disk_def MetaPath_def fun_eq_iff)

lemma moves_core: "vote_core n' = vote_core n'' \<Longrightarrow> moves S a n n' \<longleftrightarrow> moves S a n n''"
  using core_determines(1,2,3) [of n' n''] by (simp add: moves_def)

lemma moves_core_left: "vote_core n = vote_core n'' \<Longrightarrow> moves S a n n' \<longleftrightarrow> moves S a n'' n'"
  using core_determines(1,2,3,4) [of n n''] by (simp add: moves_def)

lemma moves_stay [simp]: "moves S Stay n n"
  by (auto simp: moves_def intro: voter.stay)

lemma moves_same: "vote_core n' = vote_core n \<Longrightarrow> moves S Stay n n'"
  using moves_core [of n' n S Stay n] by simp

lemma ascii_Nil: "ascii []"
  by (simp add: ascii_def)

lemma moves_saved:
  assumes "ident n' = ident n" and "ballot n' = ballot n"
    and "\<forall>m. disk S n m \<longrightarrow> disk S n' new \<or> disk S n' m \<and> P"
    and "\<And>m. voter (rn_self_id n) a (ballot n, m) (ballot n, new)" and "\<And>x. voter (rn_self_id n) a x x"
  shows "moves S a n n'"
  using assms unfolding moves_def by metis

lemma Persist_effect:
  assumes "PersistMetaLocked S t v n = (r, n')" and "t < 2 ^ 64" and "ascii v"
  shows "ident n' = ident n \<and> ballot n' = ballot n \<and> rn_current_term n' = rn_current_term n \<and>
    (\<forall>m. disk S n m \<longrightarrow>
      disk S n' \<lparr>rm_current_term = t, rm_voted_for = v\<rparr> \<or> disk S n' m \<and> (\<exists>e. r = Err e))"
proof -
  let ?m = "\<lparr>rm_current_term = t, rm_voted_for = v\<rparr>"
  obtain r1 s1 where s: "RaftMeta_Save (sv_codec S) ?m (MetaPath n) (rn_os n) = (r1, s1)"
    by (cases "RaftMeta_Save (sv_codec S) ?m (MetaPath n) (rn_os n)")
  have v: "meta_valid ?m" using assms(2,3) by (simp add: meta_valid_def)
  have n': "rn_os n' = s1" "rn_config n' = rn_config n" "rn_self_id n' = rn_self_id n" "ballot n' = ballot n"
    and r: "\<forall>e. r1 = Err e \<longrightarrow> r = Err e" "rn_current_term n' = rn_current_term n"
    using assms(1) s by (auto simp: PersistMetaLocked_def Let_def onDisk_def ballot_def split: sum.splits)
  have p: "MetaPath n' = MetaPath n" using n'(2) by (simp add: MetaPath_def)
  have "disk S n' ?m \<or> disk S n' m \<and> (\<exists>e. r = Err e)" if "disk S n m" for m
    using meta_file.save_outcome [OF that [unfolded disk_def] v s] r(1) n'(1) unfolding disk_def p by blast
  then show ?thesis using n' r(2) by (auto simp: ident_def)
qed

lemma Follower_run:
  assumes "BecomeFollower S t l n = (r, n')" and "\<not> t < rn_current_term n" and "PersistMetaLocked S t [] n = (r1, n1)"
  shows "case r1 of Err x \<Rightarrow> r = Err x \<and> n' = n1
    | Ok _ \<Rightarrow> r = Ok () \<and> vote_core n' = vote_core (n1\<lparr>rn_current_term := t, rn_voted_for := [], rn_state := StFollower\<rparr>)"
proof (cases r1)
  case (Inr u)
  then have "r = Ok ()" "vote_core n' = vote_core (n1\<lparr>rn_current_term := t, rn_voted_for := [], rn_leader_id := l,
      rn_state := StFollower, rn_lease := Lease_Invalidate (rn_lease n1)\<rparr>)"
    using assms by (auto simp: BecomeFollower_def andThen_def)
  then show ?thesis using Inr by (simp add: vote_core_def)
qed (use assms in \<open>auto simp: BecomeFollower_def andThen_def\<close>)

lemma follow_effect:
  assumes "BecomeFollower S t l n = (r, n')" and "t < 2 ^ 64"
  shows "(if rn_current_term n < t then moves S Stay n n'
          else if t < rn_current_term n then n' = n
          else rn_state n \<noteq> StFollower \<longrightarrow> moves S Yield n n') \<and>
    (r = Ok () \<longrightarrow> ident n' = ident n \<and> rn_current_term n \<le> t \<and> ballot n' = (t, StFollower, []) \<and>
      (\<forall>m. disk S n m \<longrightarrow> disk S n' \<lparr>rm_current_term = t, rm_voted_for = []\<rparr>))"
proof (cases "t < rn_current_term n")
  case True
  then show ?thesis using assms(1) by (auto simp: BecomeFollower_def)
next
  case False
  obtain r1 n1 where p: "PersistMetaLocked S t [] n = (r1, n1)" by (cases "PersistMetaLocked S t [] n")
  note e = Persist_effect [OF p assms(2) ascii_Nil]
  note run = Follower_run [OF assms(1) False p]
  show ?thesis
  proof (cases r1)
    case (Inl x)
    then have n': "r = Err x" "n' = n1" using run by auto
    have "moves S Stay n n'" if "rn_current_term n < t"
      unfolding n'(2) by (rule moves_saved) (use e that in \<open>auto simp: ballot_def intro: voter.stay voter.saved_ahead\<close>)
    moreover have "moves S Yield n n'" if "rn_state n \<noteq> StFollower" "t = rn_current_term n"
      unfolding n'(2) by (rule moves_saved) (use e that in \<open>auto simp: ballot_def intro: voter.not_saved voter.saved_yield\<close>)
    ultimately show ?thesis using False n'(1) by auto
  next
    case (Inr u)
    have b: "ballot n' = (t, StFollower, [])" "ident n' = ident n" "disk S n' = disk S n1" "r = Ok ()"
      using run Inr e by (auto simp: vote_core_def ballot_def ident_def disk_def MetaPath_def fun_eq_iff)
    have d: "\<forall>m. disk S n m \<longrightarrow> disk S n' \<lparr>rm_current_term = t, rm_voted_for = []\<rparr>"
      using e b Inr by auto
    have "moves S Stay n n'" if "rn_current_term n < t"
      unfolding moves_def b using b(2) d b(3) that by (auto simp: ballot_def intro: voter.step_down)
    moreover have "moves S Yield n n'" if "rn_state n \<noteq> StFollower" "t = rn_current_term n"
      unfolding moves_def b using b(2) d b(3) that by (auto simp: ballot_def intro: voter.yield)
    ultimately show ?thesis using False b d by auto
  qed
qed

lemma Candidate_run:
  assumes "BecomeCandidate S n = (r, n')" and "PersistMetaLocked S (Suc (rn_current_term n)) (rn_self_id n) n = (r1, n1)"
  shows "case r1 of Err x \<Rightarrow> r = Err x \<and> n' = n1
    | Ok _ \<Rightarrow> r = Ok () \<and> vote_core n' = vote_core (n1\<lparr>rn_current_term := Suc (rn_current_term n),
        rn_voted_for := rn_self_id n1, rn_state := StCandidate\<rparr>)"
proof (cases r1)
  case (Inr u)
  then have "r = Ok ()" "vote_core n' = vote_core (n1\<lparr>rn_current_term := Suc (rn_current_term n),
      rn_voted_for := rn_self_id n1, rn_leader_id := [], rn_state := StCandidate,
      rn_lease := Lease_Invalidate (rn_lease n1)\<rparr>)"
    using assms by (auto simp: BecomeCandidate_def andThen_def Let_def)
  then show ?thesis using Inr by (simp add: vote_core_def)
qed (use assms in \<open>auto simp: BecomeCandidate_def andThen_def Let_def\<close>)

lemma stand_effect:
  assumes b: "StartElection_begin S n = (r, n')" and "Suc (rn_current_term n) < 2 ^ 64" and "ascii (rn_self_id n)"
  shows "case r of Err _ \<Rightarrow> moves S Stay n n'
    | Ok q \<Rightarrow> moves S Stand n n' \<and> vq_term q = Suc (rn_current_term n) \<and> vq_candidate_id q = rn_self_id n"
proof -
  obtain r0 n0 where c: "BecomeCandidate S n = (r0, n0)" by (cases "BecomeCandidate S n")
  obtain r1 n1 where p: "PersistMetaLocked S (Suc (rn_current_term n)) (rn_self_id n) n = (r1, n1)"
    by (cases "PersistMetaLocked S (Suc (rn_current_term n)) (rn_self_id n) n")
  note e = Persist_effect [OF p assms(2,3)] and run = Candidate_run [OF c p]
  show ?thesis
  proof (cases r1)
    case (Inl x)
    then have "r = Err x" "n' = n1" using run b c by (auto simp: StartElection_begin_def andThen_def)
    moreover have "moves S Stay n n1"
      by (rule moves_saved) (use e in \<open>auto simp: ballot_def intro: voter.stay voter.saved_ahead\<close>)
    ultimately show ?thesis by simp
  next
    case (Inr u)
    obtain t n2 where l: "LastLogTermLocked S n0 = (t, n2)" by (cases "LastLogTermLocked S n0")
    have r: "r = Ok \<lparr>vq_term = rn_current_term n0, vq_candidate_id = rn_self_id n0,
        vq_last_log_index = LogicalLastIndex S n0, vq_last_log_term = t\<rparr>" "n' = n2"
      using run Inr b c l by (auto simp: StartElection_begin_def andThen_def)
    have n0: "ballot n0 = (Suc (rn_current_term n), StCandidate, rn_self_id n)" "ident n0 = ident n"
        "disk S n0 = disk S n1" "rn_current_term n0 = Suc (rn_current_term n)" "rn_self_id n0 = rn_self_id n"
      using run Inr e by (auto simp: vote_core_def ballot_def ident_def disk_def MetaPath_def fun_eq_iff)
    have "moves S Stand n n0"
      unfolding moves_def using n0 e Inr by (auto simp: ballot_def intro: voter.stand)
    then show ?thesis
      using moves_core [OF core_LastLogTermLocked [OF l]] n0(4,5) r by simp
  qed
qed

lemma cast_effect:
  assumes c: "cast_vote S q n = (r, n')" and "vq_term q = rn_current_term n" and "vq_term q < 2 ^ 64"
    and "ascii (vq_candidate_id q)"
  shows "if \<exists>a. r = Ok a \<and> vs_vote_granted a then moves S (Grant (vq_candidate_id q)) n n' else moves S Stay n n'"
proof -
  let ?can = "rn_voted_for n = [] \<or> rn_voted_for n = vq_candidate_id q"
  obtain up n0 where u: "IsCandidateLogUpToDateLocked S (vq_last_log_index q) (vq_last_log_term q) n = (up, n0)"
    by (cases "IsCandidateLogUpToDateLocked S (vq_last_log_index q) (vq_last_log_term q) n")
  note k = core_determines [OF core_UpToDate [OF u]]
  show ?thesis
  proof (cases "?can \<and> up")
    case False
    then have "r = Ok \<lparr>vs_term = rn_current_term n0, vs_vote_granted = False\<rparr>" "n' = n0"
      using c u by (auto simp: cast_vote_def Let_def)
    then show ?thesis using moves_same [OF core_UpToDate [OF u]] by simp
  next
    case True
    obtain r1 n1 where p: "PersistMetaLocked S (vq_term q) (vq_candidate_id q) n0 = (r1, n1)"
      by (cases "PersistMetaLocked S (vq_term q) (vq_candidate_id q) n0")
    note e = Persist_effect [OF p assms(3,4)]
    show ?thesis
    proof (cases r1)
      case (Inl x)
      then have "r = Err x" "n' = n1" using True c u p by (auto simp: cast_vote_def Let_def andThen_def)
      moreover have "moves S Stay n n1"
        by (rule moves_saved [where new = "\<lparr>rm_current_term = vq_term q, rm_voted_for = vq_candidate_id q\<rparr>"])
          (use e k True assms(2) in \<open>auto simp: ballot_def intro: voter.stay voter.saved_vote\<close>)
      ultimately show ?thesis by simp
    next
      case (Inr w)
      then have r: "r = Ok \<lparr>vs_term = rn_current_term n1, vs_vote_granted = True\<rparr>"
          "vote_core n' = vote_core (n1\<lparr>rn_voted_for := vq_candidate_id q, rn_state := StFollower\<rparr>)"
        using True c u p by (auto simp: cast_vote_def Let_def andThen_def)
      then have n': "ballot n' = (vq_term q, StFollower, vq_candidate_id q)" "ident n' = ident n"
          "disk S n' = disk S n1"
        using e k assms(2) by (auto simp: vote_core_def ballot_def ident_def disk_def MetaPath_def fun_eq_iff)
      have "moves S (Grant (vq_candidate_id q)) n n'"
        unfolding moves_def using n' e k Inr True assms(2) by (auto simp: ballot_def intro: voter.grant)
      then show ?thesis using r by simp
    qed
  qed
qed

lemma vote_effect:
  assumes h: "HandleRequestVote S q n = (r, n')" and "vq_term q < 2 ^ 64" and "ascii (vq_candidate_id q)"
  shows "\<exists>n1. moves S Stay n n1 \<and>
    (if \<exists>a. r = Ok a \<and> vs_vote_granted a
     then moves S (Grant (vq_candidate_id q)) n1 n' \<and> rn_current_term n1 = vq_term q
     else moves S Stay n1 n')"
proof (cases "vq_term q < rn_current_term n")
  case True
  then have "n' = n" "r = Ok \<lparr>vs_term = rn_current_term n, vs_vote_granted = False\<rparr>"
    using h by (auto simp: HandleRequestVote_def)
  then show ?thesis by (auto intro: exI [of _ n])
next
  case False
  obtain r1 n1 where f: "whenP (vq_term q > rn_current_term n) (BecomeFollower S (vq_term q) []) n = (r1, n1)"
    by (cases "whenP (vq_term q > rn_current_term n) (BecomeFollower S (vq_term q) []) n")
  have m: "moves S Stay n n1 \<and> (r1 = Ok () \<longrightarrow> rn_current_term n1 = vq_term q)"
  proof (cases "vq_term q > rn_current_term n")
    case True
    then show ?thesis
      using follow_effect [OF _ assms(2), of S "[]" n r1 n1] f by (auto simp: whenP_def ballot_def)
  qed (use f False in \<open>auto simp: whenP_def ret_def\<close>)
  show ?thesis
  proof (cases r1)
    case (Inl x)
    then have "r = Err x" "n' = n1" using h f False by (auto simp: HandleRequestVote_def andThen_def)
    then show ?thesis using m by auto
  next
    case (Inr u)
    then have "cast_vote S q n1 = (r, n')" using h f False by (auto simp: HandleRequestVote_def andThen_def)
    moreover have t: "rn_current_term n1 = vq_term q" using m Inr by simp
    ultimately show ?thesis
      using m cast_effect [OF _ t [symmetric] assms(2,3)] by metis
  qed
qed

section \<open>Messages of a leader and the end of an election\<close>

definition contact :: "nat \<Rightarrow> ('w, 'e) node \<Rightarrow> move" where
  "contact t n = (if t = rn_current_term n \<and> rn_state n \<noteq> StFollower then Yield else Stay)"

lemma accept_effect:
  assumes "accept_leader S t l n = (r, n')" and "t < 2 ^ 64" and "\<not> t < rn_current_term n"
  shows "moves S (contact t n) n n'"
proof (cases "t > rn_current_term n \<or> rn_state n \<noteq> StFollower")
  case True
  then have "BecomeFollower S t l n = (r, n')" using assms(1) by (simp add: accept_leader_def)
  note f = follow_effect [OF this assms(2)]
  show ?thesis using f True assms(3) by (auto simp: contact_def split: if_splits)
next
  case False
  then have "vote_core n' = vote_core n" using assms(1) by (auto simp: accept_leader_def)
  then show ?thesis using False by (simp add: contact_def moves_same)
qed

lemma heartbeat_effect:
  assumes "HandleHeartbeat S q n = (r, n')" and "hr_term q < 2 ^ 64"
  shows "moves S (contact (hr_term q) n) n n'"
proof (cases "hr_term q < rn_current_term n")
  case True
  then show ?thesis using assms(1) by (auto simp: HandleHeartbeat_def contact_def)
next
  case False
  obtain r1 n1 where a: "accept_leader S (hr_term q) (hr_leader_id q) n = (r1, n1)"
    by (cases "accept_leader S (hr_term q) (hr_leader_id q) n")
  obtain r2 n2 where b: "accept_topology (hr_topology q) n1 = (r2, n2)"
    by (cases "accept_topology (hr_topology q) n1")
  have "vote_core n' = vote_core n1"
    using assms(1) False a b core_accept_topology [OF b]
    by (auto simp: HandleHeartbeat_def andThen_def Let_def split: sum.splits)
  then show ?thesis using moves_core accept_effect [OF a assms(2) False] by blast
qed

lemma append_effect:
  assumes "HandleAppendEntries S q n = (r, n')" and "ar_term q < 2 ^ 64"
  shows "moves S (contact (ar_term q) n) n n'"
proof (cases "ar_term q < rn_current_term n")
  case True
  then show ?thesis using assms(1) by (auto simp: HandleAppendEntries_def contact_def)
next
  case False
  obtain r1 n1 where a: "accept_leader S (ar_term q) (ar_leader_id q) n = (r1, n1)"
    by (cases "accept_leader S (ar_term q) (ar_leader_id q) n")
  obtain r2 n2 where b: "accept_topology (ar_topology q) n1 = (r2, n2)"
    by (cases "accept_topology (ar_topology q) n1")
  obtain c n3 where c: "check_prev S q n2 = (c, n3)" by (cases "check_prev S q n2")
  let ?st = "onLog (store_entries (sv_log S) (rn_last_snapshot_index n3) (map from_proto (ar_entries q)))"
  obtain r4 n4 where d: "?st n3 = (r4, n4)" by (cases "?st n3")
  note k = core_accept_topology [OF b] core_check_prev [OF c] core_onLog [OF d]
  have "vote_core n' = vote_core n1"
    using assms(1) False a b c d k
    by (auto simp: HandleAppendEntries_def andThen_def Let_def split: sum.splits option.splits if_splits)
  then show ?thesis using moves_core accept_effect [OF a assms(2) False] by blast
qed

lemma leader_core:
  assumes "BecomeLeader S n = (r, n')" and "0 < rn_current_term n"
  shows "vote_core n' = vote_core n \<or> vote_core n' = vote_core (n\<lparr>rn_state := StLeader\<rparr>)"
proof -
  let ?n0 = "onTopology (Topology_SetLeader (rn_self_id n) (rn_self_addr n)) (n\<lparr>rn_leader_id := rn_self_id n\<rparr>)"
  obtain r1 n1 where a: "onRebalance (peers ?n0) ?n0 = (r1, n1)" by (cases "onRebalance (peers ?n0) ?n0")
  obtain r2 n2 where b: "AppendNoopEntryLocked S n1 = (r2, n2)" by (cases "AppendNoopEntryLocked S n1")
  have k1: "vote_core n1 = vote_core n" using a by (auto simp: onRebalance_def split: prod.splits)
  have k2: "vote_core n2 = vote_core n1" using b core_AppendEntryLocked unfolding AppendNoopEntryLocked_def by blast
  have run: "BecomeLeader S n = (case r1 of Err e \<Rightarrow> (Err e, n1) | Ok _ \<Rightarrow> (case r2 of Err e \<Rightarrow> (Err e, n2)
    | Ok i \<Rightarrow> (Ok (), RequestImmediateHeartbeat (RequestReplication ((ResetPeerProgressLocked (i + 1) n2)
         \<lparr>rn_state := StLeader, rn_lease := Lease_Invalidate (rn_lease n2), rn_last_topology_refresh := rn_now n2\<rparr>)))))"
    using a b assms(2)
    by (simp add: BecomeLeader_def claim_first_term_def andThen_def modify_def split: sum.splits)
  have "vote_core (RequestImmediateHeartbeat (RequestReplication ((ResetPeerProgressLocked (i + 1) n2)
      \<lparr>rn_state := StLeader, rn_lease := Lease_Invalidate (rn_lease n2), rn_last_topology_refresh := rn_now n2\<rparr>)))
    = vote_core (n\<lparr>rn_state := StLeader\<rparr>)" for i
    using core_helpers(6) [of "i + 1" n2] k1 k2 by (simp, simp add: vote_core_def)
  then show ?thesis using assms(1) run k1 k2 by (auto split: sum.splits)
qed

lemma lead_moves:
  assumes "rn_state n = StCandidate" and "vote_core n' = vote_core (n\<lparr>rn_state := StLeader\<rparr>)"
  shows "moves S Lead n n'"
proof -
  have "ballot n = (rn_current_term n, StCandidate, rn_voted_for n)" "ident n' = ident n"
      "ballot n' = (rn_current_term n, StLeader, rn_voted_for n)" "disk S n' = disk S n"
    using assms by (auto simp: vote_core_def ballot_def ident_def disk_def MetaPath_def fun_eq_iff)
  then show ?thesis unfolding moves_def by (auto intro: voter.lead)
qed

text \<open>
  A node may learn of a term it has reached itself in the meantime; only then stepping down
  touches a term in which it may have voted.
\<close>

definition late :: "nat \<Rightarrow> nat \<Rightarrow> ('w, 'e) node \<Rightarrow> bool" where
  "late asked heard n \<longleftrightarrow> asked < heard \<and> heard = rn_current_term n"

lemma elect_effect:
  assumes e: "StartElection_end S q rs n = (r, n')" and "highest_vote_term (vq_term q) rs < 2 ^ 64" and "0 < vq_term q"
    and "\<not> late (vq_term q) (highest_vote_term (vq_term q) rs) n"
  shows "moves S Stay n n' \<or>
    moves S Lead n n' \<and> rn_current_term n = vq_term q \<and> QuorumSize n \<le> granted_votes rs"
proof (cases "highest_vote_term (vq_term q) rs > vq_term q")
  case True
  then have "BecomeFollower S (highest_vote_term (vq_term q) rs) [] n = (r, n')"
    using e by (simp add: StartElection_end_def)
  note f = follow_effect [OF this assms(2)]
  have "highest_vote_term (vq_term q) rs \<noteq> rn_current_term n" using assms(4) True by (simp add: late_def)
  then show ?thesis using f by (auto split: if_splits)
next
  case low: False
  show ?thesis
  proof (cases "rn_state n = StCandidate \<and> rn_current_term n = vq_term q \<and> QuorumSize n \<le> granted_votes rs")
    case False
    then have "n' = n" using e low by (auto simp: StartElection_end_def split: if_splits)
    then show ?thesis by simp
  next
    case True
    obtain r1 n1 where b: "BecomeLeader S n = (r1, n1)" by (cases "BecomeLeader S n")
    obtain r2 n2 where c: "MaybeCommit S n1 = (r2, n2)" by (cases "MaybeCommit S n1")
    have "vote_core n' = vote_core n1"
      using e low True b c core_MaybeCommit [OF c] by (auto simp: StartElection_end_def andThen_def split: sum.splits)
    moreover have "vote_core n1 = vote_core n \<or> vote_core n1 = vote_core (n\<lparr>rn_state := StLeader\<rparr>)"
      using leader_core [OF b] True assms(3) by simp
    ultimately show ?thesis
      using lead_moves moves_same True by metis
  qed
qed

lemma core_heartbeat_responses:
  "fold (heartbeat_response at_time) rs (h, c, n) = (h', c', n') \<Longrightarrow> vote_core n' = vote_core n"
proof (induction rs arbitrary: h c n)
  case (Cons r rs)
  obtain h1 c1 n1 where s: "heartbeat_response at_time r (h, c, n) = (h1, c1, n1)"
    by (cases "heartbeat_response at_time r (h, c, n)")
  then have "vote_core n1 = vote_core n"
    by (auto simp: heartbeat_response_def split: prod.splits sum.splits if_splits)
  then show ?case using Cons s by auto
qed simp

definition heard_term :: "nat \<Rightarrow> time \<Rightarrow> (string \<times> HeartbeatResponse result) list \<Rightarrow> ('w, 'e) node \<Rightarrow> nat" where
  "heard_term t sent_at rs n = fst (fold (heartbeat_response sent_at) rs (t, 1, n))"

lemma broadcast_effect:
  assumes b: "BroadcastHeartbeat_end S t sent_at rs n = (r, n')" and "heard_term t sent_at rs n < 2 ^ 64"
    and "\<not> late t (heard_term t sent_at rs n) n"
  shows "moves S Stay n n'"
proof -
  obtain h c n1 where f: "fold (heartbeat_response sent_at) rs (t, 1, n) = (h, c, n1)"
    by (cases "fold (heartbeat_response sent_at) rs (t, 1, n)")
  note k = core_heartbeat_responses [OF f] and d = core_determines [OF core_heartbeat_responses [OF f]]
  have h: "heard_term t sent_at rs n = h" unfolding heard_term_def f by simp
  show ?thesis
  proof (cases "h > t")
    case True
    then have "BecomeFollower S h [] n1 = (r, n')" using b unfolding BroadcastHeartbeat_end_def f by simp
    then have "moves S Stay n1 n'"
      using follow_effect [of S h "[]" n1 r n'] assms(2,3) True d(5) unfolding h late_def
      by (auto split: if_splits)
    then show ?thesis using moves_core_left [OF k] by blast
  next
    case False
    then have "vote_core n' = vote_core n1" using b unfolding BroadcastHeartbeat_end_def f by (auto split: if_splits)
    then show ?thesis using k moves_same by metis
  qed
qed

lemma callback_effect:
  assumes "\<forall>a. response = Ok a \<longrightarrow> as_term a < 2 ^ 64"
  shows "moves S Stay n (AppendEntries_callback S p sent_at q response n)"
proof (cases response)
  case (Inl e)
  then show ?thesis by (simp add: AppendEntries_callback_def moves_same)
next
  case (Inr a)
  obtain r1 n1 where f: "BecomeFollower S (as_term a) [] n = (r1, n1)" by (cases "BecomeFollower S (as_term a) [] n")
  obtain r2 n2 where c: "MaybeCommit S (UpdatePeerAck S p (as_match_index a) sent_at n) = (r2, n2)"
    by (cases "MaybeCommit S (UpdatePeerAck S p (as_match_index a) sent_at n)")
  show ?thesis
  proof (cases "as_term a > rn_current_term n")
    case True
    then show ?thesis using follow_effect [OF f] assms Inr f by (auto simp: AppendEntries_callback_def)
  next
    case False
    have "vote_core (AppendEntries_callback S p sent_at q response n) = vote_core n"
      using False Inr c core_MaybeCommit [OF c] by (auto simp: AppendEntries_callback_def split: option.splits)
    then show ?thesis by (rule moves_same)
  qed
qed

end
