(* ===== verification/LogMerge.thy ===== *)
theory LogMerge
  imports Log
begin

text \<open>
  What storing the entries of a leader does to a log, on the abstract log: \<open>merge\<close> is the
  specification of the loop in \<^verbatim>\<open>RaftNode::HandleAppendEntries\<close>, and \<open>matching\<close> is the property of
  two logs that Raft's log matching keeps.
\<close>

section \<open>Merging\<close>

fun merge :: "LogEntry list \<Rightarrow> LogEntry list \<Rightarrow> LogEntry list" where
  "merge es [] = es"
| "merge es (e # new) = (case log_read es (le_index e) of
       None \<Rightarrow> merge (es @ [e]) new
     | Some x \<Rightarrow> if le_term x = le_term e then merge es new
                 else merge (log_below es (le_index e) @ [e]) new)"

text \<open>The log has no gap before the entries that follow index \<open>p\<close>.\<close>

definition reaches :: "LogEntry list \<Rightarrow> nat \<Rightarrow> bool" where
  "reaches es p \<longleftrightarrow> contiguous es \<and> (es \<noteq> [] \<longrightarrow> le_index (hd es) \<le> Suc p \<and> p \<le> le_index (last es))"

definition succeeds :: "nat \<Rightarrow> LogEntry list \<Rightarrow> bool" where
  "succeeds p new \<longleftrightarrow> map le_index new = [Suc p..<Suc p + length new]"

lemma succeeds_Cons: "succeeds p (e # new) \<longleftrightarrow> le_index e = Suc p \<and> succeeds (Suc p) new"
  unfolding succeeds_def by (auto simp: upt_conv_Cons simp del: upt_Suc)

lemma log_read_below: "log_read (log_below es i) j = (if j < i then log_read es j else None)"
  by (induction es) (auto simp: log_read_def log_below_def)

lemma log_read_index: "log_read es i = Some x \<Longrightarrow> le_index x = i"
  by (auto simp: log_read_def find_Some_iff)

lemma log_read_in: "log_read es i = Some x \<Longrightarrow> x \<in> set es"
  by (auto simp: log_read_def find_Some_iff)

lemma below_take:
  assumes "contiguous es" and "es \<noteq> []"
  shows "log_below es i = take (i - le_index (hd es)) es"
proof -
  have n: "le_index (es ! k) = le_index (hd es) + k" if "k < length es" for k
    by (rule contiguous_nth [OF assms(1) that])
  have "\<forall>e \<in> set (take (i - le_index (hd es)) es). le_index e < i"
    using n by (auto simp: in_set_conv_nth)
  moreover have "\<forall>e \<in> set (drop (i - le_index (hd es)) es). \<not> le_index e < i"
    using n by (auto simp: in_set_conv_nth)
  ultimately show ?thesis
    unfolding log_below_def
    by (metis (no_types, lifting) append_Nil2 append_take_drop_id filter_False filter_True filter_append)
qed

lemma reaches_same:
  assumes "reaches es p" and "log_read es (Suc p) = Some x"
  shows "reaches es (Suc p)"
  using assms by (auto simp: reaches_def log_read_nth split: if_splits)

lemma reaches_append:
  assumes r: "reaches es p" and "log_read es (Suc p) = None" and e: "le_index e = Suc p"
  shows "reaches (es @ [e]) (Suc p) \<and> (es \<noteq> [] \<longrightarrow> le_index (last es) = p)"
proof -
  have l: "es \<noteq> [] \<Longrightarrow> le_index (last es) = p"
    using assms by (auto simp: reaches_def log_read_nth split: if_splits)
  have "contiguous (es @ [e])" using r l e by (intro contiguous_snoc) (auto simp: reaches_def)
  then show ?thesis using r e l by (cases es) (auto simp: reaches_def)
qed

lemma reaches_replace:
  assumes r: "reaches es p" and s: "log_read es (Suc p) = Some x" and e: "le_index e = Suc p"
  shows "reaches (log_below es (Suc p) @ [e]) (Suc p) \<and>
    (log_below es (Suc p) \<noteq> [] \<longrightarrow> le_index (last (log_below es (Suc p))) = p \<and> hd (log_below es (Suc p)) = hd es)"
proof -
  have c: "contiguous es" "es \<noteq> []" "le_index (hd es) \<le> Suc p" "Suc p \<le> le_index (last es)"
    using r s by (auto simp: reaches_def log_read_nth split: if_splits)
  let ?k = "Suc p - le_index (hd es)"
  have b: "log_below es (Suc p) = take ?k es" by (rule below_take [OF c(1,2)])
  have k: "?k < length es" using contiguous_last [OF c(1,2)] c by (cases es) auto
  have ct: "contiguous (take ?k es)" using contiguous_append(1) [of "take ?k es" "drop ?k es"] c(1) by simp
  have l: "le_index (last (take ?k es)) = p" and h: "hd (take ?k es) = hd es" if "take ?k es \<noteq> []"
  proof -
    have k0: "0 < ?k" using that by (cases ?k) auto
    then have "last (take ?k es) = es ! (?k - 1)" using k that by (simp add: last_conv_nth)
    then show "le_index (last (take ?k es)) = p" using contiguous_nth [OF c(1), of "?k - 1"] k k0 by simp
    show "hd (take ?k es) = hd es" using k0 by (simp add: hd_take)
  qed
  have "contiguous (take ?k es @ [e])" using ct l e by (intro contiguous_snoc) auto
  moreover have "le_index (hd (take ?k es @ [e])) \<le> Suc (Suc p)"
    using h c(3) e by (cases "take ?k es = []") (auto simp: hd_append)
  ultimately show ?thesis using l h e unfolding b reaches_def by auto
qed

section \<open>What merging guarantees\<close>

lemma merge_below:
  assumes "succeeds p new" and "i \<le> p"
  shows "log_read (merge es new) i = log_read es i"
  using assms
proof (induction es new arbitrary: p rule: merge.induct)
  case (2 es e new)
  then have e: "le_index e = Suc p" "succeeds (Suc p) new" "i \<le> Suc p" by (simp_all add: succeeds_Cons)
  note IH = 2(1)[OF _ e(2,3)] 2(2) [OF _ _ e(2,3)] 2(3) [OF _ _ e(2,3)]
  show ?case using IH e 2(5)
    by (auto simp: log_read_append log_read_below split: option.splits)
qed simp

lemma merge_reaches:
  assumes "reaches es p" and "succeeds p new"
  shows "reaches (merge es new) (p + length new)"
  using assms
proof (induction es new arbitrary: p rule: merge.induct)
  case (2 es e new)
  then have e: "le_index e = Suc p" "succeeds (Suc p) new" by (simp_all add: succeeds_Cons)
  show ?case
  proof (cases "log_read es (Suc p)")
    case None
    then have "reaches (es @ [e]) (Suc p)" using reaches_append 2(4) e(1) by blast
    then show ?thesis using 2(1) [of "Suc p"] None e by simp
  next
    case (Some x)
    show ?thesis
    proof (cases "le_term x = le_term e")
      case True
      have "reaches es (Suc p)" by (rule reaches_same [OF 2(4) Some])
      then show ?thesis using 2(2) [of x "Suc p"] Some True e by simp
    next
      case False
      have "reaches (log_below es (Suc p) @ [e]) (Suc p)" using reaches_replace 2(4) Some e(1) by blast
      then show ?thesis using 2(3) [of x "Suc p"] Some False e by simp
    qed
  qed
qed simp

text \<open>Every entry of the batch is there afterwards, with the term it came with.\<close>

lemma merge_has:
  assumes "reaches es p" and "succeeds p new" and "x \<in> set new"
  shows "\<exists>y. log_read (merge es new) (le_index x) = Some y \<and> le_term y = le_term x"
  using assms
proof (induction es new arbitrary: p rule: merge.induct)
  case (2 es e new)
  then have e: "le_index e = Suc p" "succeeds (Suc p) new" by (simp_all add: succeeds_Cons)
  note low = merge_below [OF e(2), of "Suc p"]
  show ?case
  proof (cases "log_read es (Suc p)")
    case None
    then have "reaches (es @ [e]) (Suc p)" using reaches_append 2(4) e(1) by blast
    then show ?thesis using 2(1) [of "Suc p"] None e 2(6) low by (auto simp: log_read_append)
  next
    case (Some z)
    show ?thesis
    proof (cases "le_term z = le_term e")
      case True
      have "reaches es (Suc p)" by (rule reaches_same [OF 2(4) Some])
      then show ?thesis using 2(2) [of z "Suc p"] Some True e 2(6) low by auto
    next
      case False
      have "reaches (log_below es (Suc p) @ [e]) (Suc p)" using reaches_replace 2(4) Some e(1) by blast
      then show ?thesis using 2(3) [of z "Suc p"] Some False e 2(6) low
        by (auto simp: log_read_append log_read_below)
    qed
  qed
qed simp

text \<open>Every entry of the result was there before or is in the batch.\<close>

lemma merge_from: "x \<in> set (merge es new) \<Longrightarrow> x \<in> set es \<or> x \<in> set new"
proof (induction es new rule: merge.induct)
  case (2 es e new)
  then show ?case by (auto simp: log_below_def split: option.splits if_splits)
qed simp

text \<open>Without a conflict nothing is removed.\<close>

lemma merge_keeps:
  assumes "\<And>e y. e \<in> set new \<Longrightarrow> log_read es (le_index e) = Some y \<Longrightarrow> le_term y = le_term e"
    and "succeeds p new" and "log_read es i = Some x"
  shows "log_read (merge es new) i = Some x"
  using assms
proof (induction es new arbitrary: p rule: merge.induct)
  case (2 es e new)
  have e: "le_index e = Suc p" "succeeds (Suc p) new" using 2(5) by (simp_all add: succeeds_Cons)
  then have far: "f \<in> set new \<Longrightarrow> le_index f \<noteq> le_index e" for f
    using imageI [of f "set new" le_index] unfolding succeeds_def
    by (metis Suc_le_eq atLeastLessThan_iff less_irrefl_nat list.set_map set_upt)
  show ?case
  proof (cases "log_read es (Suc p)")
    case None
    have "log_read (merge (es @ [e]) new) i = Some x"
    proof (rule 2(1))
      show "le_term y = le_term f" if "f \<in> set new" "log_read (es @ [e]) (le_index f) = Some y" for f y
        using that far 2(4) [of f y] by (auto simp: log_read_append split: option.splits if_splits)
    qed (use None e 2(6) in \<open>auto simp: log_read_append\<close>)
    then show ?thesis using None e by simp
  next
    case (Some z)
    then have t: "le_term z = le_term e" using 2(4) [of e z] e by simp
    have "log_read (merge es new) i = Some x"
    proof (rule 2(2) [of z "Suc p"])
      show "le_term y = le_term f" if "f \<in> set new" "log_read es (le_index f) = Some y" for f y
        using 2(4) [of f y] that by simp
    qed (use Some e 2(6) t in simp_all)
    with t show ?thesis using Some e by simp
  qed
qed simp

text \<open>What is left behind the batch was there before, and then nothing was removed.\<close>

lemma merge_beyond:
  assumes "succeeds p new" and "p + length new < i" and "reaches es p" and "log_read (merge es new) i = Some x"
  shows "log_read es i = Some x \<and> (\<forall>e \<in> set new. \<exists>y. log_read es (le_index e) = Some y \<and> le_term y = le_term e)"
  using assms
proof (induction es new arbitrary: p rule: merge.induct)
  case (2 es e new)
  then have e: "le_index e = Suc p" "succeeds (Suc p) new" "Suc p + length new < i" by (simp_all add: succeeds_Cons)
  show ?case
  proof (cases "log_read es (Suc p)")
    case None
    then have "reaches (es @ [e]) (Suc p)" and l: "es \<noteq> [] \<longrightarrow> le_index (last es) = p"
      using reaches_append 2(6) e(1) by blast+
    then have "log_read (es @ [e]) i = Some x" using 2(1) [of "Suc p"] None e 2(7) by simp
    then have "log_read es i = Some x" using e by (auto simp: log_read_append split: option.splits if_splits)
    then have "i \<le> p" using last_index_max [OF _ log_read_in] log_read_index l 2(6)
      by (fastforce simp: reaches_def)
    then show ?thesis using e(3) by simp
  next
    case (Some z)
    show ?thesis
    proof (cases "le_term z = le_term e")
      case True
      have "reaches es (Suc p)" by (rule reaches_same [OF 2(6) Some])
      then show ?thesis using 2(2) [of z "Suc p"] Some True e 2(7) by simp
    next
      case False
      have "reaches (log_below es (Suc p) @ [e]) (Suc p)" using reaches_replace 2(6) Some e(1) by blast
      then have "log_read (log_below es (Suc p) @ [e]) i = Some x" using 2(3) [of z "Suc p"] Some False e 2(7) by simp
      then show ?thesis using e by (auto simp: log_read_append log_read_below split: if_splits)
    qed
  qed
qed simp

section \<open>Log matching\<close>

text \<open>Two logs that have an entry of the same index and term are the same up to there.\<close>

definition matching :: "LogEntry list \<Rightarrow> LogEntry list \<Rightarrow> bool" where
  "matching xs ys \<longleftrightarrow> (\<forall>i a b. log_read xs i = Some a \<and> log_read ys i = Some b \<and> le_term a = le_term b \<longrightarrow>
     (\<forall>j \<le> i. log_read xs j = log_read ys j))"

definition agree :: "nat \<Rightarrow> LogEntry list \<Rightarrow> LogEntry list \<Rightarrow> bool" where
  "agree i xs ys \<longleftrightarrow> (\<forall>j \<le> i. log_read xs j = log_read ys j)"

lemma matching_sym: "matching xs ys \<Longrightarrow> matching ys xs"
  unfolding matching_def by metis

lemma matching_refl: "matching xs xs"
  unfolding matching_def by simp

lemma matchingD:
  "matching xs ys \<Longrightarrow> log_read xs i = Some a \<Longrightarrow> log_read ys i = Some b \<Longrightarrow> le_term a = le_term b \<Longrightarrow> agree i xs ys"
  unfolding matching_def agree_def by metis

text \<open>The batch is a run of entries of the sender's log \<open>ls\<close>.\<close>

definition run_of :: "LogEntry list \<Rightarrow> nat \<Rightarrow> LogEntry list \<Rightarrow> bool" where
  "run_of ls p new \<longleftrightarrow> succeeds p new \<and> (\<forall>e \<in> set new. log_read ls (le_index e) = Some e)"

lemma succeeds_at:
  assumes "succeeds p new" and "p < j" and "j \<le> p + length new"
  shows "\<exists>e \<in> set new. le_index e = j"
proof -
  have "j \<in> set (map le_index new)" using assms unfolding succeeds_def by (simp del: upt_Suc)
  then show ?thesis by auto
qed

lemma log_read_mem:
  assumes "contiguous es" and "x \<in> set es"
  shows "log_read es (le_index x) = Some x"
proof -
  obtain k where k: "k < length es" "es ! k = x" using assms(2) unfolding in_set_conv_nth by blast
  have "es \<noteq> []" using assms(2) by auto
  then show ?thesis
    using contiguous_nth [OF assms(1) k(1)] contiguous_last [OF assms(1)] k log_read_nth [OF assms(1), of "le_index x"]
    by (cases es) auto
qed

lemma merge_agree:
  assumes r: "reaches es p" and n: "run_of ls p new" and m: "matching es ls" and a: "agree p es ls"
  shows "agree (p + length new) (merge es new) ls"
  unfolding agree_def
proof (intro allI impI)
  have s: "succeeds p new" and src: "e \<in> set new \<Longrightarrow> log_read ls (le_index e) = Some e" for e
    using n by (auto simp: run_of_def)
  fix j assume j: "j \<le> p + length new"
  show "log_read (merge es new) j = log_read ls j"
  proof (cases "j \<le> p")
    case True
    then show ?thesis using merge_below [OF s True] a by (simp add: agree_def)
  next
    case False
    then obtain e where e: "e \<in> set new" "le_index e = j" using succeeds_at [OF s, of j] j by auto
    obtain y where y: "log_read (merge es new) j = Some y" "le_term y = le_term e"
      using merge_has [OF r s e(1)] e(2) by auto
    have yi: "le_index y = j" by (rule log_read_index [OF y(1)])
    have "y = e"
    proof (cases "y \<in> set new")
      case True
      then show ?thesis using src [OF True] src [OF e(1)] e(2) yi by simp
    next
      case False
      then have "y \<in> set es" using merge_from [OF log_read_in [OF y(1)]] by simp
      then have "log_read es j = Some y" using log_read_mem r yi by (auto simp: reaches_def)
      then have "agree j es ls" using matchingD [OF m] src [OF e(1)] e(2) y(2) by blast
      then show ?thesis using \<open>log_read es j = Some y\<close> src [OF e(1)] e(2) by (simp add: agree_def)
    qed
    then show ?thesis using y(1) src [OF e(1)] e(2) by simp
  qed
qed

text \<open>Merging keeps the new log matched with every log that matched the old one and the sender's.\<close>

lemma merge_matching:
  assumes r: "reaches es p" and n: "run_of ls p new" and m: "matching es ls" and a: "agree p es ls"
    and zs: "matching es zs" "matching ls zs"
  shows "matching (merge es new) zs"
  unfolding matching_def
proof (intro allI impI)
  fix i x z j
  assume h: "log_read (merge es new) i = Some x \<and> log_read zs i = Some z \<and> le_term x = le_term z" and ji: "j \<le> i"
  note g = merge_agree [OF r n m a]
  have s: "succeeds p new" using n by (simp add: run_of_def)
  show "log_read (merge es new) j = log_read zs j"
  proof (cases "i \<le> p + length new")
    case True
    then have "log_read ls i = Some x" using g h by (auto simp: agree_def)
    then have "agree i ls zs" using matchingD [OF zs(2)] h by blast
    then show ?thesis using g ji True by (auto simp: agree_def)
  next
    case False
    then have b: "log_read es i = Some x"
        "\<forall>e \<in> set new. \<exists>y. log_read es (le_index e) = Some y \<and> le_term y = le_term e"
      using merge_beyond [OF s _ r, of i x] h by simp_all
    have iz: "agree i es zs" using matchingD [OF zs(1) b(1)] h by blast
    have keep: "log_read es j = Some y \<Longrightarrow> log_read (merge es new) j = Some y" for y
      by (rule merge_keeps [OF _ s]) (use b(2) in fastforce)+
    show ?thesis
    proof (cases "log_read es j")
      case None
      have "log_read (merge es new) j = None"
      proof (rule ccontr)
        assume "log_read (merge es new) j \<noteq> None"
        then obtain y where y: "log_read (merge es new) j = Some y" by auto
        have "y \<in> set new" using merge_from [OF log_read_in [OF y]] log_read_mem [of es y] r None log_read_index [OF y]
          by (auto simp: reaches_def)
        then show False using b(2) None log_read_index [OF y] by auto
      qed
      then show ?thesis using None iz ji by (auto simp: agree_def)
    qed (use keep iz ji in \<open>auto simp: agree_def\<close>)
  qed
qed

end
