(* ===== verification/Wal.thy ===== *)
theory Wal
  imports WalRecord
begin

text \<open>
  \<^verbatim>\<open>include/storage/wal.hpp\<close> and \<^verbatim>\<open>src/storage/wal.cpp\<close>: the segmented write-ahead log.
  One definition per member function, over a state that holds the members of the class and
  the file system it works on. Every public function takes \<^verbatim>\<open>mutex_\<close> for its whole body, so
  a call is one step of the model. The message of a log line is not modelled.
\<close>

section \<open>State\<close>

record EntryLocation =
  loc_path :: path
  loc_offset :: nat

record SegmentMeta =
  seg_start_index :: nat
  seg_last_index :: nat
  seg_size_bytes :: nat
  seg_path :: path

record wal =
  w_fd :: "fd option"
  w_start :: nat
  w_last_index :: nat
  w_dir :: path
  w_segment_size_bytes :: nat
  w_offset_index :: "(nat \<times> EntryLocation) list"
  w_segments :: "SegmentMeta list"
  w_os :: os

definition onOs :: "(os, 'a) prog \<Rightarrow> (wal, 'a) prog" where
  "onOs m = (\<lambda>w. case m (w_os w) of (r, s) \<Rightarrow> (r, w\<lparr>w_os := s\<rparr>))"

definition kDefaultSegmentSizeBytes :: nat where
  "kDefaultSegmentSizeBytes = 64 * 1024 * 1024"

definition WAL_new :: "path \<Rightarrow> nat \<Rightarrow> nat \<Rightarrow> os \<Rightarrow> wal" where
  "WAL_new dir start_index segment_size s =
     \<lparr>w_fd = None, w_start = start_index, w_last_index = 0, w_dir = dir,
      w_segment_size_bytes = segment_size, w_offset_index = [], w_segments = [], w_os = s\<rparr>"

section \<open>The active segment\<close>

text \<open>\<^verbatim>\<open>CloseFile(&fd_)\<close>: a failed \<^verbatim>\<open>close\<close> keeps the descriptor.\<close>

definition CloseFd :: "(wal, unit) prog" where
  "CloseFd = (\<lambda>w. case w_fd w of
       None \<Rightarrow> (Ok (), w)
     | Some _ \<Rightarrow> andThen (onOs sys_close) (\<lambda>_. modify (\<lambda>w. w\<lparr>w_fd := None\<rparr>)) w)"

definition WAL_OpenActiveSegmentForAppend :: "(wal, unit) prog" where
  "WAL_OpenActiveSegmentForAppend =
     andThen CloseFd (\<lambda>_ w.
       if w_segments w = [] then (Err NoSegment, w)
       else let active = last (w_segments w) in
         andThen (onOs (sys_open True False (seg_path active))) (\<lambda>_ w.
           case onOs sys_seek (w\<lparr>w_fd := Some (seg_path active, 0)\<rparr>) of
             (Err e, w) \<Rightarrow> (Err e, snd (CloseFd w))
           | (Ok _, w) \<Rightarrow> (Ok (), w\<lparr>w_fd := Some (seg_path active, seg_size_bytes active)\<rparr>)) w)"

definition WAL_CreateFreshSegment :: "nat \<Rightarrow> (wal, unit) prog" where
  "WAL_CreateFreshSegment start_index = (\<lambda>w.
     let p = path_join (w_dir w) (SegmentFileName start_index);
         segment = \<lparr>seg_start_index = start_index,
                    seg_last_index = (if start_index > 0 then start_index - 1 else 0),
                    seg_size_bytes = 0, seg_path = p\<rparr>
     in andThen (onOs (sys_open True True p)) (\<lambda>_.
        andThen (onOs sys_close) (\<lambda>_.
        modify (\<lambda>w. w\<lparr>w_segments := w_segments w @ [segment]\<rparr>))) w)"

definition WAL_RotateSegment :: "nat \<Rightarrow> (wal, unit) prog" where
  "WAL_RotateSegment next_index =
     andThen CloseFd (\<lambda>_.
     andThen (WAL_CreateFreshSegment next_index) (\<lambda>_.
     WAL_OpenActiveSegmentForAppend))"

definition WAL_EnsureActiveSegmentForAppend :: "nat \<Rightarrow> nat \<Rightarrow> (wal, unit) prog" where
  "WAL_EnsureActiveSegmentForAppend next_index record_size =
     andThen (\<lambda>w. whenP (w_segments w = []) (WAL_CreateFreshSegment next_index) w) (\<lambda>_ w.
       let active = last (w_segments w) in
       if seg_size_bytes active \<noteq> 0 \<and> seg_size_bytes active + record_size > w_segment_size_bytes w
       then WAL_RotateSegment next_index w
       else if w_fd w = None then WAL_OpenActiveSegmentForAppend w
       else (Ok (), w))"

section \<open>Append and Flush\<close>

text \<open>\<open>WriteAll(fd_, \<dots>)\<close>; a write to a closed descriptor fails with \<^verbatim>\<open>EBADF\<close>.\<close>

definition WriteFd :: "string \<Rightarrow> (wal, unit) prog" where
  "WriteFd d = (\<lambda>w. case w_fd w of
       None \<Rightarrow> (if d = [] then (Ok (), w) else (Err WriteFailed, w))
     | Some f \<Rightarrow> (case WriteAll f d (w_os w) of
         (r, f', s') \<Rightarrow> (r, w\<lparr>w_fd := Some f', w_os := s'\<rparr>)))"

definition WAL_Append :: "codec \<Rightarrow> LogEntry \<Rightarrow> (wal, unit) prog" where
  "WAL_Append c entry = (\<lambda>w.
     if w_offset_index w \<noteq> [] \<and> le_index entry \<noteq> w_last_index w + 1 then (Err IndexNotContiguous, w)
     else let payload = LogEntry_Serialize c entry in
       if payload = [] then (Err EntrySerializeFailed, w)
       else if length payload > 2 ^ 32 - 1 then (Err RecordTooLarge, w)
       else let len = (of_nat (length payload) :: u32);
                crc = ComputeCrc32 payload;
                record_size = kRecordHeaderSize + length payload
       in andThen (WAL_EnsureActiveSegmentForAppend (le_index entry) record_size) (\<lambda>_ w.
            let active = last (w_segments w);
                offset = seg_size_bytes active
            in andThen (WriteFd (EncodeUint32LE kWalMagic)) (\<lambda>_.
               andThen (WriteFd (EncodeUint32LE len)) (\<lambda>_.
               andThen (WriteFd (EncodeUint32LE crc)) (\<lambda>_.
               andThen (WriteFd payload) (\<lambda>_.
               modify (\<lambda>w. w\<lparr>
                 w_segments := butlast (w_segments w) @
                   [active\<lparr>seg_size_bytes := offset + record_size, seg_last_index := le_index entry\<rparr>],
                 w_offset_index := omap_put (le_index entry)
                   \<lparr>loc_path = seg_path active, loc_offset = offset\<rparr> (w_offset_index w),
                 w_last_index := le_index entry\<rparr>))))) w) w)"

definition WAL_Flush :: "(wal, unit) prog" where
  "WAL_Flush = (\<lambda>w. if w_fd w = None then (Err WalNotOpen, w) else onOs sys_sync w)"

section \<open>Reading\<close>

text \<open>
  The two reads of \<^verbatim>\<open>ReadRecordAtUnlocked\<close>: the active segment is read through \<open>fd_\<close>, any
  other one is opened, read and closed, and a failed close is ignored.
\<close>

definition ReadAt :: "path \<Rightarrow> nat \<Rightarrow> nat \<Rightarrow> (wal, string) prog" where
  "ReadAt p off n = (\<lambda>w.
     if w_fd w \<noteq> None \<and> w_segments w \<noteq> [] \<and> p = seg_path (last (w_segments w))
     then onOs (ReadExactly p off n []) w
     else andThen (onOs (sys_open False False p)) (\<lambda>_ w.
       case onOs (ReadExactly p off n []) w of
         (r, w) \<Rightarrow> (r, snd (onOs sys_close w))) w)"

definition WAL_ReadRecordAtUnlocked :: "codec \<Rightarrow> EntryLocation \<Rightarrow> (wal, LogEntry) prog" where
  "WAL_ReadRecordAtUnlocked c loc =
     andThen (ReadAt (loc_path loc) (loc_offset loc) kRecordHeaderSize) (\<lambda>header.
       if length header \<noteq> kRecordHeaderSize then throw IncompleteHeader
       else let magic = DecodeUint32LE header;
                len = DecodeUint32LE (drop 4 header);
                crc = DecodeUint32LE (drop 8 header)
       in if magic \<noteq> kWalMagic then throw BadMagic
       else andThen (ReadAt (loc_path loc) (loc_offset loc + kRecordHeaderSize) (unat len)) (\<lambda>payload.
         if length payload \<noteq> unat len then throw IncompletePayload
         else if ComputeCrc32 payload \<noteq> crc then throw CrcMismatch
         else (\<lambda>w. (LogEntry_Deserialize c payload, w))))"

definition WAL_Read :: "codec \<Rightarrow> nat \<Rightarrow> (wal, LogEntry) prog" where
  "WAL_Read c index = (\<lambda>w. case map_of (w_offset_index w) index of
       None \<Rightarrow> (Err (IndexNotFound index), w)
     | Some loc \<Rightarrow> WAL_ReadRecordAtUnlocked c loc w)"

fun read_batch :: "codec \<Rightarrow> (nat \<times> EntryLocation) list \<Rightarrow> nat \<Rightarrow> LogEntry list \<Rightarrow> (wal, LogEntry list) prog" where
  "read_batch c [] max_entries entries = ret entries"
| "read_batch c ((_, loc) # locs) max_entries entries =
     (if length entries \<ge> max_entries then ret entries
      else andThen (WAL_ReadRecordAtUnlocked c loc) (\<lambda>e.
        read_batch c locs max_entries (entries @ [e])))"

definition WAL_ReadFrom :: "codec \<Rightarrow> nat \<Rightarrow> nat \<Rightarrow> (wal, LogEntry list) prog" where
  "WAL_ReadFrom c from_index max_entries = (\<lambda>w.
     if max_entries = 0 \<or> w_offset_index w = [] \<or> from_index > w_last_index w then (Ok [], w)
     else case lower_bound from_index (w_offset_index w) of
         [] \<Rightarrow> (Err (IndexNotFound from_index), w)
       | (k, loc) # locs \<Rightarrow>
           if k \<noteq> from_index then (Err (IndexNotFound from_index), w)
           else read_batch c ((k, loc) # locs) max_entries [] w)"

definition WAL_ReadFromAll :: "codec \<Rightarrow> nat \<Rightarrow> (wal, LogEntry list) prog" where
  "WAL_ReadFromAll c from_index = WAL_ReadFrom c from_index (2 ^ 64 - 1)"

definition WAL_TermAt :: "codec \<Rightarrow> nat \<Rightarrow> (wal, nat) prog" where
  "WAL_TermAt c index =
     (if index = 0 then ret 0 else andThen (WAL_Read c index) (\<lambda>e. ret (le_term e)))"

definition WAL_LastIndex :: "wal \<Rightarrow> nat" where
  "WAL_LastIndex w = w_last_index w"

section \<open>Removing segments\<close>

definition WAL_RemoveSegmentEntries :: "SegmentMeta \<Rightarrow> (wal, unit) prog" where
  "WAL_RemoveSegmentEntries segment = modify (\<lambda>w.
     w\<lparr>w_offset_index := filter (\<lambda>(_, loc). loc_path loc \<noteq> seg_path segment) (w_offset_index w)\<rparr>)"

fun remove_segment_files :: "SegmentMeta list \<Rightarrow> (wal, unit) prog" where
  "remove_segment_files [] = ret ()"
| "remove_segment_files (sg # sgs) =
     andThen (WAL_RemoveSegmentEntries sg) (\<lambda>_.
     andThen (onOs (sys_remove (seg_path sg))) (\<lambda>_.
     remove_segment_files sgs))"

definition WAL_RemoveSegmentsAfter :: "nat \<Rightarrow> (wal, unit) prog" where
  "WAL_RemoveSegmentsAfter segment_index = (\<lambda>w.
     if segment_index + 1 \<ge> length (w_segments w) then (Ok (), w)
     else andThen (remove_segment_files (drop (segment_index + 1) (w_segments w))) (\<lambda>_.
       modify (\<lambda>w. w\<lparr>w_segments := take (segment_index + 1) (w_segments w)\<rparr>)) w)"

section \<open>Recovery\<close>

text \<open>
  The loop of \<^verbatim>\<open>RecoverSegment\<close> returns the offset reached, the index of the last entry
  read, whether the file was truncated and whether the descriptor is still open.
\<close>

definition recover_truncate ::
    "nat \<Rightarrow> path \<Rightarrow> nat \<Rightarrow> nat \<Rightarrow> (wal, nat \<times> nat \<times> bool \<times> bool) prog" where
  "recover_truncate k p off last_index = (\<lambda>w.
     case onOs (sys_ftruncate p off) w of (r, w1) \<Rightarrow>
     case onOs sys_close w1 of (r', w2) \<Rightarrow>
     case r of
       Err e \<Rightarrow> (Err e, w2)
     | Ok _ \<Rightarrow> (Ok (off, last_index, True, r' \<noteq> Ok ()),
         w2\<lparr>w_segments := (w_segments w2)[k := (w_segments w2 ! k)\<lparr>seg_size_bytes := off\<rparr>]\<rparr>))"

function recover_loop ::
    "codec \<Rightarrow> nat \<Rightarrow> path \<Rightarrow> nat \<Rightarrow> nat \<Rightarrow> nat \<Rightarrow> (wal, nat \<times> nat \<times> bool \<times> bool) prog" where
  "recover_loop c k p sz off last_index w =
     (if off < sz then
        case onOs (ReadExactly p off kRecordHeaderSize []) w of
          (Err e, w) \<Rightarrow> (Err e, snd (onOs sys_close w))
        | (Ok header, w) \<Rightarrow>
            if length header = 0 then (Ok (off, last_index, False, True), w)
            else if length header \<noteq> kRecordHeaderSize then recover_truncate k p off last_index w
            else let magic = DecodeUint32LE header;
                     len = DecodeUint32LE (drop 4 header);
                     crc = DecodeUint32LE (drop 8 header)
            in if magic \<noteq> kWalMagic then recover_truncate k p off last_index w
            else case onOs (ReadExactly p (off + kRecordHeaderSize) (unat len) []) w of
              (Err e, w) \<Rightarrow> (Err e, snd (onOs sys_close w))
            | (Ok payload, w) \<Rightarrow>
                if length payload \<noteq> unat len \<or> ComputeCrc32 payload \<noteq> crc
                then recover_truncate k p off last_index w
                else case LogEntry_Deserialize c payload of
                  Err _ \<Rightarrow> recover_truncate k p off last_index w
                | Ok e \<Rightarrow> recover_loop c k p sz (off + kRecordHeaderSize + length payload) (le_index e)
                    (w\<lparr>w_offset_index := omap_put (le_index e) \<lparr>loc_path = p, loc_offset = off\<rparr>
                         (w_offset_index w)\<rparr>)
      else (Ok (off, last_index, False, True), w))"
  by pat_completeness auto
termination
  by (relation "measure (\<lambda>(c, k, p, sz, off, last_index, w). sz - off)")
    (simp_all add: kRecordHeaderSize_def)

declare recover_loop.simps [simp del]

definition WAL_RecoverSegment :: "codec \<Rightarrow> nat \<Rightarrow> (wal, bool) prog" where
  "WAL_RecoverSegment c k = (\<lambda>w.
     let segment = w_segments w ! k; p = seg_path segment;
         last_index = (if seg_start_index segment > 0 then seg_start_index segment - 1 else 0)
     in andThen (onOs (sys_open False False p)) (\<lambda>_.
        andThen (recover_loop c k p (seg_size_bytes segment) 0 last_index) (\<lambda>(off, lst, truncated, fd_open).
        andThen (whenP fd_open (onOs sys_close)) (\<lambda>_.
        andThen (modify (\<lambda>w. w\<lparr>
          w_segments := (w_segments w)[k := (w_segments w ! k)\<lparr>seg_last_index := lst, seg_size_bytes := off\<rparr>],
          w_last_index := max (w_last_index w) lst\<rparr>)) (\<lambda>_.
        ret truncated)))) w)"

fun recover_from :: "codec \<Rightarrow> nat \<Rightarrow> nat \<Rightarrow> (wal, unit) prog" where
  "recover_from c k 0 = ret ()"
| "recover_from c k (Suc n) = andThen (WAL_RecoverSegment c k) (\<lambda>truncated.
     if truncated then WAL_RemoveSegmentsAfter k else recover_from c (Suc k) n)"

definition list_segments :: "os \<Rightarrow> path \<Rightarrow> SegmentMeta list" where
  "list_segments s dir = concat (map (\<lambda>p. case ParseSegmentStartIndex p of
       Err _ \<Rightarrow> []
     | Ok n \<Rightarrow> [\<lparr>seg_start_index = n, seg_last_index = 0,
                 seg_size_bytes = length (content s p), seg_path = p\<rparr>]) (dir_files s dir))"

definition WAL_LoadExistingSegments :: "codec \<Rightarrow> (wal, unit) prog" where
  "WAL_LoadExistingSegments c = (\<lambda>w.
     let segments = sort_key seg_start_index (list_segments (w_os w) (w_dir w)) in
     if segments = [] then WAL_CreateFreshSegment (w_start w) w
     else andThen (recover_from c 0 (length segments)) (\<lambda>_.
          andThen (\<lambda>w. whenP (w_segments w = []) (WAL_CreateFreshSegment (w_start w)) w) (\<lambda>_.
          modify (\<lambda>w. w\<lparr>w_start := seg_start_index (hd (w_segments w))\<rparr>)))
        (w\<lparr>w_segments := segments\<rparr>))"

definition WAL_Open :: "codec \<Rightarrow> path \<Rightarrow> nat \<Rightarrow> nat \<Rightarrow> os \<Rightarrow> wal result \<times> os" where
  "WAL_Open c dir start_index segment_size s =
     (if segment_size = 0 then (Err ZeroSegmentSize, s)
      else case andThen (onOs (sys_mkdirs dir)) (\<lambda>_.
                andThen (WAL_LoadExistingSegments c) (\<lambda>_.
                WAL_OpenActiveSegmentForAppend)) (WAL_new dir start_index segment_size s) of
          (Err e, w) \<Rightarrow> (Err e, w_os w)
        | (Ok _, w) \<Rightarrow> (Ok w, w_os w))"

section \<open>Truncation\<close>

text \<open>
  The loop of \<^verbatim>\<open>TruncateBefore\<close> over \<open>segments_\<close>: \<open>kept\<close> are the segments the iterator has
  passed, and the result says whether any was removed.
\<close>

fun truncate_before_loop ::
    "nat \<Rightarrow> SegmentMeta list \<Rightarrow> SegmentMeta list \<Rightarrow> bool \<Rightarrow> (wal, bool) prog" where
  "truncate_before_loop index kept [] removed_any = ret removed_any"
| "truncate_before_loop index kept (sg # rest) removed_any =
     (if seg_last_index sg \<noteq> 0 \<and> seg_last_index sg < index then
        andThen (WAL_RemoveSegmentEntries sg) (\<lambda>_.
        andThen (whenP (rest = []) CloseFd) (\<lambda>_.
        andThen (onOs (sys_remove (seg_path sg))) (\<lambda>_.
        andThen (modify (\<lambda>w. w\<lparr>w_segments := kept @ rest\<rparr>)) (\<lambda>_.
        truncate_before_loop index kept rest True))))
      else truncate_before_loop index (kept @ [sg]) rest removed_any)"

definition WAL_TruncateBefore :: "nat \<Rightarrow> (wal, unit) prog" where
  "WAL_TruncateBefore index = (\<lambda>w.
     if w_segments w = [] then (Ok (), w)
     else andThen (truncate_before_loop index [] (w_segments w) False) (\<lambda>removed_any.
          andThen (modify (\<lambda>w. w\<lparr>w_last_index :=
            (if w_offset_index w = [] then 0 else fst (last (w_offset_index w)))\<rparr>)) (\<lambda>_.
          andThen (\<lambda>w. whenP (w_segments w = []) (WAL_CreateFreshSegment index) w) (\<lambda>_.
          andThen (modify (\<lambda>w. w\<lparr>w_start := seg_start_index (hd (w_segments w))\<rparr>)) (\<lambda>_ w.
          whenP (removed_any \<or> w_fd w = None) WAL_OpenActiveSegmentForAppend w)))) w)"

fun remove_tail :: "SegmentMeta list \<Rightarrow> SegmentMeta list \<Rightarrow> (wal, unit) prog" where
  "remove_tail kept [] = ret ()"
| "remove_tail kept (sg # rest) =
     andThen (onOs (sys_remove (seg_path sg))) (\<lambda>_.
     andThen (modify (\<lambda>w. w\<lparr>w_segments := kept @ rest\<rparr>)) (\<lambda>_.
     remove_tail kept rest))"

text \<open>The loop of \<^verbatim>\<open>TruncateSuffix\<close>; it returns the path of the segment it cut, if any.\<close>

fun truncate_suffix_loop ::
    "nat \<Rightarrow> nat \<Rightarrow> SegmentMeta list \<Rightarrow> SegmentMeta list \<Rightarrow> (wal, path option) prog" where
  "truncate_suffix_loop index offset kept [] = ret None"
| "truncate_suffix_loop index offset kept (sg # rest) =
     (if seg_start_index sg \<ge> index then
        andThen (onOs (sys_remove (seg_path sg))) (\<lambda>_.
        andThen (modify (\<lambda>w. w\<lparr>w_segments := kept @ rest\<rparr>)) (\<lambda>_.
        truncate_suffix_loop index offset kept rest))
      else if seg_last_index sg \<ge> index then
        andThen (onOs (sys_open False False (seg_path sg))) (\<lambda>_.
        andThen (\<lambda>w. case onOs (sys_ftruncate (seg_path sg) offset) w of (r, w1) \<Rightarrow>
                     case onOs sys_close w1 of (r', w2) \<Rightarrow>
                     (case r of Err e \<Rightarrow> (Err e, w2) | Ok _ \<Rightarrow> (r', w2))) (\<lambda>_.
        let sg' = sg\<lparr>seg_size_bytes := offset,
                     seg_last_index := (if index > seg_start_index sg then index - 1 else 0)\<rparr>
        in andThen (modify (\<lambda>w. w\<lparr>w_segments := kept @ sg' # rest\<rparr>)) (\<lambda>_.
           andThen (remove_tail (kept @ [sg']) rest) (\<lambda>_.
           ret (Some (seg_path sg))))))
      else truncate_suffix_loop index offset (kept @ [sg]) rest)"

definition WAL_TruncateSuffix :: "nat \<Rightarrow> (wal, unit) prog" where
  "WAL_TruncateSuffix index = (\<lambda>w.
     if index = 0 then (Err TruncateIndexZero, w)
     else if w_offset_index w = [] \<or> index > w_last_index w then (Ok (), w)
     else andThen CloseFd (\<lambda>_ w.
       case lower_bound index (w_offset_index w) of
         [] \<Rightarrow> WAL_OpenActiveSegmentForAppend w
       | (_, loc) # _ \<Rightarrow>
           andThen (truncate_suffix_loop index (loc_offset loc) [] (w_segments w)) (\<lambda>partial.
           andThen (modify (\<lambda>w. w\<lparr>w_offset_index := filter (\<lambda>(k, _). \<not> k \<ge> index) (w_offset_index w)\<rparr>)) (\<lambda>_.
           andThen (\<lambda>w. if w_segments w = [] then WAL_CreateFreshSegment index w
                        else if partial \<noteq> None \<and> Some (seg_path (last (w_segments w))) \<noteq> partial
                        then WAL_RemoveSegmentsAfter (length (w_segments w) - 1) w
                        else (Ok (), w)) (\<lambda>_.
           andThen (modify (\<lambda>w. w\<lparr>w_start := seg_start_index (hd (w_segments w)),
             w_last_index := (if w_offset_index w = [] then index - 1
                              else fst (last (w_offset_index w)))\<rparr>)) (\<lambda>_.
           WAL_OpenActiveSegmentForAppend)))) w) w)"

definition WAL_Close :: "(wal, unit) prog" where
  "WAL_Close = CloseFd"

end
