(* ===== verification/WalInv.thy ===== *)
theory WalInv
  imports Wal Log
begin

text \<open>
  What a write-ahead log holds: \<open>wal_rep c w lay\<close> relates the state of the WAL and its
  files to a layout, the list of its segments with the entries each of them stores, and
  \<open>wal_holds c w es\<close> to the abstract log, a list of entries with contiguous indexes.
\<close>

section \<open>Layouts\<close>

abbreviation bytes_of :: "codec \<Rightarrow> LogEntry list \<Rightarrow> string" where
  "bytes_of c es \<equiv> concat (map (encode_record c) es)"

fun locs :: "codec \<Rightarrow> path \<Rightarrow> nat \<Rightarrow> LogEntry list \<Rightarrow> (nat \<times> EntryLocation) list" where
  "locs c p off [] = []"
| "locs c p off (e # es) =
     (le_index e, \<lparr>loc_path = p, loc_offset = off\<rparr>) # locs c p (off + length (encode_record c e)) es"

type_synonym layout = "(SegmentMeta \<times> LogEntry list) list"

definition entries :: "layout \<Rightarrow> LogEntry list" where
  "entries lay = concat (map snd lay)"

definition index_of :: "codec \<Rightarrow> layout \<Rightarrow> (nat \<times> EntryLocation) list" where
  "index_of c lay = concat (map (\<lambda>(sg, es). locs c (seg_path sg) 0 es) lay)"

definition seg_ok :: "path \<Rightarrow> SegmentMeta \<Rightarrow> LogEntry list \<Rightarrow> bool" where
  "seg_ok dir sg es \<longleftrightarrow>
     0 < seg_start_index sg \<and> seg_start_index sg < 2 ^ 64 \<and>
     seg_path sg = path_join dir (SegmentFileName (seg_start_index sg)) \<and>
     (if es = [] then seg_start_index sg \<le> Suc (seg_last_index sg)
      else seg_start_index sg \<le> le_index (hd es) \<and> seg_last_index sg = le_index (last es))"

definition linked :: "SegmentMeta \<times> LogEntry list \<Rightarrow> SegmentMeta \<times> LogEntry list \<Rightarrow> bool" where
  "linked a b \<longleftrightarrow> snd a \<noteq> [] \<and> seg_start_index (fst b) = Suc (seg_last_index (fst a)) \<and>
     (if snd b = [] then seg_last_index (fst b) = seg_last_index (fst a)
      else le_index (hd (snd b)) = seg_start_index (fst b))"

definition layout_ok :: "path \<Rightarrow> layout \<Rightarrow> bool" where
  "layout_ok dir lay \<longleftrightarrow> lay \<noteq> [] \<and> (\<forall>(sg, es) \<in> set lay. seg_ok dir sg es) \<and>
     successively linked lay \<and> contiguous (entries lay) \<and> (\<forall>e \<in> set (entries lay). entry_ok e)"

definition on_disk :: "codec \<Rightarrow> os \<Rightarrow> layout \<Rightarrow> bool" where
  "on_disk c s lay \<longleftrightarrow> (\<forall>(sg, es) \<in> set lay.
     file_exists s (seg_path sg) \<and> content s (seg_path sg) = bytes_of c es \<and>
     seg_size_bytes sg = length (bytes_of c es))"

definition no_strays :: "os \<Rightarrow> path \<Rightarrow> layout \<Rightarrow> bool" where
  "no_strays s dir lay \<longleftrightarrow> (\<forall>p \<in> set (dir_files s dir). \<forall>n.
     ParseSegmentStartIndex p = Ok n \<longrightarrow> p \<in> (\<lambda>x. seg_path (fst x)) ` set lay)"

definition files_rep :: "codec \<Rightarrow> path \<Rightarrow> os \<Rightarrow> layout \<Rightarrow> bool" where
  "files_rep c dir s lay \<longleftrightarrow> codec_ok c \<and> quiet s \<and> dmap (os_files s) \<and> layout_ok dir lay \<and>
     on_disk c s lay \<and> no_strays s dir lay"

text \<open>The state between two system calls of an operation, and between two operations.\<close>

definition wal_base :: "codec \<Rightarrow> wal \<Rightarrow> layout \<Rightarrow> bool" where
  "wal_base c w lay \<longleftrightarrow> files_rep c (w_dir w) (w_os w) lay \<and>
     w_segments w = map fst lay \<and> w_offset_index w = index_of c lay"

definition wal_rep :: "codec \<Rightarrow> wal \<Rightarrow> layout \<Rightarrow> bool" where
  "wal_rep c w lay \<longleftrightarrow> wal_base c w lay \<and>
     w_fd w = Some (seg_path (fst (last lay)), seg_size_bytes (fst (last lay))) \<and>
     w_start w = seg_start_index (fst (hd lay)) \<and>
     (entries lay \<noteq> [] \<longrightarrow> w_last_index w = le_index (last (entries lay)))"

definition wal_holds :: "codec \<Rightarrow> wal \<Rightarrow> LogEntry list \<Rightarrow> bool" where
  "wal_holds c w es \<longleftrightarrow> (\<exists>lay. wal_rep c w lay \<and> entries lay = es)"

named_theorems rep_defs \<open>the parts of the representation relation\<close>
declare files_rep_def [rep_defs] wal_base_def [rep_defs] wal_rep_def [rep_defs]

section \<open>Records\<close>

lemma entry_record:
  assumes "codec_ok c" and "entry_ok e"
  shows "take kRecordHeaderSize (encode_record c e @ t) = wal_header (LogEntry_Serialize c e)"
    and "drop kRecordHeaderSize (encode_record c e) = LogEntry_Serialize c e"
    and "unat (of_nat (length (LogEntry_Serialize c e)) :: u32) = length (LogEntry_Serialize c e)"
    and "length (encode_record c e) = kRecordHeaderSize + length (LogEntry_Serialize c e)"
proof -
  have "length (LogEntry_Serialize c e) < 2 ^ LENGTH(32)"
    using LogEntry_roundtrip(3) [OF assms] by simp
  then show "unat (of_nat (length (LogEntry_Serialize c e)) :: u32) = length (LogEntry_Serialize c e)"
    by (simp only: unat_of_nat mod_less)
qed (simp_all add: encode_record_def)

lemma encode_record_pos [simp]: "0 < length (encode_record c e)" "encode_record c e \<noteq> []"
  by (simp_all add: encode_record_def kRecordHeaderSize_def wal_header_def EncodeUint32LE_def)

lemma bytes_of_Nil [simp]: "bytes_of c es = [] \<longleftrightarrow> es = []"
  by (cases es) simp_all

lemma locs_append [simp]:
  "locs c p off (es @ fs) = locs c p off es @ locs c p (off + length (bytes_of c es)) fs"
  by (induction es arbitrary: off) (simp_all add: add.assoc)

lemma fst_locs [simp]: "map fst (locs c p off es) = map le_index es"
  by (induction es arbitrary: off) simp_all

lemma locs_path: "x \<in> set (locs c p off es) \<Longrightarrow> loc_path (snd x) = p"
  by (induction es arbitrary: off) auto

lemma locs_Nil [simp]: "locs c p off es = [] \<longleftrightarrow> es = []" "[] = locs c p off es \<longleftrightarrow> es = []"
  by (cases es; simp)+

lemma entries_simps [simp]:
  "entries [] = []" "entries (x # lay) = snd x @ entries lay"
  "entries (lay @ lay') = entries lay @ entries lay'"
  by (simp_all add: entries_def)

lemma index_of_simps [simp]:
  "index_of c [] = []" "index_of c ((sg, es) # lay) = locs c (seg_path sg) 0 es @ index_of c lay"
  "index_of c (lay @ lay') = index_of c lay @ index_of c lay'"
  by (simp_all add: index_of_def)

lemma fst_index_of [simp]: "map fst (index_of c lay) = map le_index (entries lay)"
  by (induction lay) auto

lemma index_of_Nil [simp]:
  "index_of c lay = [] \<longleftrightarrow> entries lay = []" "[] = index_of c lay \<longleftrightarrow> entries lay = []"
  by (metis fst_index_of map_is_Nil_conv)+

end
