(* ===== verification/WalRead.thy ===== *)
theory WalRead
  imports WalInv
begin

text \<open>
  Reading a log: every location of the offset index points at a record that reads back as
  the entry it was written for, so \<open>Read\<close>, \<open>ReadFrom\<close> and \<open>TermAt\<close> are lookups in the
  abstract log.
\<close>

section \<open>One record\<close>

lemma onOs_quiet:
  "m (w_os w) = (r, s) \<Longrightarrow> onOs m w = (r, w\<lparr>w_os := s\<rparr>)"
  by (simp add: onOs_def)

lemma ReadAt_quiet:
  assumes "quiet (w_os w)" and "file_exists (w_os w) p"
  shows "ReadAt p off n w = (Ok (take n (drop off (content (w_os w) p))), w)"
  using assms
  by (simp add: ReadAt_def onOs_def ReadExactly_quiet os_simps andThen_def)

lemma ReadRecord_ok:
  assumes "codec_ok c" and "entry_ok e" and "quiet (w_os w)"
    and "file_exists (w_os w) (loc_path loc)"
    and "content (w_os w) (loc_path loc) = pre @ encode_record c e @ post"
    and "loc_offset loc = length pre"
  shows "WAL_ReadRecordAtUnlocked c loc w = (Ok e, w)"
proof -
  note r = entry_record [OF assms(1,2)]
  let ?b = "LogEntry_Serialize c e"
  have "ReadAt (loc_path loc) (loc_offset loc) kRecordHeaderSize w = (Ok (wal_header ?b), w)"
    using ReadAt_quiet [OF assms(3,4)] assms(5,6) r(1) [of post] by simp
  moreover have "ReadAt (loc_path loc) (loc_offset loc + kRecordHeaderSize) (length ?b) w = (Ok ?b, w)"
    using ReadAt_quiet [OF assms(3,4)] assms(5,6) r(2,4) by simp
  ultimately show ?thesis
    by (simp add: WAL_ReadRecordAtUnlocked_def andThen_Ok wal_header_fields r(3)
        LogEntry_roundtrip [OF assms(1,2)])
qed

lemma reads_locs:
  assumes "codec_ok c" and "\<forall>e \<in> set es. entry_ok e" and "quiet (w_os w)"
    and "file_exists (w_os w) p"
    and "content (w_os w) p = pre @ bytes_of c es @ post"
  shows "list_all2 (\<lambda>x e. WAL_ReadRecordAtUnlocked c (snd x) w = (Ok e, w)) (locs c p (length pre) es) es"
  using assms(2,5)
proof (induction es arbitrary: pre)
  case (Cons e es)
  have "WAL_ReadRecordAtUnlocked c \<lparr>loc_path = p, loc_offset = length pre\<rparr> w = (Ok e, w)"
    using Cons.prems assms(1,3,4) by (intro ReadRecord_ok [of _ _ _ _ pre "bytes_of c es @ post"]) auto
  moreover have "list_all2 (\<lambda>x e. WAL_ReadRecordAtUnlocked c (snd x) w = (Ok e, w))
    (locs c p (length (pre @ encode_record c e)) es) es"
    using Cons.prems by (intro Cons.IH) auto
  ultimately show ?case by simp
qed simp

definition reads :: "codec \<Rightarrow> wal \<Rightarrow> layout \<Rightarrow> bool" where
  "reads c w lay = list_all2 (\<lambda>x e. WAL_ReadRecordAtUnlocked c (snd x) w = (Ok e, w))
     (index_of c lay) (entries lay)"

lemma reads_on_disk:
  assumes "codec_ok c" and "quiet (w_os w)" and "on_disk c (w_os w) lay"
    and "\<forall>e \<in> set (entries lay). entry_ok e"
  shows "reads c w lay"
  using assms(3,4)
proof (induction lay)
  case (Cons x lay)
  obtain sg es where x: "x = (sg, es)" by (cases x)
  have "reads c w lay" using Cons by (auto simp: on_disk_def)
  moreover have "list_all2 (\<lambda>x e. WAL_ReadRecordAtUnlocked c (snd x) w = (Ok e, w))
      (locs c (seg_path sg) (length ([] :: string)) es) es"
    using Cons.prems assms(1,2) by (intro reads_locs [where post = "[]"]) (auto simp: on_disk_def x)
  ultimately show ?case by (simp add: reads_def x list_all2_appendI)
qed (simp add: reads_def)

lemma wal_rep_facts:
  assumes "wal_rep c w lay"
  shows "codec_ok c" "quiet (w_os w)" "layout_ok (w_dir w) lay" "on_disk c (w_os w) lay"
    "contiguous (entries lay)" "\<forall>e \<in> set (entries lay). entry_ok e" "reads c w lay"
    "w_offset_index w = index_of c lay" "lay \<noteq> []" "w_segments w = map fst lay"
    "no_strays (w_os w) (w_dir w) lay" "dmap (os_files (w_os w))"
  using assms reads_on_disk [of c w lay] by (auto simp: rep_defs layout_ok_def)

section \<open>Lookups\<close>

lemma map_of_reads:
  assumes "list_all2 (\<lambda>x e. WAL_ReadRecordAtUnlocked c (snd x) w = (Ok e, w)) ix es"
    and "map fst ix = map le_index es"
  shows "(case map_of ix i of None \<Rightarrow> (Err (IndexNotFound i), w)
            | Some loc \<Rightarrow> WAL_ReadRecordAtUnlocked c loc w) =
         (case log_read es i of None \<Rightarrow> (Err (IndexNotFound i), w) | Some e \<Rightarrow> (Ok e, w))"
  using assms
proof (induction ix es rule: list_all2_induct)
  case (Cons x xs e es)
  then show ?case by (cases x) (auto simp: log_read_def)
qed (simp add: log_read_def)

lemma WAL_Read_spec:
  assumes "wal_holds c w es"
  shows "WAL_Read c i w =
    (case log_read es i of None \<Rightarrow> (Err (IndexNotFound i), w) | Some e \<Rightarrow> (Ok e, w))"
proof -
  obtain lay where "wal_rep c w lay" and es: "entries lay = es"
    using assms by (auto simp: wal_holds_def)
  note f = wal_rep_facts [OF this(1)]
  show ?thesis
    using map_of_reads [of c w "index_of c lay" es i] f(7)
    by (simp add: WAL_Read_def f(8) reads_def es)
qed

lemma WAL_TermAt_spec:
  assumes "wal_holds c w es"
  shows "WAL_TermAt c i w =
    (if i = 0 then (Ok 0, w) else
     case log_read es i of None \<Rightarrow> (Err (IndexNotFound i), w) | Some e \<Rightarrow> (Ok (le_term e), w))"
  using WAL_Read_spec [OF assms, of i]
  by (auto simp: WAL_TermAt_def ret_def andThen_def split: option.splits)

lemma read_batch_reads:
  assumes "list_all2 (\<lambda>x e. WAL_ReadRecordAtUnlocked c (snd x) w = (Ok e, w)) ix es"
  shows "read_batch c ix n acc w = (Ok (acc @ take (n - length acc) es), w)"
  using assms
proof (induction ix es arbitrary: acc rule: list_all2_induct)
  case (Cons x xs e es)
  obtain k loc where x: "x = (k, loc)" by (cases x)
  show ?case
  proof (cases "length acc \<ge> n")
    case False
    then have "n - length acc = Suc (n - length (acc @ [e]))" by simp
    then show ?thesis using Cons False by (simp add: x andThen_Ok)
  qed (simp add: x ret_def)
qed (simp add: ret_def)

lemma lower_bound_reads:
  assumes "list_all2 (\<lambda>x e. WAL_ReadRecordAtUnlocked c (snd x) w = (Ok e, w)) ix es"
    and "map fst ix = map le_index es" and "sorted_wrt (<) (map le_index es)"
  shows "list_all2 (\<lambda>x e. WAL_ReadRecordAtUnlocked c (snd x) w = (Ok e, w))
      (lower_bound i ix) (log_from es i)"
    and "map fst (lower_bound i ix) = map le_index (log_from es i)"
  using assms
proof (induction ix es rule: list_all2_induct)
  case (Cons x xs e es)
  {
    case 1
    have "filter (\<lambda>e. i \<le> le_index e) es = es" if "i \<le> le_index e"
      using 1 that by (intro filter_True) auto
    then show ?case using 1 Cons by (cases x) (auto simp: lower_bound_def log_from_def)
  next
    case 2
    have "filter (\<lambda>e. i \<le> le_index e) es = es" if "i \<le> le_index e"
      using 2 that by (intro filter_True) auto
    then show ?case using 2 Cons by (cases x) (auto simp: lower_bound_def log_from_def)
  }
qed (simp_all add: lower_bound_def log_from_def)

text \<open>
  \<^verbatim>\<open>ReadFrom\<close>: nothing beyond the end, an error below the first entry, and otherwise the
  entries from \<open>i\<close> on, at most \<open>n\<close> of them.
\<close>

lemma WAL_ReadFrom_spec:
  assumes "wal_holds c w es"
  shows "WAL_ReadFrom c i n w =
    (if n = 0 \<or> es = [] \<or> i > le_index (last es) then (Ok [], w)
     else if i < le_index (hd es) then (Err (IndexNotFound i), w)
     else (Ok (take n (log_from es i)), w))"
proof -
  obtain lay where rep: "wal_rep c w lay" and es: "entries lay = es"
    using assms by (auto simp: wal_holds_def)
  note f = wal_rep_facts [OF rep]
  note cs = contiguous_sorted [OF f(5), unfolded es]
  note lb = lower_bound_reads [OF f(7) [unfolded reads_def es] _ cs, of i, simplified es fst_index_of]
  show ?thesis
  proof (cases "n = 0 \<or> es = [] \<or> i > le_index (last es)")
    case True
    then show ?thesis using rep by (auto simp: WAL_ReadFrom_def f(8) es wal_rep_def)
  next
    case False
    then have last: "w_last_index w = le_index (last es)" using rep by (auto simp: wal_rep_def es)
    have "last es \<in> set (log_from es i)" using False by (auto simp: log_from_def)
    then have ne: "log_from es i \<noteq> []" by (metis list.set(1) empty_iff)
    then obtain k loc ix where ix: "lower_bound i (index_of c lay) = (k, loc) # ix"
      using lb(2) by (cases "lower_bound i (index_of c lay)") (auto simp: es)
    then have k: "k = le_index (hd (log_from es i))" using lb(2) ne
      by (cases "log_from es i") (auto simp: es)
    have "k = i \<longleftrightarrow> le_index (hd es) \<le> i"
    proof
      assume "k = i"
      moreover have "hd (log_from es i) \<in> set es" using ne by (auto simp: log_from_def dest: hd_in_set)
      moreover have "le_index (hd es) \<le> le_index e" if "e \<in> set es" for e
        using cs that by (cases es) auto
      ultimately show "le_index (hd es) \<le> i" using k by metis
    next
      assume "le_index (hd es) \<le> i"
      then have "log_read es i = Some (es ! (i - le_index (hd es)))"
        using False log_read_nth [OF f(5) [unfolded es], of i] by auto
      then obtain e where e: "e \<in> set es" "le_index e = i"
        unfolding log_read_def find_Some_iff by (metis nth_mem)
      moreover have srt: "sorted_wrt (<) (map le_index (log_from es i))"
        using cs unfolding log_from_def by (metis sorted_wrt_filter sorted_wrt_map)
      ultimately show "k = i"
        using k ne by (cases "log_from es i") (force simp: log_from_def filter_eq_Cons_iff)+
    qed
    then show ?thesis
      using False last read_batch_reads [OF lb(1), of n "[]"] ix
      by (auto simp: WAL_ReadFrom_def f(8) es)
  qed
qed

end
