(* ===== verification/WalAppend.thy ===== *)
theory WalAppend
  imports WalRead
begin

text \<open>
  \<^verbatim>\<open>WAL::Append\<close> on a log without I/O faults: segments are rotated, the record is written at the
  end of the active segment, and the abstract log grows by the entry.
\<close>

section \<open>Segments of a layout\<close>

lemma layout_okD:
  assumes "layout_ok dir lay"
  shows "lay \<noteq> []" "\<forall>(sg, es) \<in> set lay. seg_ok dir sg es" "successively linked lay"
    "contiguous (entries lay)" "\<forall>e \<in> set (entries lay). entry_ok e"
  using assms by (simp_all add: layout_ok_def)

lemma entries_split: "(sg, es) \<in> set lay \<Longrightarrow> \<exists>a b. entries lay = a @ es @ b"
  by (metis split_list entries_simps(2,3) snd_conv)

lemma seg_range:
  assumes "layout_ok dir lay" and "(sg, es) \<in> set lay" and "es \<noteq> []"
  shows "seg_start_index sg \<le> seg_last_index sg"
proof -
  obtain a b where "entries lay = a @ es @ b" using entries_split [OF assms(2)] by blast
  then have "contiguous es"
    using layout_okD(4) [OF assms(1)] by (metis contiguous_append)
  then have "le_index (hd es) \<le> le_index (last es)"
    using contiguous_last assms(3) by (cases es) fastforce+
  moreover have "seg_ok dir sg es" using layout_okD(2) [OF assms(1)] assms(2) by auto
  ultimately show ?thesis using assms(3) by (simp add: seg_ok_def)
qed

lemma layout_starts:
  assumes "layout_ok dir lay"
  shows "sorted_wrt (\<lambda>a b. seg_start_index (fst a) < seg_start_index (fst b)) lay"
proof -
  have "successively (\<lambda>a b. seg_start_index (fst a) < seg_start_index (fst b)) lay"
    using layout_okD(3) [OF assms]
  proof (rule successively_mono)
    fix a b
    assume "a \<in> set lay" "b \<in> set lay" "linked a b"
    then show "seg_start_index (fst a) < seg_start_index (fst b)"
      using seg_range [OF assms, of "fst a" "snd a"] by (auto simp: linked_def)
  qed
  then show ?thesis
    by (subst (asm) successively_conv_sorted_wrt) (auto simp: transp_def)
qed

lemma seg_paths_inj:
  assumes "layout_ok dir lay" and "a \<in> set lay" and "b \<in> set lay"
    and "seg_path (fst a) = seg_path (fst b)"
  shows "seg_start_index (fst a) = seg_start_index (fst b)"
proof -
  have "seg_ok dir (fst a) (snd a)" "seg_ok dir (fst b) (snd b)"
    using layout_okD(2) [OF assms(1)] assms(2,3) by auto
  then show ?thesis
    using assms(4) SegmentFileName_inj [of "seg_start_index (fst a)" "seg_start_index (fst b)" dir]
    by (simp add: seg_ok_def)
qed

lemma layout_paths:
  assumes "layout_ok dir (L @ x # M)"
  shows "\<forall>y \<in> set L \<union> set M. seg_path (fst y) \<noteq> seg_path (fst x)"
proof
  fix y
  assume y: "y \<in> set L \<union> set M"
  have "seg_start_index (fst y) \<noteq> seg_start_index (fst x)"
    using layout_starts [OF assms] y by (auto simp: sorted_wrt_append)
  then show "seg_path (fst y) \<noteq> seg_path (fst x)"
    using seg_paths_inj [OF assms, of y x] y by auto
qed

lemma set_dir_files:
  "set (dir_files s d) =
     {p. file_exists s p \<and> p = path_join d (path_filename p) \<and> path_filename p \<noteq> []}"
  by (auto simp: dir_files_def file_exists_dom)

lemma on_disk_append [simp]: "on_disk c s (L @ M) \<longleftrightarrow> on_disk c s L \<and> on_disk c s M"
  by (auto simp: on_disk_def)

lemma on_disk_Cons [simp]:
  "on_disk c s ((sg, es) # L) \<longleftrightarrow> file_exists s (seg_path sg) \<and>
     content s (seg_path sg) = bytes_of c es \<and> seg_size_bytes sg = length (bytes_of c es) \<and>
     on_disk c s L" "on_disk c s []"
  by (auto simp: on_disk_def)

lemma on_disk_others:
  assumes "\<forall>y \<in> set L. file_exists s' (seg_path (fst y)) = file_exists s (seg_path (fst y)) \<and>
    content s' (seg_path (fst y)) = content s (seg_path (fst y))"
  shows "on_disk c s' L = on_disk c s L"
  using assms by (induction L) auto

abbreviation lay_paths :: "layout \<Rightarrow> path set" where
  "lay_paths lay \<equiv> (\<lambda>x. seg_path (fst x)) ` set lay"

lemma no_strays_update:
  assumes "no_strays s dir lay"
    and "\<And>p. file_exists s' p \<Longrightarrow> p \<in> lay_paths lay' \<or> file_exists s p \<and> p \<notin> lay_paths lay"
  shows "no_strays s' dir lay'"
  using assms unfolding no_strays_def set_dir_files by blast

section \<open>A fresh segment\<close>

lemma seg_ok_fresh:
  assumes "0 < i" and "i < 2 ^ 64"
  shows "seg_ok dir \<lparr>seg_start_index = i, seg_last_index = (if i > 0 then i - 1 else 0),
    seg_size_bytes = 0, seg_path = path_join dir (SegmentFileName i)\<rparr> []"
  using assms by (simp add: seg_ok_def)

lemma files_rep_fresh:
  assumes rep: "files_rep c dir s lay" and i: "i = Suc (seg_last_index (fst (last lay)))" "i < 2 ^ 64"
    and ne: "snd (last lay) \<noteq> []"
    and sg: "sg = \<lparr>seg_start_index = i, seg_last_index = i - 1, seg_size_bytes = 0,
      seg_path = path_join dir (SegmentFileName i)\<rparr>"
  shows "files_rep c dir (put_file (seg_path sg) [] s) (lay @ [(sg, [])])"
proof -
  have lay: "layout_ok dir lay" using rep by (simp add: files_rep_def)
  have lay': "layout_ok dir (lay @ [(sg, [])])"
    using layout_okD [OF lay] i ne
    by (auto simp: layout_ok_def sg seg_ok_def successively_append_iff linked_def)
  have other: "\<forall>y \<in> set lay. seg_path (fst y) \<noteq> seg_path sg"
    using layout_paths [OF lay'] by simp
  have "on_disk c (put_file (seg_path sg) [] s) (lay @ [(sg, [])])"
    using rep other on_disk_others [of lay "put_file (seg_path sg) [] s" s c]
    by (simp add: files_rep_def sg)
  moreover have "no_strays (put_file (seg_path sg) [] s) dir (lay @ [(sg, [])])"
    using rep by (auto simp: files_rep_def no_strays_def set_dir_files)
  ultimately show ?thesis using rep lay' by (simp add: files_rep_def)
qed

lemma CreateFreshSegment_quiet:
  assumes "quiet (w_os w)" and "0 < i"
  shows "WAL_CreateFreshSegment i w = (Ok (),
    w\<lparr>w_os := put_file (path_join (w_dir w) (SegmentFileName i)) [] (w_os w),
      w_segments := w_segments w @ [\<lparr>seg_start_index = i, seg_last_index = i - 1,
        seg_size_bytes = 0, seg_path = path_join (w_dir w) (SegmentFileName i)\<rparr>]\<rparr>)"
  using assms
  by (simp add: WAL_CreateFreshSegment_def andThen_def onOs_def os_simps modify_def Let_def)

lemma CloseFd_quiet: "quiet (w_os w) \<Longrightarrow> CloseFd w = (Ok (), w\<lparr>w_fd := None\<rparr>)"
  by (cases "w_fd w") (simp_all add: CloseFd_def andThen_def onOs_def os_simps modify_def)

lemma OpenActive_quiet:
  assumes "quiet (w_os w)" and "w_segments w \<noteq> []"
    and "file_exists (w_os w) (seg_path (last (w_segments w)))"
  shows "WAL_OpenActiveSegmentForAppend w = (Ok (), w\<lparr>w_fd :=
    Some (seg_path (last (w_segments w)), seg_size_bytes (last (w_segments w)))\<rparr>)"
  using assms
  by (simp add: WAL_OpenActiveSegmentForAppend_def andThen_def CloseFd_quiet onOs_def os_simps Let_def)

lemma wal_base_last:
  assumes "wal_base c w lay"
  shows "w_segments w \<noteq> []" "last (w_segments w) = fst (last lay)" "quiet (w_os w)"
    "file_exists (w_os w) (seg_path (fst (last lay)))"
    "content (w_os w) (seg_path (fst (last lay))) = bytes_of c (snd (last lay))"
    "seg_size_bytes (fst (last lay)) = length (bytes_of c (snd (last lay)))"
proof -
  have ne: "lay \<noteq> []" using assms by (auto simp: rep_defs layout_ok_def)
  then have "(fst (last lay), snd (last lay)) \<in> set lay" by simp
  then have d: "case (fst (last lay), snd (last lay)) of (sg, es) \<Rightarrow>
    file_exists (w_os w) (seg_path sg) \<and> content (w_os w) (seg_path sg) = bytes_of c es \<and>
    seg_size_bytes sg = length (bytes_of c es)"
    using assms unfolding rep_defs on_disk_def by blast
  then show "w_segments w \<noteq> []" "last (w_segments w) = fst (last lay)" "quiet (w_os w)"
    "file_exists (w_os w) (seg_path (fst (last lay)))"
    "content (w_os w) (seg_path (fst (last lay))) = bytes_of c (snd (last lay))"
    "seg_size_bytes (fst (last lay)) = length (bytes_of c (snd (last lay)))"
    using assms ne by (auto simp: rep_defs last_map)
qed

lemma OpenActive_base:
  assumes "wal_base c w lay"
  shows "WAL_OpenActiveSegmentForAppend w = (Ok (), w\<lparr>w_fd :=
    Some (seg_path (fst (last lay)), seg_size_bytes (fst (last lay)))\<rparr>)"
  using OpenActive_quiet [of w] wal_base_last [OF assms] by simp

section \<open>Making room for a record\<close>

lemma wal_rep_base: "wal_rep c w lay \<Longrightarrow> wal_base c w lay"
  by (simp add: wal_rep_def)

lemma last_entries:
  assumes "layout_ok dir lay" and "snd (last lay) \<noteq> []"
  shows "entries lay \<noteq> []" "last (entries lay) = last (snd (last lay))"
    "seg_last_index (fst (last lay)) = le_index (last (entries lay))"
proof -
  have ne: "lay \<noteq> []" using layout_okD(1) [OF assms(1)] .
  then obtain L x where L: "lay = L @ [x]" by (metis append_butlast_last_id)
  then show *: "entries lay \<noteq> []" "last (entries lay) = last (snd (last lay))" using assms(2) by auto
  have "seg_ok dir (fst x) (snd x)" using layout_okD(2) [OF assms(1)] by (auto simp: L)
  then show "seg_last_index (fst (last lay)) = le_index (last (entries lay))"
    using assms(2) * by (simp add: seg_ok_def L)
qed

lemma last_entries_index:
  assumes "layout_ok dir lay" and "entries lay \<noteq> []"
  shows "seg_last_index (fst (last lay)) = le_index (last (entries lay))"
proof (cases "snd (last lay) = []")
  case False
  then show ?thesis by (rule last_entries(3) [OF assms(1)])
next
  case True
  note d = layout_okD [OF assms(1)]
  obtain L sg where L: "lay = L @ [(sg, [])]"
    using d(1) True by (metis append_butlast_last_id prod.collapse)
  then have ne: "L \<noteq> []" using assms(2) by auto
  then have lk: "linked (last L) (sg, [])" using d(3) by (simp add: L successively_append_iff)
  have "layout_ok dir L"
    using d ne by (auto simp: L layout_ok_def successively_append_iff)
  then show ?thesis using last_entries(3) [of dir L] lk by (simp add: L linked_def)
qed

lemma EnsureActive_rep:
  assumes rep: "wal_rep c w lay" and i: "0 < i" "i < 2 ^ 64" and nx: "follows (w_start w) (entries lay) i"
  shows "\<exists>w' lay'. WAL_EnsureActiveSegmentForAppend i n w = (Ok (), w') \<and> wal_rep c w' lay' \<and>
    entries lay' = entries lay \<and> w_start w' = w_start w \<and> w_last_index w' = w_last_index w \<and>
    w_dir w' = w_dir w \<and> w_segment_size_bytes w' = w_segment_size_bytes w"
proof -
  note b = wal_rep_base [OF rep]
  note l = wal_base_last [OF b]
  have ens: "WAL_EnsureActiveSegmentForAppend i n w =
     (if seg_size_bytes (fst (last lay)) \<noteq> 0 \<and>
         seg_size_bytes (fst (last lay)) + n > w_segment_size_bytes w
      then WAL_RotateSegment i w
      else if w_fd w = None then WAL_OpenActiveSegmentForAppend w else (Ok (), w))"
    using l(1,2) by (simp add: WAL_EnsureActiveSegmentForAppend_def andThen_def prog_simps)
  define act where "act = fst (last lay)"
  show ?thesis
  proof (cases "seg_size_bytes act \<noteq> 0 \<and> seg_size_bytes act + n > w_segment_size_bytes w")
    case False
    then have "WAL_EnsureActiveSegmentForAppend i n w = (Ok (), w)"
      using rep by (auto simp: ens act_def wal_rep_def)
    then show ?thesis using rep by blast
  next
    case True
    then have ne: "snd (last lay) \<noteq> []" using l(6) by (auto simp: act_def)
    have lay: "layout_ok (w_dir w) lay" using b by (simp add: rep_defs)
    note le = last_entries [OF lay ne]
    have i': "i = Suc (seg_last_index (fst (last lay)))" using nx le by (simp add: follows_def)
    define sg where "sg = \<lparr>seg_start_index = i, seg_last_index = i - 1, seg_size_bytes = 0,
      seg_path = path_join (w_dir w) (SegmentFileName i)\<rparr>"
    define w1 where "w1 = w\<lparr>w_fd := None, w_os := put_file (seg_path sg) [] (w_os w),
      w_segments := w_segments w @ [sg]\<rparr>"
    have fr: "files_rep c (w_dir w) (put_file (seg_path sg) [] (w_os w)) (lay @ [(sg, [])])"
      using files_rep_fresh [OF _ i' i(2) ne sg_def] b by (simp add: wal_base_def)
    then have b1: "wal_base c w1 (lay @ [(sg, [])])" using b by (simp add: wal_base_def w1_def)
    have "WAL_EnsureActiveSegmentForAppend i n w = WAL_RotateSegment i w"
      using True by (simp add: ens act_def)
    also have "\<dots> = WAL_OpenActiveSegmentForAppend w1"
      using CreateFreshSegment_quiet [of "w\<lparr>w_fd := None\<rparr>" i] CloseFd_quiet [OF l(3)] l(3) i(1)
      by (simp add: WAL_RotateSegment_def andThen_Ok w1_def sg_def)
    also have "\<dots> = (Ok (), w1\<lparr>w_fd := Some (seg_path sg, seg_size_bytes sg)\<rparr>)"
      using OpenActive_base [OF b1] by simp
    finally have run: "WAL_EnsureActiveSegmentForAppend i n w =
      (Ok (), w1\<lparr>w_fd := Some (seg_path sg, seg_size_bytes sg)\<rparr>)" .
    have "wal_rep c (w1\<lparr>w_fd := Some (seg_path sg, seg_size_bytes sg)\<rparr>) (lay @ [(sg, [])])"
      using b1 rep layout_okD(1) [OF lay] by (auto simp: wal_rep_def wal_base_def w1_def)
    with run show ?thesis by (force simp: w1_def)
  qed
qed

section \<open>Writing the record\<close>

lemma WriteFd_quiet:
  assumes "quiet (w_os w)" and "w_fd w = Some (p, n)" and "n = length (content (w_os w) p)" and "d \<noteq> []"
  shows "WriteFd d w = (Ok (),
    w\<lparr>w_fd := Some (p, n + length d),
      w_os := put_file p (content (w_os w) p @ d) (w_os w)\<rparr>)"
  using assms by (simp add: WriteFd_def WriteAll_quiet)

lemma EncodeUint32LE_not_Nil [simp]: "EncodeUint32LE v \<noteq> []"
  by (simp add: EncodeUint32LE_def)

lemma files_rep_grow:
  assumes rep: "files_rep c dir s (L @ [(sg, es)])" and e: "entry_ok e"
    and nx: "if entries (L @ [(sg, es)]) = [] then seg_start_index sg \<le> le_index e
             else le_index e = Suc (le_index (last (entries (L @ [(sg, es)]))))"
    and sg': "sg' = sg\<lparr>seg_size_bytes := seg_size_bytes sg + length (encode_record c e),
      seg_last_index := le_index e\<rparr>"
  shows "files_rep c dir (put_file (seg_path sg) (content s (seg_path sg) @ encode_record c e) s)
    (L @ [(sg', es @ [e])])"
proof -
  let ?lay = "L @ [(sg, es)]" and ?lay' = "L @ [(sg', es @ [e])]"
  have lay: "layout_ok dir ?lay" using rep by (simp add: files_rep_def)
  note d = layout_okD [OF lay]
  have cont: "contiguous (entries ?lay')"
    using contiguous_snoc [OF d(4), of e] nx by (simp split: if_splits)
  have start: "le_index e = seg_start_index sg" if "es = []" "L \<noteq> []"
  proof -
    have lk: "linked (last L) (sg, es)" using d(3) that by (auto simp: successively_append_iff)
    have "layout_ok dir L"
      using d that(2) by (auto simp: layout_ok_def successively_append_iff dest: contiguous_append)
    with lk nx that show ?thesis using last_entries [of dir L] by (auto simp: linked_def)
  qed
  have hd: "seg_start_index sg \<le> le_index (hd (es @ [e])) \<and>
      (L \<noteq> [] \<longrightarrow> le_index (hd (es @ [e])) = seg_start_index sg)"
  proof (cases "es = []")
    case True
    then show ?thesis using start nx by (cases "L = []") auto
  next
    case False
    then show ?thesis using d(2,3) by (auto simp: seg_ok_def successively_append_iff linked_def)
  qed
  have "seg_ok dir sg' (es @ [e])" using d(2) hd by (auto simp: seg_ok_def sg')
  moreover have "successively linked ?lay'"
    using d(3) hd by (auto simp: successively_append_iff linked_def sg')
  ultimately have lay': "layout_ok dir ?lay'"
    using d(2,5) cont e by (auto simp: layout_ok_def)
  have "on_disk c (put_file (seg_path sg) (content s (seg_path sg) @ encode_record c e) s) ?lay'"
    using rep layout_paths [OF lay]
      on_disk_others [of L "put_file (seg_path sg) (content s (seg_path sg) @ encode_record c e) s" s c]
    by (simp add: files_rep_def sg')
  moreover have "no_strays (put_file (seg_path sg) (content s (seg_path sg) @ encode_record c e) s) dir ?lay'"
    using rep by (auto simp: files_rep_def no_strays_def set_dir_files sg')
  ultimately show ?thesis
    using rep lay' unfolding files_rep_def by (metis dmap_put_file io_put_file)
qed

lemma write_record:
  assumes "codec_ok c" and "entry_ok e" and "quiet (w_os w)"
    and "w_fd w = Some (p, length (content (w_os w) p))"
  shows "andThen (WriteFd (EncodeUint32LE kWalMagic)) (\<lambda>_.
      andThen (WriteFd (EncodeUint32LE (of_nat (length (LogEntry_Serialize c e))))) (\<lambda>_.
      andThen (WriteFd (EncodeUint32LE (ComputeCrc32 (LogEntry_Serialize c e)))) (\<lambda>_.
      andThen (WriteFd (LogEntry_Serialize c e)) f))) w =
    f () (w\<lparr>w_fd := Some (p, length (content (w_os w) p) + length (encode_record c e)),
            w_os := put_file p (content (w_os w) p @ encode_record c e) (w_os w)\<rparr>)"
  using assms(3,4) LogEntry_roundtrip(2) [OF assms(1,2)]
  by (simp add: andThen_def WriteFd_quiet encode_record_def wal_header_def kRecordHeaderSize_def
      add.assoc)

section \<open>Append\<close>

lemma omap_put_index:
  assumes "layout_ok dir lay" and "\<And>x. x \<in> set (entries lay) \<Longrightarrow> le_index x < i"
  shows "omap_put i v (index_of c lay) = index_of c lay @ [(i, v)]"
proof (rule omap_put_last)
  have "fst ` set (index_of c lay) = le_index ` set (entries lay)"
    by (metis fst_index_of list.set_map)
  then show "\<forall>k' \<in> fst ` set (index_of c lay). k' < i" using assms(2) by auto
qed

lemma WAL_Append_step:
  assumes rep: "wal_rep c w lay" and e: "entry_ok e"
    and nx: "follows (w_start w) (entries lay) (le_index e)" and e_off: "le_index e = i"
    and w': "w' = w\<lparr>w_fd := Some (seg_path (fst (last lay)),
        length (bytes_of c (snd (last lay))) + length (encode_record c e)),
      w_os := put_file (seg_path (fst (last lay)))
        (bytes_of c (snd (last lay)) @ encode_record c e) (w_os w),
      w_segments := butlast (w_segments w) @ [(fst (last lay))\<lparr>
        seg_size_bytes := seg_size_bytes (fst (last lay)) + length (encode_record c e),
        seg_last_index := i\<rparr>],
      w_offset_index := omap_put i \<lparr>loc_path = seg_path (fst (last lay)),
        loc_offset = seg_size_bytes (fst (last lay))\<rparr> (w_offset_index w),
      w_last_index := i\<rparr>"
  shows "wal_holds c w' (entries lay @ [e])"
proof -
  note b = wal_rep_base [OF rep]
  note l = wal_base_last [OF b]
  have lay: "layout_ok (w_dir w) lay" using b by (simp add: rep_defs)
  note d = layout_okD [OF lay]
  obtain L sg es where L: "lay = L @ [(sg, es)]"
    using d(1) by (metis append_butlast_last_id surj_pair)
  define sg' where "sg' = sg\<lparr>seg_size_bytes := seg_size_bytes sg + length (encode_record c e),
    seg_last_index := i\<rparr>"
  have st: "L = [] \<Longrightarrow> w_start w = seg_start_index sg" using rep by (simp add: L wal_rep_def)
  have Lne: "entries lay \<noteq> []" if "L \<noteq> []"
  proof -
    have "linked (last L) (sg, es)" using d(3) that by (auto simp: L successively_append_iff)
    moreover have "last L \<in> set L" using that by simp
    ultimately show ?thesis by (force simp: L linked_def entries_def)
  qed
  have g: "files_rep c (w_dir w) (put_file (seg_path sg) (content (w_os w) (seg_path sg) @
      encode_record c e) (w_os w)) (L @ [(sg', es @ [e])])"
  proof (rule files_rep_grow)
    show "files_rep c (w_dir w) (w_os w) (L @ [(sg, es)])" using b by (simp add: wal_base_def L)
    show "if entries (L @ [(sg, es)]) = [] then seg_start_index sg \<le> le_index e
      else le_index e = Suc (le_index (last (entries (L @ [(sg, es)]))))"
      using nx st Lne by (cases "L = []") (auto simp: follows_def L)
  qed (simp_all add: e sg'_def e_off)
  have "\<And>x. x \<in> set (entries lay) \<Longrightarrow> le_index x < i"
    using nx last_index_max [OF d(4)] e_off
    by (fastforce simp: follows_def less_Suc_eq_le split: if_splits)
  then have ix: "omap_put i v (index_of c lay) = index_of c lay @ [(i, v)]" for v
    by (rule omap_put_index [OF lay])
  have "wal_base c w' (L @ [(sg', es @ [e])])"
    using g b l ix by (simp add: wal_base_def w' L sg'_def e_off)
  then have "wal_rep c w' (L @ [(sg', es @ [e])])"
    using rep l by (cases L) (auto simp: wal_rep_def w' L sg'_def e_off)
  then show ?thesis unfolding wal_holds_def by (rule exI [of _ "L @ [(sg', es @ [e])]", OF conjI]) (simp add: L)
qed

lemma WAL_Append_spec:
  assumes h: "wal_holds c w es" and e: "entry_ok e" and nx: "follows (w_start w) es (le_index e)"
  shows "\<exists>w'. WAL_Append c e w = (Ok (), w') \<and> wal_holds c w' (es @ [e]) \<and>
    w_last_index w' = le_index e \<and> w_start w' = w_start w"
proof -
  obtain lay where rep: "wal_rep c w lay" and es: "entries lay = es"
    using h by (auto simp: wal_holds_def)
  have c: "codec_ok c" using wal_rep_facts(1) [OF rep] .
  have "w_offset_index w \<noteq> [] \<Longrightarrow> le_index e = w_last_index w + 1"
    using rep nx by (auto simp: rep_defs follows_def es)
  moreover have "LogEntry_Serialize c e \<noteq> []" and "\<not> 2 ^ 32 - 1 < length (LogEntry_Serialize c e)"
    using LogEntry_roundtrip [OF c e] by simp_all
  ultimately have run: "WAL_Append c e w = andThen
      (WAL_EnsureActiveSegmentForAppend (le_index e) (length (encode_record c e))) (\<lambda>_ w.
       andThen (WriteFd (EncodeUint32LE kWalMagic)) (\<lambda>_.
       andThen (WriteFd (EncodeUint32LE (of_nat (length (LogEntry_Serialize c e))))) (\<lambda>_.
       andThen (WriteFd (EncodeUint32LE (ComputeCrc32 (LogEntry_Serialize c e)))) (\<lambda>_.
       andThen (WriteFd (LogEntry_Serialize c e)) (\<lambda>_. modify (\<lambda>w1. w1\<lparr>
         w_segments := butlast (w_segments w1) @ [(last (w_segments w))\<lparr>
           seg_size_bytes := seg_size_bytes (last (w_segments w)) + length (encode_record c e),
           seg_last_index := le_index e\<rparr>],
         w_offset_index := omap_put (le_index e) \<lparr>loc_path = seg_path (last (w_segments w)),
           loc_offset = seg_size_bytes (last (w_segments w))\<rparr> (w_offset_index w1),
         w_last_index := le_index e\<rparr>))))) w) w"
    unfolding WAL_Append_def Let_def by (auto simp: entry_record [OF c e])
  obtain w1 lay1 where w1: "WAL_EnsureActiveSegmentForAppend (le_index e) (length (encode_record c e)) w =
      (Ok (), w1)" "wal_rep c w1 lay1" "entries lay1 = es" "w_start w1 = w_start w"
    using EnsureActive_rep [OF rep _ _ nx [folded es]] e es by (fastforce simp: entry_ok_def)
  have ens: "andThen (WAL_EnsureActiveSegmentForAppend (le_index e) (length (encode_record c e))) f w =
    f () w1" for f :: "unit \<Rightarrow> (wal, unit) prog" by (simp add: andThen_def w1(1))
  note l = wal_base_last [OF wal_rep_base [OF w1(2)]]
  have fd: "w_fd w1 = Some (seg_path (fst (last lay1)),
      length (content (w_os w1) (seg_path (fst (last lay1)))))"
    using w1(2) l by (simp add: wal_rep_def)
  note wr = write_record [OF c e l(3) fd]
  have "follows (w_start w1) (entries lay1) (le_index e)" using nx w1(3,4) by (simp add: follows_def)
  from WAL_Append_step [OF w1(2) e this refl refl] show ?thesis
    unfolding run ens wr modify_def
    by (auto simp: l w1 entry_record [OF c e])
qed

text \<open>An index that does not follow the last one is refused, and nothing changes.\<close>

lemma WAL_Append_gap:
  assumes "wal_holds c w es" and "es \<noteq> []" and "le_index e \<noteq> Suc (le_index (last es))"
  shows "WAL_Append c e w = (Err IndexNotContiguous, w)"
  using assms by (auto simp: wal_holds_def WAL_Append_def rep_defs)

end
