(* ===== verification/WalTruncate.thy ===== *)
theory WalTruncate
  imports WalAppend
begin

text \<open>
  \<^verbatim>\<open>WAL::TruncateSuffix\<close> and \<^verbatim>\<open>WAL::TruncateBefore\<close> on a log without I/O faults: the first keeps
  exactly the entries below the index, the second drops whole segments below it.
\<close>

section \<open>Cutting a layout\<close>

lemma lower_bound_append:
  "\<forall>k \<in> fst ` set xs. k < i \<Longrightarrow> lower_bound i (xs @ ys) = lower_bound i ys"
  by (induction xs) (auto simp: lower_bound_def)

lemma keys_index_of: "fst ` set (index_of c lay) = le_index ` set (entries lay)"
  by (metis fst_index_of list.set_map)

lemma keys_locs: "fst ` set (locs c p off es) = le_index ` set es"
  by (metis fst_locs list.set_map)

lemma filter_keys_all: "\<forall>k \<in> fst ` set xs. P k \<Longrightarrow> filter (\<lambda>(k, _). P k) xs = xs"
  and filter_keys_none: "\<forall>k \<in> fst ` set xs. \<not> P k \<Longrightarrow> filter (\<lambda>(k, _). P k) xs = []"
  by (auto simp: filter_id_conv filter_empty_conv)

lemma layout_prefix:
  assumes "layout_ok dir (K @ M)" and "K \<noteq> []"
  shows "layout_ok dir K"
  using assms by (auto simp: layout_ok_def successively_append_iff dest: contiguous_append)

lemma layout_suffix:
  assumes "layout_ok dir (K @ M)" and "M \<noteq> []"
  shows "layout_ok dir M"
  using assms by (auto simp: layout_ok_def successively_append_iff dest: contiguous_append)

lemma seg_entries_range:
  assumes "layout_ok dir lay" and "(sg, es) \<in> set lay" and "e \<in> set es"
  shows "seg_start_index sg \<le> le_index e" and "le_index e \<le> seg_last_index sg"
proof -
  obtain a b where "entries lay = a @ es @ b" using entries_split [OF assms(2)] by blast
  then have c: "contiguous es"
    using layout_okD(4) [OF assms(1)] by (metis contiguous_append)
  have ne: "es \<noteq> []" using assms(3) by auto
  have ok: "seg_ok dir sg es" using layout_okD(2) [OF assms(1)] assms(2) by auto
  show "le_index e \<le> seg_last_index sg"
    using last_index_max [OF c assms(3)] ok ne by (simp add: seg_ok_def)
  have "le_index (hd es) \<le> le_index e" using contiguous_sorted [OF c] assms(3) by (cases es) auto
  then show "seg_start_index sg \<le> le_index e" using ok ne by (simp add: seg_ok_def)
qed

lemma layout_ok_fresh:
  assumes "0 < i" and "i < 2 ^ 64"
    and "sg = \<lparr>seg_start_index = i, seg_last_index = i - 1, seg_size_bytes = 0,
      seg_path = path_join dir (SegmentFileName i)\<rparr>"
  shows "layout_ok dir [(sg, [])]"
  using assms by (auto simp: layout_ok_def seg_ok_def)

text \<open>Where \<^verbatim>\<open>TruncateSuffix(i)\<close> stops: segments kept, and a segment to cut or none.\<close>

lemma suffix_split:
  assumes lay: "layout_ok dir lay"
  obtains (whole) K M where "lay = K @ M" "\<forall>x \<in> set K. seg_start_index (fst x) < i \<and> seg_last_index (fst x) < i"
      "\<forall>x \<in> set M. i \<le> seg_start_index (fst x)"
  | (cut) K sg es M where "lay = K @ (sg, es) # M"
      "\<forall>x \<in> set K. seg_start_index (fst x) < i \<and> seg_last_index (fst x) < i"
      "seg_start_index sg < i" "i \<le> seg_last_index sg"
proof -
  let ?P = "\<lambda>x. seg_start_index (fst x) < i \<and> seg_last_index (fst x) < i"
  define K M where "K = takeWhile ?P lay" and "M = dropWhile ?P lay"
  have l: "lay = K @ M" by (simp add: K_def M_def)
  have K: "\<forall>x \<in> set K. ?P x" by (auto simp: K_def dest: set_takeWhileD)
  show thesis
  proof (cases M)
    case Nil
    then show thesis using whole [of K M] l K by simp
  next
    case (Cons x M')
    have nx: "\<not> ?P x" using Cons hd_dropWhile [of ?P lay] unfolding M_def by (metis list.distinct(1) list.sel(1))
    show thesis
    proof (cases "seg_start_index (fst x) < i")
      case True
      then show thesis using cut [of K "fst x" "snd x" M'] l K nx Cons by simp
    next
      case False
      have "\<forall>y \<in> set M'. seg_start_index (fst x) < seg_start_index (fst y)"
        using layout_starts [OF lay] by (auto simp: l Cons sorted_wrt_append)
      then show thesis using whole [of K M] l K False Cons by force
    qed
  qed
qed

section \<open>Removing files\<close>

definition del_all :: "path list \<Rightarrow> os \<Rightarrow> os" where
  "del_all ps s = fold del_file ps s"

lemma del_all_simps [simp]:
  "del_all [] s = s" "del_all (p # ps) s = del_all ps (del_file p s)"
  by (simp_all add: del_all_def)

lemma del_all_facts [simp]:
  "os_io (del_all ps s) = os_io s"
  "file_exists (del_all ps s) p = (p \<notin> set ps \<and> file_exists s p)"
  "content (del_all ps s) p = (if p \<in> set ps then [] else content s p)"
  "dmap (os_files s) \<Longrightarrow> dmap (os_files (del_all ps s))"
  by (induction ps arbitrary: s) auto

lemma remove_tail_quiet:
  assumes "quiet (w_os w)" and "w_segments w = kept @ rest"
  shows "remove_tail kept rest w =
    (Ok (), w\<lparr>w_os := del_all (map seg_path rest) (w_os w), w_segments := kept\<rparr>)"
  using assms
proof (induction rest arbitrary: w)
  case (Cons sg rest)
  then show ?case by (simp add: andThen_def onOs_def os_simps modify_def)
qed (simp add: ret_def)

lemma suffix_loop_keep:
  assumes "\<forall>sg \<in> set K. seg_start_index sg < i \<and> seg_last_index sg < i"
  shows "truncate_suffix_loop i off kept (K @ rest) w = truncate_suffix_loop i off (kept @ K) rest w"
  using assms by (induction K arbitrary: kept) auto

lemma suffix_loop_remove:
  assumes "quiet (w_os w)" and "w_segments w = kept @ rest" and "\<forall>sg \<in> set rest. i \<le> seg_start_index sg"
  shows "truncate_suffix_loop i off kept rest w =
    (Ok None, w\<lparr>w_os := del_all (map seg_path rest) (w_os w), w_segments := kept\<rparr>)"
  using assms
proof (induction rest arbitrary: w)
  case (Cons sg rest)
  then show ?case by (simp add: andThen_def onOs_def os_simps modify_def)
qed (simp add: ret_def)

lemma suffix_loop_cut:
  assumes "quiet (w_os w)" and "w_segments w = kept @ sg # rest"
    and "seg_start_index sg < i" and "i \<le> seg_last_index sg" and "file_exists (w_os w) (seg_path sg)"
    and "sg' = sg\<lparr>seg_size_bytes := off, seg_last_index := i - 1\<rparr>"
  shows "truncate_suffix_loop i off kept (sg # rest) w =
    (Ok (Some (seg_path sg)), w\<lparr>w_os := del_all (map seg_path rest)
        (put_file (seg_path sg) (resize off (content (w_os w) (seg_path sg))) (w_os w)),
      w_segments := kept @ [sg']\<rparr>)"
  using assms
  by (simp add: andThen_def onOs_def os_simps modify_def remove_tail_quiet ret_def Let_def)

section \<open>TruncateSuffix\<close>

lemma no_strays_del:
  assumes "no_strays s dir lay"
    and "\<And>p. file_exists s' p \<Longrightarrow> file_exists s p \<or> p \<in> lay_paths lay'"
    and "\<And>p. file_exists s' p \<Longrightarrow> p \<in> lay_paths lay \<Longrightarrow> p \<in> lay_paths lay'"
  shows "no_strays s' dir lay'"
proof (rule no_strays_update [OF assms(1)])
  fix p
  assume "file_exists s' p"
  then show "p \<in> lay_paths lay' \<or> file_exists s p \<and> p \<notin> lay_paths lay"
    using assms(2) [of p] assms(3) [of p] by argo
qed

lemma layout_paths_split:
  assumes lay: "layout_ok dir (K @ M)" and y: "y \<in> set K"
  shows "seg_path (fst y) \<notin> (seg_path \<circ> fst) ` set M"
proof
  assume "seg_path (fst y) \<in> (seg_path \<circ> fst) ` set M"
  then obtain x where x: "x \<in> set M" "seg_path (fst x) = seg_path (fst y)" by (metis comp_apply imageE)
  then have "seg_start_index (fst y) < seg_start_index (fst x)"
    using layout_starts [OF lay] y by (auto simp: sorted_wrt_append)
  then show False using seg_paths_inj [OF lay, of x y] x y by simp
qed

lemma files_rep_whole:
  assumes rep: "files_rep c dir s (K @ M)" and K: "K \<noteq> []"
  shows "files_rep c dir (del_all (map (seg_path \<circ> fst) M) s) K"
proof -
  have lay: "layout_ok dir (K @ M)" using rep by (simp add: files_rep_def)
  note dis = layout_paths_split [OF lay]
  have "on_disk c (del_all (map (seg_path \<circ> fst) M) s) K"
    using rep dis by (subst on_disk_others [of K _ s]) (auto simp: files_rep_def)
  moreover have "no_strays (del_all (map (seg_path \<circ> fst) M) s) dir K"
    using rep by - (rule no_strays_del [of s dir "K @ M"], auto simp: files_rep_def)
  ultimately show ?thesis
    using rep layout_prefix [OF lay K] by (simp add: files_rep_def)
qed

lemma files_rep_restart:
  assumes rep: "files_rep c dir s lay" and i: "0 < i" "i < 2 ^ 64"
    and sg: "sg = \<lparr>seg_start_index = i, seg_last_index = i - 1, seg_size_bytes = 0,
      seg_path = path_join dir (SegmentFileName i)\<rparr>"
  shows "files_rep c dir (put_file (seg_path sg) [] (del_all (map (seg_path \<circ> fst) lay) s)) [(sg, [])]"
proof -
  have "no_strays (put_file (seg_path sg) [] (del_all (map (seg_path \<circ> fst) lay) s)) dir [(sg, [])]"
    using rep by - (rule no_strays_del [of s dir lay], auto simp: files_rep_def)
  then show ?thesis
    using rep layout_ok_fresh [OF i sg] by (simp add: files_rep_def sg)
qed

lemma split_below:
  assumes "sorted_wrt (<) (map le_index es)"
  obtains es1 es2 where "es = es1 @ es2" "filter (\<lambda>e. le_index e < i) es = es1"
    "\<forall>e \<in> set es1. le_index e < i" "\<forall>e \<in> set es2. i \<le> le_index e"
proof
  show "es = takeWhile (\<lambda>e. le_index e < i) es @ dropWhile (\<lambda>e. le_index e < i) es" by simp
  show "\<forall>e \<in> set (takeWhile (\<lambda>e. le_index e < i) es). le_index e < i"
    by (auto dest: set_takeWhileD)
  show d: "\<forall>e \<in> set (dropWhile (\<lambda>e. le_index e < i) es). i \<le> le_index e"
    using assms
  proof (induction es)
    case (Cons e es)
    then have "\<forall>x \<in> set es. i \<le> le_index x" if "\<not> le_index e < i"
      using that by (auto dest: order_less_imp_le order_trans [of i "le_index e"] simp: not_less)
    then show ?case using Cons by auto
  qed simp
  show "filter (\<lambda>e. le_index e < i) es = takeWhile (\<lambda>e. le_index e < i) es"
    using assms
  proof (induction es)
    case (Cons e es)
    have "filter (\<lambda>e. le_index e < i) es = []" if "\<not> le_index e < i"
      unfolding filter_empty_conv using that Cons.prems by fastforce
    then show ?case using Cons by auto
  qed simp
qed

lemma cut_nonempty:
  assumes lay: "layout_ok dir (K @ (sg, es1 @ es2) # M)" and ents: "entries (K @ (sg, es1 @ es2) # M) \<noteq> []"
    and i: "seg_start_index sg < i" "i \<le> seg_last_index sg" and below: "\<forall>e \<in> set es1. le_index e < i"
  shows "es2 \<noteq> []"
proof
  note d = layout_okD [OF lay]
  assume es2: "es2 = []"
  show False
  proof (cases "es1 = []")
    case True
    then have "M = []" using d(3) es2 by (cases M) (auto simp: successively_append_iff linked_def)
    then have "K \<noteq> []" using ents True es2 by auto
    then have "linked (last K) (sg, [])" using d(3) True es2 by (auto simp: successively_append_iff)
    then show False using i by (auto simp: linked_def)
  next
    case False
    have "seg_ok dir sg es1" using d(2) es2 by auto
    then have "seg_last_index sg < i" using below False by (simp add: seg_ok_def)
    then show False using i(2) by simp
  qed
qed

lemma files_rep_cut:
  assumes rep: "files_rep c dir s (K @ (sg, es1 @ es2) # M)"
    and ents: "entries (K @ (sg, es1 @ es2) # M) \<noteq> []" and i: "seg_start_index sg < i" "i \<le> seg_last_index sg" "0 < i"
    and below: "\<forall>e \<in> set es1. le_index e < i" and above: "\<forall>e \<in> set es2. i \<le> le_index e"
    and sg': "sg' = sg\<lparr>seg_size_bytes := length (bytes_of c es1), seg_last_index := i - 1\<rparr>"
  shows "files_rep c dir (del_all (map (seg_path \<circ> fst) M) (put_file (seg_path sg)
      (resize (length (bytes_of c es1)) (content s (seg_path sg))) s)) (K @ [(sg', es1)])"
proof -
  let ?lay = "K @ (sg, es1 @ es2) # M"
  let ?s1 = "put_file (seg_path sg) (resize (length (bytes_of c es1)) (content s (seg_path sg))) s"
  let ?s2 = "del_all (map (seg_path \<circ> fst) M) ?s1"
  have lay: "layout_ok dir ?lay" using rep by (simp add: files_rep_def)
  note d = layout_okD [OF lay]
  have pre: "contiguous (entries K @ es1)" using d(4) contiguous_append(1) [of "entries K @ es1"] by simp
  have es2: "es2 \<noteq> []" by (rule cut_nonempty [OF lay ents i(1,2) below])
  then have ne: "es1 @ es2 \<noteq> []" by simp
  have sgok: "seg_ok dir sg (es1 @ es2)" using d(2) by auto
  have link: "K \<noteq> [] \<Longrightarrow> linked (last K) (sg, es1 @ es2)" using d(3) by (auto simp: successively_append_iff)
  have first: "K \<noteq> [] \<Longrightarrow> es1 \<noteq> []"
    using link ne above i by (cases es1) (auto simp: linked_def neq_Nil_conv)
  have lst: "le_index (last es1) = i - 1" if "es1 \<noteq> []"
  proof -
    have ct: "contiguous (es1 @ es2)"
      using d(4) by (metis append_assoc contiguous_append entries_simps(2,3) snd_conv)
    have n1: "le_index (last es1) = le_index (hd es1) + length es1 - 1"
      using contiguous_last [OF contiguous_append(1) [OF ct]] that by simp
    have "le_index (hd es2) = le_index (hd es1) + length es1"
      using contiguous_nth [OF ct, of "length es1"] es2 that by (simp add: nth_append hd_conv_nth)
    moreover have "i \<le> le_index (hd es2)" using above es2 by simp
    moreover have "le_index (last es1) < i" using below that by simp
    moreover have "0 < length es1" using that by simp
    ultimately show ?thesis using n1 by linarith
  qed
  have "seg_ok dir sg' es1"
    using sgok i lst ne by (cases "es1 = []") (auto simp: seg_ok_def sg')
  moreover have "successively linked (K @ [(sg', es1)])"
    using d(3) link first by (auto simp: successively_append_iff linked_def sg')
  ultimately have lay': "layout_ok dir (K @ [(sg', es1)])"
    using d(2,5) pre by (auto simp: layout_ok_def)
  have "on_disk c ?s2 K"
    using rep layout_paths_split [OF lay]
    by (subst on_disk_others [of K _ s]) (auto simp: files_rep_def)
  moreover have "seg_path sg \<notin> (seg_path \<circ> fst) ` set M" 
    using layout_paths [OF lay] unfolding comp_def by force
  ultimately have "on_disk c ?s2 (K @ [(sg', es1)])"
    using rep by (simp add: files_rep_def sg' resize_take)
  moreover have "no_strays ?s2 dir (K @ [(sg', es1)])"
    using rep by - (rule no_strays_del [of s dir ?lay], auto simp: files_rep_def sg')
  ultimately show ?thesis
    using rep lay' unfolding files_rep_def by (metis del_all_facts(1,4) dmap_put_file io_put_file)
qed

text \<open>The state after the loop, the erasure of the offsets and the fresh segment, if needed.\<close>

lemma base_rep:
  assumes b: "wal_base c w lay" and st: "w_start w = seg_start_index (fst (hd lay))"
    and l: "entries lay \<noteq> [] \<Longrightarrow> w_last_index w = le_index (last (entries lay))"
  shows "\<exists>w'. WAL_OpenActiveSegmentForAppend w = (Ok (), w') \<and> wal_holds c w' (entries lay) \<and>
    w_last_index w' = w_last_index w \<and> w_start w' = w_start w"
proof -
  define w' where "w' = w\<lparr>w_fd := Some (seg_path (fst (last lay)), seg_size_bytes (fst (last lay)))\<rparr>"
  have "wal_rep c w' lay" using assms by (simp add: wal_rep_def wal_base_def w'_def)
  then show ?thesis using OpenActive_base [OF b] by (auto simp: w'_def wal_holds_def)
qed

definition suffix_tail :: "nat \<Rightarrow> path option \<Rightarrow> (wal, unit) prog" where
  "suffix_tail index partial =
     andThen (modify (\<lambda>w. w\<lparr>w_offset_index := filter (\<lambda>(k, _). \<not> k \<ge> index) (w_offset_index w)\<rparr>)) (\<lambda>_.
     andThen (\<lambda>w. if w_segments w = [] then WAL_CreateFreshSegment index w
                  else if partial \<noteq> None \<and> Some (seg_path (last (w_segments w))) \<noteq> partial
                  then WAL_RemoveSegmentsAfter (length (w_segments w) - 1) w
                  else (Ok (), w)) (\<lambda>_.
     andThen (modify (\<lambda>w. w\<lparr>w_start := seg_start_index (hd (w_segments w)),
       w_last_index := (if w_offset_index w = [] then index - 1
                        else fst (last (w_offset_index w)))\<rparr>)) (\<lambda>_.
     WAL_OpenActiveSegmentForAppend)))"

lemma last_index_of: "entries lay \<noteq> [] \<Longrightarrow> fst (last (index_of c lay)) = le_index (last (entries lay))"
  by (metis fst_index_of index_of_Nil(1) last_map)

lemma suffix_tail_kept:
  assumes fr: "files_rep c (w_dir w) (w_os w) lay" and sg: "w_segments w = map fst lay"
    and ix: "filter (\<lambda>(k, _). \<not> k \<ge> i) (w_offset_index w) = index_of c lay"
    and pt: "partial \<in> {None, Some (seg_path (fst (last lay)))}"
  shows "\<exists>w'. suffix_tail i partial w = (Ok (), w') \<and> wal_holds c w' (entries lay) \<and>
    w_last_index w' = (if entries lay = [] then i - 1 else le_index (last (entries lay))) \<and>
    w_start w' = seg_start_index (fst (hd lay))"
proof -
  define w1 where "w1 = w\<lparr>w_offset_index := index_of c lay, w_start := seg_start_index (fst (hd lay)),
    w_last_index := (if entries lay = [] then i - 1 else le_index (last (entries lay)))\<rparr>"
  have ne: "lay \<noteq> []" using fr by (simp add: files_rep_def layout_ok_def)
  have run: "suffix_tail i partial w = WAL_OpenActiveSegmentForAppend w1"
    using ne pt by (auto simp: suffix_tail_def andThen_def modify_def sg ix last_index_of w1_def
        last_map hd_map)
  have "wal_base c w1 lay" using fr sg by (simp add: wal_base_def w1_def)
  from base_rep [OF this] show ?thesis unfolding run by (simp add: w1_def)
qed

lemma suffix_tail_empty:
  assumes fr: "files_rep c (w_dir w) s lay" and os: "w_os w = del_all (map (seg_path \<circ> fst) lay) s"
    and sg: "w_segments w = []" and ix: "filter (\<lambda>(k, _). \<not> k \<ge> i) (w_offset_index w) = []"
    and i: "0 < i" "i < 2 ^ 64"
  shows "\<exists>w'. suffix_tail i None w = (Ok (), w') \<and> wal_holds c w' [] \<and>
    w_last_index w' = i - 1 \<and> w_start w' = i"
proof -
  define seg where "seg = \<lparr>seg_start_index = i, seg_last_index = i - 1, seg_size_bytes = 0,
    seg_path = path_join (w_dir w) (SegmentFileName i)\<rparr>"
  define w1 where "w1 = w\<lparr>w_offset_index := [], w_os := put_file (seg_path seg) [] (w_os w),
    w_segments := [seg], w_start := i, w_last_index := i - 1\<rparr>"
  have q: "quiet (w_os w)" using fr by (simp add: os files_rep_def)
  have run: "suffix_tail i None w = WAL_OpenActiveSegmentForAppend w1"
    using CreateFreshSegment_quiet [of "w\<lparr>w_offset_index := []\<rparr>" i] q i
    by (simp add: suffix_tail_def andThen_def modify_def sg ix w1_def seg_def)
  have "wal_base c w1 [(seg, [])]"
    using files_rep_restart [OF fr i seg_def] by (simp add: wal_base_def w1_def os)
  from base_rep [OF this] show ?thesis unfolding run by (simp add: w1_def seg_def)
qed

lemma TruncateSuffix_unfold:
  assumes "i \<noteq> 0" and "w_offset_index w \<noteq> []" and "i \<le> w_last_index w" and "quiet (w_os w)"
    and "lower_bound i (w_offset_index w) = (k, loc) # ix"
  shows "WAL_TruncateSuffix i w = andThen (truncate_suffix_loop i (loc_offset loc) [] (w_segments w))
    (suffix_tail i) (w\<lparr>w_fd := None\<rparr>)"
  using assms by (simp add: WAL_TruncateSuffix_def andThen_def [of CloseFd] CloseFd_quiet
      suffix_tail_def [abs_def])

lemma filter_index_split:
  assumes "\<forall>e \<in> set (entries K). le_index e < i" and "\<forall>e \<in> set (entries M). i \<le> le_index e"
  shows "filter (\<lambda>(k, _). \<not> k \<ge> i) (index_of c (K @ M)) = index_of c K"
    and "filter (\<lambda>e. le_index e < i) (entries (K @ M)) = entries K"
proof -
  have "filter (\<lambda>(k, _). \<not> k \<ge> i) (index_of c K) = index_of c K"
    using assms(1) by (intro filter_keys_all) (auto simp: keys_index_of not_le)
  moreover have "filter (\<lambda>(k, _). \<not> k \<ge> i) (index_of c M) = []"
    using assms(2) by (intro filter_keys_none) (auto simp: keys_index_of)
  ultimately show "filter (\<lambda>(k, _). \<not> k \<ge> i) (index_of c (K @ M)) = index_of c K" by simp
  show "filter (\<lambda>e. le_index e < i) (entries (K @ M)) = entries K"
    using assms by (auto simp: filter_id_conv filter_empty_conv not_less)
qed

lemma entries_in_segs: "e \<in> set (entries lay) \<longleftrightarrow> (\<exists>sg es. (sg, es) \<in> set lay \<and> e \<in> set es)"
  by (force simp: entries_def)

lemma entries_below:
  assumes lay: "layout_ok dir lay" and sub: "set K \<subseteq> set lay" and K: "\<forall>x \<in> set K. seg_last_index (fst x) < i"
  shows "\<forall>e \<in> set (entries K). le_index e < i"
proof
  fix e
  assume "e \<in> set (entries K)"
  then obtain sg es where x: "(sg, es) \<in> set K" "e \<in> set es" by (auto simp: entries_in_segs)
  then have "le_index e \<le> seg_last_index sg" using seg_entries_range(2) [OF lay] sub by blast
  then show "le_index e < i" using K x(1) by fastforce
qed

lemma WAL_TruncateSuffix_whole:
  assumes rep: "wal_rep c w (K @ M)" and i: "0 < i" "i \<le> w_last_index w" and ne: "entries (K @ M) \<noteq> []"
    and K: "\<forall>x \<in> set K. seg_start_index (fst x) < i \<and> seg_last_index (fst x) < i"
    and M: "\<forall>x \<in> set M. i \<le> seg_start_index (fst x)"
  shows "\<exists>w'. WAL_TruncateSuffix i w = (Ok (), w') \<and>
    wal_holds c w' (filter (\<lambda>e. le_index e < i) (entries (K @ M))) \<and>
    w_last_index w' = i - 1 \<and> w_start w' \<le> max (w_start w) i"
proof -
  note f = wal_rep_facts [OF rep]
  have eK: "\<forall>e \<in> set (entries K). le_index e < i"
    by (rule entries_below [OF f(3)]) (use K in auto)
  have eM: "\<forall>e \<in> set (entries M). i \<le> le_index e"
    using seg_entries_range(1) [OF f(3)] M by (fastforce simp: entries_in_segs)
  note fl = filter_index_split [OF eK eM]
  have last: "w_last_index w = le_index (last (entries (K @ M)))" using rep ne by (simp add: wal_rep_def)
  have "entries M \<noteq> []"
  proof
    assume "entries M = []"
    then have "last (entries (K @ M)) \<in> set (entries K)" using ne by auto
    then show False using eK last i by fastforce
  qed
  have i64: "i < 2 ^ 64"
  proof -
    have "last (entries (K @ M)) \<in> set (entries (K @ M))" using ne by (rule last_in_set)
    then have "entry_ok (last (entries (K @ M)))" using f(6) by blast
    then show ?thesis using i(2) last by (simp add: entry_ok_def)
  qed
  have "lower_bound i (index_of c (K @ M)) = lower_bound i (index_of c M)"
    using eK by (simp add: lower_bound_append keys_index_of)
  also have "\<dots> = index_of c M" using eM \<open>entries M \<noteq> []\<close>
  proof (cases "index_of c M")
    case (Cons x xs)
    then have "fst x \<in> fst ` set (index_of c M)" by simp
    then have "i \<le> fst x" using eM by (auto simp: keys_index_of)
    then show ?thesis using Cons by (cases x) (simp add: lower_bound_def)
  qed simp
  finally have lb: "lower_bound i (index_of c (K @ M)) = index_of c M" .
  obtain k loc ix where ix: "index_of c M = (k, loc) # ix"
    using \<open>entries M \<noteq> []\<close> by (metis index_of_Nil(1) list.exhaust surj_pair)
  define w0 where "w0 = w\<lparr>w_fd := None, w_os := del_all (map (seg_path \<circ> fst) M) (w_os w),
    w_segments := map fst K\<rparr>"
  have loop: "truncate_suffix_loop i off [] (w_segments w) (w\<lparr>w_fd := None\<rparr>) = (Ok None, w0)" for off
    using suffix_loop_keep [of "map fst K" i off "[]" "map fst M"] K M f(2,10)
      suffix_loop_remove [of "w\<lparr>w_fd := None\<rparr>" "map fst K" "map fst M" i off]
    by (simp add: w0_def)
  have run: "WAL_TruncateSuffix i w = suffix_tail i None w0"
    using TruncateSuffix_unfold [of i w k loc ix] i ne f(2,8) lb ix loop by (simp add: andThen_def)
  have fr: "files_rep c (w_dir w) (w_os w) (K @ M)" using rep by (simp add: rep_defs)
  show ?thesis
  proof (cases "K = []")
    case True
    have fl0: "filter (\<lambda>(k, _). \<not> k \<ge> i) (w_offset_index w0) = []"
      using fl(1) f(8) by (simp add: w0_def True)
    have "\<exists>w'. suffix_tail i None w0 = (Ok (), w') \<and> wal_holds c w' [] \<and>
        w_last_index w' = i - 1 \<and> w_start w' = i"
      by (rule suffix_tail_empty [where s = "w_os w" and lay = M])
        (use fr True i i64 fl0 in \<open>simp_all add: w0_def\<close>)
    then show ?thesis using fl(2) by (auto simp: run True)
  next
    case False
    have "M \<noteq> []" using \<open>entries M \<noteq> []\<close> by auto
    with False have lk: "linked (last K) (hd M)"
      using layout_okD(3) [OF f(3)] by (auto simp: successively_append_iff)
    note le = last_entries [OF layout_prefix [OF f(3) False]]
    have "hd M \<in> set M" "last K \<in> set K" using False \<open>M \<noteq> []\<close> by simp_all
    then have "i \<le> Suc (seg_last_index (fst (last K)))" "seg_last_index (fst (last K)) < i"
      using lk M K unfolding linked_def by metis+
    with lk le have eKne: "entries K \<noteq> []" and lK: "le_index (last (entries K)) = i - 1"
      by (auto simp: linked_def)
    have "\<exists>w'. suffix_tail i None w0 = (Ok (), w') \<and> wal_holds c w' (entries K) \<and>
      w_last_index w' = (if entries K = [] then i - 1 else le_index (last (entries K))) \<and>
      w_start w' = seg_start_index (fst (hd K))"
      by (rule suffix_tail_kept) (use files_rep_whole [OF fr False] fl f(8) in \<open>simp_all add: w0_def\<close>)
    then show ?thesis using fl(2) eKne lK rep False by (auto simp: run wal_rep_def)
  qed
qed

lemma WAL_TruncateSuffix_cut:
  assumes rep: "wal_rep c w (K @ (sg, es) # M)" and i: "0 < i" "i \<le> w_last_index w"
    and ne: "entries (K @ (sg, es) # M) \<noteq> []"
    and K: "\<forall>x \<in> set K. seg_start_index (fst x) < i \<and> seg_last_index (fst x) < i"
    and sg: "seg_start_index sg < i" "i \<le> seg_last_index sg"
  shows "\<exists>w'. WAL_TruncateSuffix i w = (Ok (), w') \<and>
    wal_holds c w' (filter (\<lambda>e. le_index e < i) (entries (K @ (sg, es) # M))) \<and>
    w_last_index w' = i - 1 \<and> w_start w' = w_start w"
proof -
  note f = wal_rep_facts [OF rep]
  let ?lay = "K @ (sg, es) # M"
  have fr: "files_rep c (w_dir w) (w_os w) ?lay" using rep by (simp add: rep_defs)
  have ces: "contiguous es"
    using f(5) by (metis append_assoc contiguous_append entries_simps(2,3) snd_conv)
  obtain es1 es2 where es: "es = es1 @ es2" and below: "\<forall>e \<in> set es1. le_index e < i"
    and above: "\<forall>e \<in> set es2. i \<le> le_index e"
    using split_below [OF contiguous_sorted [OF ces]] by metis
  define sg' where "sg' = sg\<lparr>seg_size_bytes := length (bytes_of c es1), seg_last_index := i - 1\<rparr>"
  have cut: "files_rep c (w_dir w) (del_all (map (seg_path \<circ> fst) M) (put_file (seg_path sg)
      (resize (length (bytes_of c es1)) (content (w_os w) (seg_path sg))) (w_os w))) (K @ [(sg', es1)])"
    by (rule files_rep_cut [OF fr [unfolded es] ne [unfolded es] sg i(1) below above sg'_def])
  have lay': "layout_ok (w_dir w) (K @ [(sg', es1)])" using cut by (simp add: files_rep_def)
  have es2: "es2 \<noteq> []"
    by (rule cut_nonempty [OF f(3) [unfolded es] ne [unfolded es] sg below])
  obtain e es2' where e: "es2 = e # es2'" using es2 by (cases es2) auto
  have eK: "\<forall>e \<in> set (entries (K @ [(sg', es1)])). le_index e < i"
    using entries_below [OF f(3), of K i] K below by auto
  have "sorted_wrt (<) (map le_index (entries K @ es1 @ es2 @ entries M))"
    using contiguous_sorted [OF f(5)] by (simp add: es)
  then have gt: "le_index e < le_index x" if "x \<in> set es2' \<union> set (entries M)" for x
    using that by (auto simp: e sorted_wrt_append)
  have ie: "i \<le> le_index e" using above by (simp add: e)
  have eM: "\<forall>x \<in> set (es2 @ entries M). i \<le> le_index x"
  proof
    fix x
    assume "x \<in> set (es2 @ entries M)"
    then have "x = e \<or> le_index e < le_index x" using gt by (auto simp: e)
    then show "i \<le> le_index x" using ie by auto
  qed
  have ix: "index_of c ?lay = index_of c (K @ [(sg', es1)]) @
      locs c (seg_path sg) (length (bytes_of c es1)) es2 @ index_of c M"
    by (simp add: es sg'_def)
  have fl: "filter (\<lambda>(k, _). \<not> k \<ge> i) (index_of c ?lay) = index_of c (K @ [(sg', es1)])"
  proof -
    have "filter (\<lambda>(k, _). \<not> k \<ge> i) (index_of c (K @ [(sg', es1)])) = index_of c (K @ [(sg', es1)])"
      using eK by (intro filter_keys_all) (auto simp only: keys_index_of not_le)
    moreover have "filter (\<lambda>(k, _). \<not> k \<ge> i)
        (locs c (seg_path sg) (length (bytes_of c es1)) es2 @ index_of c M) = []"
      using eM by (intro filter_keys_none) (auto simp: keys_index_of keys_locs image_Un)
    ultimately show ?thesis
      by (simp only: ix filter_append [of _ "index_of c (K @ [(sg', es1)])"] append_Nil2)
  qed
  have "lower_bound i (index_of c ?lay) =
      lower_bound i (locs c (seg_path sg) (length (bytes_of c es1)) es2 @ index_of c M)"
    unfolding ix using eK by (intro lower_bound_append) (auto simp only: keys_index_of)
  also have "\<dots> = (le_index e, \<lparr>loc_path = seg_path sg, loc_offset = length (bytes_of c es1)\<rparr>) #
      locs c (seg_path sg) (length (bytes_of c es1) + length (encode_record c e)) es2' @ index_of c M"
    using above by (auto simp: lower_bound_def e)
  finally have lb: "lower_bound i (index_of c ?lay) = \<dots>" .
  define w0 where "w0 = w\<lparr>w_fd := None, w_os := del_all (map (seg_path \<circ> fst) M) (put_file (seg_path sg)
      (resize (length (bytes_of c es1)) (content (w_os w) (seg_path sg))) (w_os w)),
    w_segments := map fst K @ [sg']\<rparr>"
  have "file_exists (w_os w) (seg_path sg)" using f(4) by simp
  then have loop: "truncate_suffix_loop i (length (bytes_of c es1)) [] (w_segments w) (w\<lparr>w_fd := None\<rparr>) =
      (Ok (Some (seg_path sg)), w0)"
    using suffix_loop_keep [of "map fst K" i _ "[]" "sg # map fst M"] K f(2,10) sg
      suffix_loop_cut [of "w\<lparr>w_fd := None\<rparr>" "map fst K" sg "map fst M" i _ "length (bytes_of c es1)"]
    by (simp add: w0_def sg'_def)
  have run: "WAL_TruncateSuffix i w = suffix_tail i (Some (seg_path sg)) w0"
    using TruncateSuffix_unfold [of i w] i ne f(2,8) lb loop by (simp add: andThen_def)
  have "\<exists>w'. suffix_tail i (Some (seg_path sg)) w0 = (Ok (), w') \<and>
      wal_holds c w' (entries (K @ [(sg', es1)])) \<and>
      w_last_index w' = (if entries (K @ [(sg', es1)]) = [] then i - 1
        else le_index (last (entries (K @ [(sg', es1)])))) \<and>
      w_start w' = seg_start_index (fst (hd (K @ [(sg', es1)])))"
    by (rule suffix_tail_kept) (use cut fl f(8) in \<open>simp_all add: w0_def sg'_def\<close>)
  moreover have "entries (K @ [(sg', es1)]) \<noteq> [] \<Longrightarrow> le_index (last (entries (K @ [(sg', es1)]))) = i - 1"
    using last_entries_index [OF lay'] by (simp add: sg'_def)
  moreover have "filter (\<lambda>e. le_index e < i) (entries ?lay) = entries (K @ [(sg', es1)])"
    using eK eM by (simp add: es filter_id_conv filter_empty_conv not_less)
  moreover have "seg_start_index (fst (hd (K @ [(sg', es1)]))) = w_start w"
    using rep by (cases K) (auto simp: wal_rep_def sg'_def)
  ultimately show ?thesis unfolding run by auto
qed

lemma WAL_TruncateSuffix_spec:
  assumes h: "wal_holds c w es" and i: "0 < i"
  shows "\<exists>w'. WAL_TruncateSuffix i w = (Ok (), w') \<and>
    wal_holds c w' (if i \<le> w_last_index w then filter (\<lambda>e. le_index e < i) es else es) \<and>
    w_last_index w' = (if es \<noteq> [] \<and> i \<le> w_last_index w then i - 1 else w_last_index w) \<and>
    w_start w' \<le> max (w_start w) i"
proof (cases "es \<noteq> [] \<and> i \<le> w_last_index w")
  case False
  have "w_offset_index w = [] \<longleftrightarrow> es = []" using h by (auto simp: wal_holds_def rep_defs)
  with False i have "WAL_TruncateSuffix i w = (Ok (), w)" by (auto simp: WAL_TruncateSuffix_def)
  moreover have "wal_holds c w (if i \<le> w_last_index w then filter (\<lambda>e. le_index e < i) es else es)"
    using False h by auto
  ultimately show ?thesis using False by auto
next
  case True
  obtain lay where rep: "wal_rep c w lay" and es: "es = entries lay"
    using h by (auto simp: wal_holds_def)
  show ?thesis
  proof (cases rule: suffix_split [OF wal_rep_facts(3) [OF rep], of i, case_names whole cut])
    case (whole K M)
    then show ?thesis
      using WAL_TruncateSuffix_whole [of c w K M i] rep i True by (simp add: es)
  next
    case (cut K sg es' M)
    then show ?thesis
      using WAL_TruncateSuffix_cut [of c w K sg es' M i] rep i True by (fastforce simp: es)
  qed
qed

section \<open>TruncateBefore\<close>

lemma before_loop_stop:
  assumes "\<forall>sg \<in> set rest. \<not> (seg_last_index sg \<noteq> 0 \<and> seg_last_index sg < i)"
  shows "truncate_before_loop i kept rest r w = (Ok r, w)"
  using assms by (induction rest arbitrary: kept) (auto simp: ret_def)

lemma filter_path_locs:
  "filter (\<lambda>(_, loc). loc_path loc \<noteq> p) (locs c q off es) = (if p = q then [] else locs c q off es)"
  by (induction es arbitrary: off) auto

lemma filter_path_index:
  assumes "\<forall>y \<in> set lay. seg_path (fst y) \<noteq> p"
  shows "filter (\<lambda>(_, loc). loc_path loc \<noteq> p) (index_of c lay) = index_of c lay"
  using assms
proof (induction lay)
  case (Cons x lay)
  then show ?case by (cases x) (auto simp: filter_path_locs)
qed simp

lemma before_loop_remove:
  assumes "layout_ok dir (K @ M)" and "quiet (w_os w)" and "w_segments w = map fst (K @ M)"
    and "w_offset_index w = index_of c (K @ M)"
    and "\<forall>x \<in> set K. seg_last_index (fst x) \<noteq> 0 \<and> seg_last_index (fst x) < i"
  shows "truncate_before_loop i [] (map fst (K @ M)) r w =
    truncate_before_loop i [] (map fst M) (r \<or> K \<noteq> [])
      (w\<lparr>w_os := del_all (map (seg_path \<circ> fst) K) (w_os w), w_segments := map fst M,
         w_offset_index := index_of c M, w_fd := (if K \<noteq> [] \<and> M = [] then None else w_fd w)\<rparr>)"
  using assms
proof (induction K arbitrary: w r)
  case (Cons x K)
  obtain sg es where x: "x = (sg, es)" by (cases x)
  let ?w1 = "w\<lparr>w_os := del_file (seg_path sg) (w_os w), w_segments := map fst (K @ M),
    w_offset_index := index_of c (K @ M), w_fd := (if K @ M = [] then None else w_fd w)\<rparr>"
  have "\<forall>y \<in> set (K @ M). seg_path (fst y) \<noteq> seg_path sg"
    using layout_paths [of dir "[]" "(sg, es)" "K @ M"] Cons.prems(1) by (simp add: x)
  then have ix: "filter (\<lambda>(_, loc). loc_path loc \<noteq> seg_path sg) (index_of c ((sg, es) # K @ M)) =
      index_of c (K @ M)"
    using filter_path_index [of "K @ M" "seg_path sg" c] by (simp add: filter_path_locs)
  have step: "truncate_before_loop i [] (map fst (x # K @ M)) r w =
      truncate_before_loop i [] (map fst (K @ M)) True ?w1"
    using Cons.prems ix
    by (cases w) (simp add: x andThen_def WAL_RemoveSegmentEntries_def modify_def onOs_def os_simps
        whenP_def CloseFd_quiet ret_def)
  show ?case
  proof (cases "K @ M = []")
    case True
    then show ?thesis using step by (simp add: x)
  next
    case False
    then have "layout_ok dir (K @ M)" using layout_suffix [of dir "[x]" "K @ M"] Cons.prems(1) by simp
    from Cons.IH [OF this, of ?w1 True] Cons.prems False step show ?thesis
      by (auto simp: x split: if_splits)
  qed
next
  case Nil
  then show ?case by (cases w) simp
qed

definition before_tail :: "nat \<Rightarrow> bool \<Rightarrow> (wal, unit) prog" where
  "before_tail index removed_any =
     andThen (modify (\<lambda>w. w\<lparr>w_last_index :=
       (if w_offset_index w = [] then 0 else fst (last (w_offset_index w)))\<rparr>)) (\<lambda>_.
     andThen (\<lambda>w. whenP (w_segments w = []) (WAL_CreateFreshSegment index) w) (\<lambda>_.
     andThen (modify (\<lambda>w. w\<lparr>w_start := seg_start_index (hd (w_segments w))\<rparr>)) (\<lambda>_ w.
     whenP (removed_any \<or> w_fd w = None) WAL_OpenActiveSegmentForAppend w)))"

lemma TruncateBefore_unfold:
  "w_segments w \<noteq> [] \<Longrightarrow> WAL_TruncateBefore i w =
     andThen (truncate_before_loop i [] (w_segments w) False) (before_tail i) w"
  by (simp add: WAL_TruncateBefore_def before_tail_def [abs_def])

text \<open>Where \<^verbatim>\<open>TruncateBefore(i)\<close> stops: a prefix of the segments is removed.\<close>

lemma layout_lasts:
  assumes lay: "layout_ok dir lay"
  shows "sorted_wrt (\<lambda>a b. seg_last_index (fst a) \<le> seg_last_index (fst b) \<and> 0 < seg_last_index (fst a)) lay"
proof -
  have "successively (\<lambda>a b. seg_last_index (fst a) \<le> seg_last_index (fst b) \<and> 0 < seg_last_index (fst a)) lay"
    using layout_okD(3) [OF lay]
  proof (rule successively_mono)
    fix a b
    assume ab: "a \<in> set lay" "b \<in> set lay" and lk: "linked a b"
    have "seg_start_index (fst a) \<le> seg_last_index (fst a)" "0 < seg_start_index (fst a)"
      using seg_range [OF lay, of "fst a" "snd a"] ab lk layout_okD(2) [OF lay]
      by (auto simp: linked_def seg_ok_def)
    moreover have "seg_last_index (fst a) \<le> seg_last_index (fst b)"
      using seg_range [OF lay, of "fst b" "snd b"] ab lk by (auto simp: linked_def split: if_splits)
    ultimately show "seg_last_index (fst a) \<le> seg_last_index (fst b) \<and> 0 < seg_last_index (fst a)" by simp
  qed
  then show ?thesis by (subst (asm) successively_conv_sorted_wrt) (auto simp: transp_def)
qed

lemma before_split:
  assumes lay: "layout_ok dir lay"
  obtains K M where "lay = K @ M"
    "\<forall>x \<in> set K. seg_last_index (fst x) \<noteq> 0 \<and> seg_last_index (fst x) < i"
    "\<forall>x \<in> set M. \<not> (seg_last_index (fst x) \<noteq> 0 \<and> seg_last_index (fst x) < i)"
proof -
  let ?P = "\<lambda>x. seg_last_index (fst x) \<noteq> 0 \<and> seg_last_index (fst x) < i"
  from layout_lasts [OF lay] have "\<forall>x \<in> set (dropWhile ?P lay). \<not> ?P x"
  proof (induction lay)
    case (Cons x lay)
    have le: "seg_last_index (fst x) \<le> seg_last_index (fst y) \<and> 0 < seg_last_index (fst x)"
      if "y \<in> set lay" for y using that Cons.prems by simp
    show ?case
    proof (cases "?P x")
      case False
      then have "\<not> ?P y" if "y \<in> set lay" for y using le [OF that] by linarith
      then show ?thesis using False by (simp only: dropWhile.simps if_False set_simps ball_simps simp_thms) blast
    qed (use Cons in simp)
  qed simp
  moreover have "\<forall>x \<in> set (takeWhile ?P lay). ?P x"
    by (rule ballI) (rule set_takeWhileD [THEN conjunct2])
  ultimately show thesis by (rule that [of "takeWhile ?P lay" "dropWhile ?P lay", OF takeWhile_dropWhile_id [symmetric], rotated])
qed

lemma files_rep_drop:
  assumes rep: "files_rep c dir s (K @ M)" and M: "M \<noteq> []"
  shows "files_rep c dir (del_all (map (seg_path \<circ> fst) K) s) M"
proof -
  have lay: "layout_ok dir (K @ M)" using rep by (simp add: files_rep_def)
  have "seg_path (fst y) \<notin> (seg_path \<circ> fst) ` set K" if "y \<in> set M" for y
  proof
    assume "seg_path (fst y) \<in> (seg_path \<circ> fst) ` set K"
    then obtain x where "x \<in> set K" "seg_path (fst x) = (seg_path \<circ> fst) y" by auto
    then show False using layout_paths_split [OF lay, of x] that by (metis image_eqI)
  qed
  then have "on_disk c (del_all (map (seg_path \<circ> fst) K) s) M"
    using rep by (subst on_disk_others [of M _ s]) (auto simp: files_rep_def)
  moreover have "no_strays (del_all (map (seg_path \<circ> fst) K) s) dir M"
    using rep by - (rule no_strays_del [of s dir "K @ M"], auto simp: files_rep_def)
  ultimately show ?thesis
    using rep layout_suffix [OF lay M] by (simp add: files_rep_def)
qed

lemma before_tail_kept:
  assumes b: "wal_base c w lay" and fd: "\<not> r \<Longrightarrow> w_fd w = Some (seg_path (fst (last lay)), seg_size_bytes (fst (last lay)))"
  shows "\<exists>w'. before_tail i r w = (Ok (), w') \<and> wal_holds c w' (entries lay) \<and>
    w_last_index w' = (if entries lay = [] then 0 else le_index (last (entries lay))) \<and>
    w_start w' = seg_start_index (fst (hd lay))"
proof -
  define w1 where "w1 = w\<lparr>w_start := seg_start_index (fst (hd lay)),
    w_last_index := (if entries lay = [] then 0 else le_index (last (entries lay)))\<rparr>"
  have ne: "lay \<noteq> []" using b by (simp add: rep_defs layout_ok_def)
  have run: "before_tail i r w = whenP (r \<or> w_fd w = None) WAL_OpenActiveSegmentForAppend w1"
    using ne b by (cases w) (auto simp: before_tail_def andThen_def modify_def whenP_def ret_def wal_base_def
        last_index_of w1_def hd_map)
  have b1: "wal_base c w1 lay" using b by (simp add: wal_base_def w1_def)
  show ?thesis
  proof (cases "r \<or> w_fd w = None")
    case True
    then show ?thesis using base_rep [OF b1] unfolding run by (simp add: w1_def prog_simps)
  next
    case False
    then have "wal_rep c w1 lay" using b1 fd by (auto simp: wal_rep_def w1_def)
    then show ?thesis using False unfolding run by (auto simp: w1_def prog_simps wal_holds_def)
  qed
qed

lemma before_tail_empty:
  assumes fr: "files_rep c (w_dir w) s lay" and os: "w_os w = del_all (map (seg_path \<circ> fst) lay) s"
    and sg: "w_segments w = []" and ix: "w_offset_index w = []" and i: "0 < i" "i < 2 ^ 64"
  shows "\<exists>w'. before_tail i True w = (Ok (), w') \<and> wal_holds c w' [] \<and>
    w_last_index w' = 0 \<and> w_start w' = i"
proof -
  define seg where "seg = \<lparr>seg_start_index = i, seg_last_index = i - 1, seg_size_bytes = 0,
    seg_path = path_join (w_dir w) (SegmentFileName i)\<rparr>"
  define w1 where "w1 = w\<lparr>w_os := put_file (seg_path seg) [] (w_os w),
    w_segments := [seg], w_start := i, w_last_index := 0\<rparr>"
  have q: "quiet (w_os w)" using fr by (simp add: os files_rep_def)
  have run: "before_tail i True w = WAL_OpenActiveSegmentForAppend w1"
    using CreateFreshSegment_quiet [of "w\<lparr>w_last_index := 0\<rparr>" i] q i sg ix
    by (cases w) (simp add: before_tail_def andThen_def modify_def whenP_def sg ix w1_def seg_def)
  have "wal_base c w1 [(seg, [])]"
    using files_rep_restart [OF fr i seg_def] by (simp add: wal_base_def w1_def os ix)
  from base_rep [OF this] show ?thesis unfolding run by (simp add: w1_def seg_def)
qed

text \<open>
  Only entries below \<open>i\<close> go, and they go from the front of the log. An emptied log starts at
  or below \<open>i\<close> (or where it started before), so the entry after the snapshot can be appended.
\<close>

lemma WAL_TruncateBefore_spec:
  assumes h: "wal_holds c w es" and i: "i < 2 ^ 64"
  shows "\<exists>w' k. WAL_TruncateBefore i w = (Ok (), w') \<and> wal_holds c w' (drop k es) \<and>
    (\<forall>e \<in> set (take k es). le_index e < i) \<and>
    w_last_index w' = (if drop k es = [] then 0 else w_last_index w) \<and>
    (drop k es = [] \<longrightarrow> w_start w' \<le> Max {w_start w, i, Suc (w_last_index w)})"
proof -
  obtain lay where rep: "wal_rep c w lay" and es: "es = entries lay"
    using h by (auto simp: wal_holds_def)
  note f = wal_rep_facts [OF rep]
  obtain K M where l: "lay = K @ M"
    and K: "\<forall>x \<in> set K. seg_last_index (fst x) \<noteq> 0 \<and> seg_last_index (fst x) < i"
    and M: "\<forall>x \<in> set M. \<not> (seg_last_index (fst x) \<noteq> 0 \<and> seg_last_index (fst x) < i)"
    using before_split [OF f(3)] by metis
  have fr: "files_rep c (w_dir w) (w_os w) (K @ M)" using rep by (simp add: rep_defs l)
  define w0 where "w0 = w\<lparr>w_os := del_all (map (seg_path \<circ> fst) K) (w_os w), w_segments := map fst M,
    w_offset_index := index_of c M, w_fd := (if K \<noteq> [] \<and> M = [] then None else w_fd w)\<rparr>"
  have "truncate_before_loop i [] (w_segments w) False w = (Ok (K \<noteq> []), w0)"
    using before_loop_remove [OF f(3) [unfolded l] f(2), of c i False] K M f(8,10) l
      before_loop_stop [of "map fst M" i "[]" "K \<noteq> []" w0]
    by (simp add: w0_def)
  then have run: "WAL_TruncateBefore i w = before_tail i (K \<noteq> []) w0"
    using TruncateBefore_unfold [of w i] f(9,10) by (simp add: andThen_def)
  have below: "\<forall>e \<in> set (take (length (entries K)) es). le_index e < i"
    using entries_below [OF f(3), of K i] K by (simp add: es l)
  have lst: "entries M \<noteq> [] \<Longrightarrow> w_last_index w = le_index (last (entries M))"
    using rep by (simp add: wal_rep_def l)
  have "\<exists>w'. before_tail i (K \<noteq> []) w0 = (Ok (), w') \<and> wal_holds c w' (entries M) \<and>
    w_last_index w' = (if entries M = [] then 0 else w_last_index w) \<and>
    (entries M = [] \<longrightarrow> w_start w' \<le> Max {w_start w, i, Suc (w_last_index w)})"
  proof (cases "M = []")
    case True
    then have "K \<noteq> []" using f(9) by (simp add: l)
    then have "0 < i" using K by (cases K) auto
    then show ?thesis
      using before_tail_empty [of c w0 "w_os w" K i] fr i True \<open>K \<noteq> []\<close> by (auto simp: w0_def)
  next
    case False
    have "wal_base c w0 M" using files_rep_drop [OF fr False] by (simp add: wal_base_def w0_def)
    moreover have "w_fd w0 = Some (seg_path (fst (last M)), seg_size_bytes (fst (last M)))"
      using rep False by (simp add: wal_rep_def w0_def l)
    ultimately obtain w' where w': "before_tail i (K \<noteq> []) w0 = (Ok (), w')" "wal_holds c w' (entries M)"
        "w_last_index w' = (if entries M = [] then 0 else le_index (last (entries M)))"
        "w_start w' = seg_start_index (fst (hd M))"
      using before_tail_kept by blast
    have "w_start w' \<le> Max {w_start w, i, Suc (w_last_index w)}" if e: "entries M = []"
    proof (cases "K = []")
      case True
      then show ?thesis using rep w'(4) by (simp add: wal_rep_def l)
    next
      case Kne: False
      then have lk: "linked (last K) (hd M)"
        using layout_okD(3) [OF f(3)] False by (auto simp: l successively_append_iff)
      have "seg_last_index (fst (last K)) = le_index (last (entries K))" "entries K \<noteq> []"
        using last_entries [OF layout_prefix [OF f(3) [unfolded l] Kne]] lk by (auto simp: linked_def)
      moreover have "w_last_index w = le_index (last (entries K))"
        using rep e calculation(2) by (simp add: wal_rep_def l)
      ultimately show ?thesis using w'(4) lk by (simp add: linked_def)
    qed
    then show ?thesis using w' lst by auto
  qed
  then show ?thesis
    using below unfolding run by (intro exI [of _ "length (entries K)"] ex_comm [THEN iffD1]) (auto simp: es l)
qed

end
