(* ===== verification/WalRecover.thy ===== *)
theory WalRecover
  imports WalTruncate
begin

text \<open>
  \<^verbatim>\<open>WAL::Open\<close> on the files a log left behind: the directory may list the segments in any
  order, and the last segment may end in a torn record. Recovery rebuilds the log, cutting the
  torn record off.
\<close>

section \<open>The loop over the records of a segment\<close>

lemma recover_record:
  assumes "codec_ok c" and "entry_ok e" and "quiet (w_os w)"
    and "content (w_os w) p = pre @ encode_record c e @ post"
    and "sz = length (content (w_os w) p)"
  shows "recover_loop c k p sz (length pre) li w =
    recover_loop c k p sz (length pre + length (encode_record c e)) (le_index e)
      (w\<lparr>w_offset_index := omap_put (le_index e) \<lparr>loc_path = p, loc_offset = length pre\<rparr>
         (w_offset_index w)\<rparr>)"
proof -
  note r = entry_record [OF assms(1,2)]
  let ?b = "LogEntry_Serialize c e"
  have lt: "length pre < sz" using assms(4,5) by simp
  have 1: "onOs (ReadExactly p (length pre) kRecordHeaderSize []) w = (Ok (wal_header ?b), w)"
    using ReadExactly_quiet [OF assms(3)] assms(4) r(1) [of post] by (simp add: onOs_def)
  have 2: "onOs (ReadExactly p (length pre + kRecordHeaderSize) (length ?b) []) w = (Ok ?b, w)"
    using ReadExactly_quiet [OF assms(3)] assms(4) r(2,4) by (simp add: onOs_def)
  have len: "length (wal_header ?b) = kRecordHeaderSize" "kRecordHeaderSize \<noteq> 0"
    by (simp_all add: kRecordHeaderSize_def)
  show ?thesis
    by (subst recover_loop.simps)
      (simp add: lt 1 2 len wal_header_fields r LogEntry_roundtrip [OF assms(1,2)] add.assoc)
qed

lemma recover_records:
  assumes "codec_ok c" and "\<forall>e \<in> set es. entry_ok e" and "quiet (w_os w)"
    and "content (w_os w) p = pre @ bytes_of c es @ post"
    and "sz = length (content (w_os w) p)"
    and "sorted_wrt (<) (map fst (w_offset_index w) @ map le_index es)"
  shows "recover_loop c k p sz (length pre) li w =
    recover_loop c k p sz (length (pre @ bytes_of c es)) (if es = [] then li else le_index (last es))
      (w\<lparr>w_offset_index := w_offset_index w @ locs c p (length pre) es\<rparr>)"
  using assms(2-6)
proof (induction es arbitrary: pre li w)
  case (Cons e es)
  let ?loc = "\<lparr>loc_path = p, loc_offset = length pre\<rparr>"
  let ?w1 = "w\<lparr>w_offset_index := w_offset_index w @ [(le_index e, ?loc)]\<rparr>"
  have ix: "omap_put (le_index e) ?loc (w_offset_index w) = w_offset_index w @ [(le_index e, ?loc)]"
    using Cons.prems(5) by (intro omap_put_last) (auto simp: sorted_wrt_append)
  have "recover_loop c k p sz (length pre) li w =
      recover_loop c k p sz (length (pre @ encode_record c e)) (le_index e) ?w1"
    using recover_record [OF assms(1), of e w p pre "bytes_of c es @ post" sz k li] Cons.prems ix by simp
  also have "\<dots> = recover_loop c k p sz (length ((pre @ encode_record c e) @ bytes_of c es))
      (if es = [] then le_index e else le_index (last es))
      (?w1\<lparr>w_offset_index := w_offset_index ?w1 @ locs c p (length (pre @ encode_record c e)) es\<rparr>)"
    using Cons.prems by (intro Cons.IH) auto
  finally show ?case by simp
qed simp

lemma recover_end: "recover_loop c k p sz sz li w = (Ok (sz, li, False, True), w)"
  by (subst recover_loop.simps) simp

text \<open>A prefix of a record is not taken for one.\<close>

definition torn :: "codec \<Rightarrow> string \<Rightarrow> bool" where
  "torn c t \<longleftrightarrow> (\<exists>e k. entry_ok e \<and> k < length (encode_record c e) \<and> t = take k (encode_record c e))"

lemma recover_torn:
  assumes "codec_ok c" and t: "torn c t" "t \<noteq> []" and q: "quiet (w_os w)"
    and ct: "content (w_os w) p = pre @ t" and sz: "sz = length (content (w_os w) p)"
  shows "recover_loop c k p sz (length pre) li w = recover_truncate k p (length pre) li w"
proof -
  obtain e n where e: "entry_ok e" and n: "n < length (encode_record c e)" "t = take n (encode_record c e)"
    using t(1) by (auto simp: torn_def)
  note r = entry_record [OF assms(1) e]
  let ?b = "LogEntry_Serialize c e"
  have lt: "length pre < sz" using t(2) ct sz by simp
  have rd: "onOs (ReadExactly p (length pre + i) m []) w = (Ok (take m (drop i t)), w)" for i m
    using ReadExactly_quiet [OF q] ct by (simp add: onOs_def)
  note rd0 = rd [of 0 kRecordHeaderSize, simplified]
  have len: "length t = n" using n by simp
  show ?thesis
  proof (cases "n < kRecordHeaderSize")
    case True
    then have h: "length (take kRecordHeaderSize t) = n" "n \<noteq> 0" "n \<noteq> kRecordHeaderSize" "t \<noteq> []"
      using len t(2) by auto
    show ?thesis by (subst recover_loop.simps) (simp add: lt rd0 h(2-4) len True)
  next
    case False
    have "take kRecordHeaderSize t = wal_header ?b"
      using False n r(1) [of "[]"] by (simp add: take_take min_def)
    moreover have "length t - kRecordHeaderSize < length ?b" "length t \<noteq> kRecordHeaderSize + length ?b"
      using False n(1) r(4) by (simp_all add: len)
    moreover have "kRecordHeaderSize \<noteq> 0" by (simp add: kRecordHeaderSize_def)
    ultimately show ?thesis
      by (subst recover_loop.simps) (simp add: lt rd0 rd wal_header_fields r(3))
  qed
qed

lemma recover_truncate_quiet:
  assumes "quiet (w_os w)"
  shows "recover_truncate k p off li w = (Ok (off, li, True, False),
    w\<lparr>w_os := put_file p (resize off (content (w_os w) p)) (w_os w),
      w_segments := (w_segments w)[k := (w_segments w ! k)\<lparr>seg_size_bytes := off\<rparr>]\<rparr>)"
  using assms by (simp add: recover_truncate_def onOs_def os_simps)

section \<open>One segment\<close>

text \<open>The metadata listing a directory gives, and the metadata recovery computes.\<close>

definition raw_seg :: "os \<Rightarrow> SegmentMeta \<Rightarrow> SegmentMeta" where
  "raw_seg s sg = \<lparr>seg_start_index = seg_start_index sg, seg_last_index = 0,
     seg_size_bytes = length (content s (seg_path sg)), seg_path = seg_path sg\<rparr>"

definition norm_seg :: "codec \<Rightarrow> SegmentMeta \<times> LogEntry list \<Rightarrow> SegmentMeta \<times> LogEntry list" where
  "norm_seg c x = (\<lparr>seg_start_index = seg_start_index (fst x),
     seg_last_index = (if snd x = [] then seg_start_index (fst x) - 1 else le_index (last (snd x))),
     seg_size_bytes = length (bytes_of c (snd x)), seg_path = seg_path (fst x)\<rparr>, snd x)"

lemma norm_seg_simps [simp]:
  "snd (norm_seg c x) = snd x" "seg_path (fst (norm_seg c x)) = seg_path (fst x)"
  "seg_start_index (fst (norm_seg c x)) = seg_start_index (fst x)"
  "seg_size_bytes (fst (norm_seg c x)) = length (bytes_of c (snd x))"
  by (simp_all add: norm_seg_def)

lemma index_of_norm [simp]: "index_of c (map (norm_seg c) lay) = index_of c lay"
  by (induction lay) (auto simp: norm_seg_def)

lemma entries_norm [simp]: "entries (map (norm_seg c) lay) = entries lay"
  by (simp add: entries_def comp_def)

lemma RecoverSegment_quiet:
  assumes "codec_ok c" and ok: "\<forall>e \<in> set es. entry_ok e" and q: "quiet (w_os w)"
    and fe: "file_exists (w_os w) (seg_path sg)"
    and ct: "content (w_os w) (seg_path sg) = bytes_of c es @ t" and t: "torn c t \<or> t = []"
    and srt: "sorted_wrt (<) (map fst (w_offset_index w) @ map le_index es)"
    and sg: "w_segments w = A @ raw_seg (w_os w) sg # B" and k: "k = length A" and st: "0 < seg_start_index sg"
  shows "WAL_RecoverSegment c k w = (Ok (t \<noteq> []),
    w\<lparr>w_os := (if t = [] then w_os w else put_file (seg_path sg) (bytes_of c es) (w_os w)),
      w_offset_index := w_offset_index w @ locs c (seg_path sg) 0 es,
      w_segments := A @ fst (norm_seg c (sg, es)) # B,
      w_last_index := max (w_last_index w) (seg_last_index (fst (norm_seg c (sg, es))))\<rparr>)"
proof -
  let ?p = "seg_path sg" and ?sz = "length (content (w_os w) (seg_path sg))"
  let ?li = "seg_start_index sg - 1"
  let ?w1 = "w\<lparr>w_offset_index := w_offset_index w @ locs c ?p 0 es\<rparr>"
  let ?li' = "if es = [] then ?li else le_index (last es)"
  have run: "recover_loop c k ?p ?sz 0 ?li w = recover_loop c k ?p ?sz (length (bytes_of c es)) ?li' ?w1"
    using recover_records [OF assms(1) ok q, of ?p "[]" t ?sz k ?li] ct srt by simp
  have seg: "w_segments w ! k = raw_seg (w_os w) sg" by (simp add: sg k)
  show ?thesis
  proof (cases "t = []")
    case True
    then have "recover_loop c k ?p ?sz 0 ?li w = (Ok (length (bytes_of c es), ?li', False, True), ?w1)"
      using run recover_end [of c k ?p ?sz] ct by simp
    then show ?thesis
      using q fe True st
      by (simp add: WAL_RecoverSegment_def seg raw_seg_def andThen_def onOs_def os_simps modify_def
          ret_def whenP_def norm_seg_def sg k Let_def)
  next
    case False
    then have "recover_loop c k ?p ?sz 0 ?li w = (Ok (length (bytes_of c es), ?li', True, False),
        ?w1\<lparr>w_os := put_file ?p (bytes_of c es) (w_os w),
          w_segments := A @ (raw_seg (w_os w) sg)\<lparr>seg_size_bytes := length (bytes_of c es)\<rparr> # B\<rparr>)"
      using run recover_torn [OF assms(1), of t ?w1 ?p "bytes_of c es" ?sz k ?li'] t q ct
        recover_truncate_quiet [of ?w1 k ?p "length (bytes_of c es)" ?li']
      by (simp add: sg k resize_take)
    then show ?thesis
      using q fe False st
      by (simp add: WAL_RecoverSegment_def seg raw_seg_def andThen_def onOs_def os_simps modify_def
          ret_def whenP_def norm_seg_def sg k Let_def)
  qed
qed

section \<open>All segments\<close>

text \<open>
  The files of a layout after a crash: every segment but the last holds its entries, the last
  one holds its entries and then \<open>t\<close>.
\<close>

definition crashed :: "codec \<Rightarrow> path \<Rightarrow> os \<Rightarrow> layout \<Rightarrow> string \<Rightarrow> bool" where
  "crashed c dir s lay t \<longleftrightarrow> codec_ok c \<and> quiet s \<and> dmap (os_files s) \<and> layout_ok dir lay \<and>
     no_strays s dir lay \<and> (torn c t \<or> t = []) \<and> on_disk c s (butlast lay) \<and>
     file_exists s (seg_path (fst (last lay))) \<and>
     content s (seg_path (fst (last lay))) = bytes_of c (snd (last lay)) @ t"

lemma crashed_seg:
  assumes "crashed c dir s (A @ x # B) t"
  shows "file_exists s (seg_path (fst x))"
    and "content s (seg_path (fst x)) = bytes_of c (snd x) @ (if B = [] then t else [])"
    and "\<forall>e \<in> set (snd x). entry_ok e" and "0 < seg_start_index (fst x)"
proof -
  obtain sg es where x: "x = (sg, es)" by (cases x)
  have lay: "layout_ok dir (A @ x # B)" using assms by (simp add: crashed_def)
  show "file_exists s (seg_path (fst x))"
    and "content s (seg_path (fst x)) = bytes_of c (snd x) @ (if B = [] then t else [])"
    using assms by (cases "B = []"; simp add: crashed_def x butlast_append)+
  show "\<forall>e \<in> set (snd x). entry_ok e" and "0 < seg_start_index (fst x)"
    using layout_okD(2,5) [OF lay] by (auto simp: x seg_ok_def)
qed

lemma recover_from_quiet:
  assumes cr: "crashed c dir s (A @ B) t" and os: "w_os w = s"
    and sg: "w_segments w = map (fst \<circ> norm_seg c) A @ map (raw_seg s \<circ> fst) B"
    and ix: "w_offset_index w = index_of c A" and B: "B \<noteq> []" and k: "k = length A"
  shows "recover_from c k (length B) w = (Ok (),
    w\<lparr>w_os := (if t = [] then s else put_file (seg_path (fst (last B))) (bytes_of c (snd (last B))) s),
      w_segments := map (fst \<circ> norm_seg c) (A @ B), w_offset_index := index_of c (A @ B),
      w_last_index := fold (\<lambda>x m. max m (seg_last_index (fst (norm_seg c x)))) B (w_last_index w)\<rparr>)"
  using assms
proof (induction B arbitrary: A w k)
  case (Cons x B)
  note cr = Cons.prems(1)
  have lay: "layout_ok dir (A @ x # B)" and c: "codec_ok c" and q: "quiet s"
    and t: "torn c t \<or> t = []" using cr by (simp_all add: crashed_def)
  note x = crashed_seg [OF cr]
  let ?t = "if B = [] then t else []"
  let ?w1 = "w\<lparr>w_os := (if ?t = [] then s else put_file (seg_path (fst x)) (bytes_of c (snd x)) s),
      w_offset_index := index_of c (A @ [x]),
      w_segments := map (fst \<circ> norm_seg c) (A @ [x]) @ map (raw_seg s \<circ> fst) B,
      w_last_index := max (w_last_index w) (seg_last_index (fst (norm_seg c x)))\<rparr>"
  have "sorted_wrt (<) (map le_index (entries A @ snd x @ entries B))"
    using contiguous_sorted [OF layout_okD(4) [OF lay]] by simp
  then have srt: "sorted_wrt (<) (map fst (w_offset_index w) @ map le_index (snd x))"
    using Cons.prems(4) by (auto simp: sorted_wrt_append)
  have seg: "WAL_RecoverSegment c k w = (Ok (?t \<noteq> []), ?w1)"
    using RecoverSegment_quiet [OF c x(3), of w "fst x" ?t "map (fst \<circ> norm_seg c) A" "map (raw_seg s \<circ> fst) B" k]
      x t q srt Cons.prems by (cases x) (simp add: index_of_def split: if_splits)
  show ?case
  proof (cases "B = []")
    case True
    then show ?thesis
      using seg Cons.prems
      by (auto simp: andThen_def WAL_RemoveSegmentsAfter_def ret_def)
  next
    case False
    have "recover_from c (Suc k) (length B) ?w1 = (Ok (), ?w1\<lparr>
        w_os := (if t = [] then s else put_file (seg_path (fst (last B))) (bytes_of c (snd (last B))) s),
        w_segments := map (fst \<circ> norm_seg c) ((A @ [x]) @ B), w_offset_index := index_of c ((A @ [x]) @ B),
        w_last_index := fold (\<lambda>x m. max m (seg_last_index (fst (norm_seg c x)))) B (w_last_index ?w1)\<rparr>)"
      by (rule Cons.IH) (use Cons.prems False in simp_all)
    then show ?thesis using seg False by (simp add: andThen_def)
  qed
next
  case Nil
  from Nil.prems(5) show ?case by blast
qed

section \<open>The directory listing\<close>

lemma slash_SegmentFileName: "CHR ''/'' \<notin> set (SegmentFileName n)"
  using dec_digits [of n] by (auto simp: SegmentFileName_def isdigit_def code_def)

lemma SegmentFileName_not_Nil [simp]: "SegmentFileName n \<noteq> []"
  by (simp add: SegmentFileName_def)

lemma seg_listed:
  assumes "seg_ok dir sg es" and "file_exists s (seg_path sg)"
  shows "seg_path sg \<in> set (dir_files s dir)" and "ParseSegmentStartIndex (seg_path sg) = Ok (seg_start_index sg)"
  using assms SegmentFileName_parse [of "seg_start_index sg" dir]
  by (auto simp: seg_ok_def set_dir_files slash_SegmentFileName)

lemma set_list_segments:
  assumes cr: "crashed c dir s lay t"
  shows "set (list_segments s dir) = set (map (raw_seg s \<circ> fst) lay)"
proof -
  have lay: "layout_ok dir lay" and ns: "no_strays s dir lay" using cr by (simp_all add: crashed_def)
  have x: "seg_path (fst x) \<in> set (dir_files s dir)"
    "ParseSegmentStartIndex (seg_path (fst x)) = Ok (seg_start_index (fst x))" if "x \<in> set lay" for x
  proof -
    obtain A B where "lay = A @ x # B" using \<open>x \<in> set lay\<close> by (meson split_list)
    then have "file_exists s (seg_path (fst x))" using crashed_seg(1) cr by blast
    moreover have "seg_ok dir (fst x) (snd x)" using layout_okD(2) [OF lay] that by auto
    ultimately show "seg_path (fst x) \<in> set (dir_files s dir)"
      "ParseSegmentStartIndex (seg_path (fst x)) = Ok (seg_start_index (fst x))"
      using seg_listed by blast+
  qed
  have "sg \<in> set (list_segments s dir) \<longleftrightarrow> (\<exists>x \<in> set lay. sg = raw_seg s (fst x))" for sg
  proof
    assume "sg \<in> set (list_segments s dir)"
    then obtain p n where p: "p \<in> set (dir_files s dir)" "ParseSegmentStartIndex p = Ok n"
      and sg: "sg = \<lparr>seg_start_index = n, seg_last_index = 0, seg_size_bytes = length (content s p), seg_path = p\<rparr>"
      by (auto simp: list_segments_def split: sum.splits)
    then obtain y where "y \<in> set lay" "p = seg_path (fst y)" using ns by (auto simp: no_strays_def)
    then show "\<exists>x \<in> set lay. sg = raw_seg s (fst x)" using x(2) [of y] p sg by (auto simp: raw_seg_def)
  next
    assume "\<exists>x \<in> set lay. sg = raw_seg s (fst x)"
    then show "sg \<in> set (list_segments s dir)"
      using x by (force simp: list_segments_def raw_seg_def split: sum.splits)
  qed
  then show ?thesis by auto
qed

lemma distinct_list_segments:
  assumes "dmap (os_files s)"
  shows "distinct (list_segments s dir)"
proof -
  have "map seg_path (concat (map (\<lambda>p. case ParseSegmentStartIndex p of Err _ \<Rightarrow> []
      | Ok n \<Rightarrow> [\<lparr>seg_start_index = n, seg_last_index = 0,
          seg_size_bytes = length (content s p), seg_path = p\<rparr>]) ps)) =
    filter (\<lambda>p. \<exists>n. ParseSegmentStartIndex p = Ok n) ps" for ps
    by (induction ps) (auto split: sum.splits)
  then have "distinct (map seg_path (list_segments s dir))"
    using assms by (simp add: list_segments_def dir_files_def)
  then show ?thesis by (simp add: distinct_map)
qed

lemma sorted_listing:
  assumes cr: "crashed c dir s lay t"
  shows "sort_key seg_start_index (list_segments s dir) = map (raw_seg s \<circ> fst) lay" (is "?xs = ?ys")
proof -
  have lay: "layout_ok dir lay" and d: "dmap (os_files s)" using cr by (simp_all add: crashed_def)
  have st: "sorted_wrt (<) (map seg_start_index ?ys)"
    using layout_starts [OF lay] by (simp add: sorted_wrt_map raw_seg_def)
  have set: "set ?xs = set ?ys" using set_list_segments [OF cr] by simp
  have inj: "inj_on seg_start_index (set ?ys)" using st by (simp only: strict_sorted_iff distinct_map)
  show ?thesis
  proof (rule map_sorted_distinct_set_unique [of seg_start_index])
    show "inj_on seg_start_index (set ?xs \<union> set ?ys)" using inj by (simp only: set Un_absorb)
    show "distinct (map seg_start_index ?xs)"
      using inj distinct_list_segments [OF d, of dir] by (simp only: distinct_map set) simp
  qed (use st set in \<open>simp_all only: strict_sorted_iff sorted_sort_key\<close>)
qed

section \<open>Open\<close>

lemma layout_norm:
  assumes "layout_ok dir lay"
  shows "layout_ok dir (map (norm_seg c) lay)"
proof -
  note d = layout_okD [OF assms]
  have ok: "seg_ok dir (fst x) (snd x)" if "x \<in> set lay" for x using d(2) that by auto
  have "successively (\<lambda>a b. linked (norm_seg c a) (norm_seg c b)) lay"
    using d(3)
  proof (rule successively_mono)
    fix a b
    assume "a \<in> set lay" "b \<in> set lay" "linked a b"
    then show "linked (norm_seg c a) (norm_seg c b)"
      using ok [of a] ok [of b] by (auto simp: linked_def norm_seg_def seg_ok_def)
  qed
  moreover have "\<forall>x \<in> set (map (norm_seg c) lay). seg_ok dir (fst x) (snd x)"
    using ok by (auto simp: norm_seg_def seg_ok_def split: if_splits)
  ultimately show ?thesis using d by (simp add: layout_ok_def successively_map case_prod_beta)
qed

lemma fold_max_last:
  assumes "sorted_wrt (\<lambda>a b. f a \<le> f b) xs" and "xs \<noteq> []"
  shows "fold (\<lambda>x m. max m (f x)) xs (0 :: nat) = f (last xs)"
proof -
  have "fold (\<lambda>x m. max m (f x)) xs n = max n (f (last xs))" for n
    using assms
  proof (induction xs arbitrary: n)
    case (Cons x xs)
    show ?case
    proof (cases "xs = []")
      case False
      then have "f x \<le> f (last xs)" using Cons.prems(1) by simp
      moreover have "fold (\<lambda>x m. max m (f x)) xs (max n (f x)) = max (max n (f x)) (f (last xs))"
        using Cons False by simp
      ultimately show ?thesis using False by (simp add: max.absorb2 max.assoc)
    qed simp
  qed simp
  then show ?thesis by simp
qed

lemma crashed_files_rep:
  assumes cr: "crashed c dir s lay t"
  shows "files_rep c dir (if t = [] then s else put_file (seg_path (fst (last lay))) (bytes_of c (snd (last lay))) s)
    (map (norm_seg c) lay)" (is "files_rep c dir ?s _")
proof -
  have lay: "layout_ok dir lay" using cr by (simp add: crashed_def)
  obtain L sg es where L: "lay = L @ [(sg, es)]"
    using layout_okD(1) [OF lay] by (metis append_butlast_last_id surj_pair)
  have nd: "on_disk c s M \<Longrightarrow> on_disk c s (map (norm_seg c) M)" for M
    by (induction M) (auto simp: norm_seg_def)
  have oth: "\<forall>y \<in> set L. seg_path (fst y) \<noteq> seg_path sg" using layout_paths [OF lay [unfolded L]] by simp
  have "on_disk c ?s (map (norm_seg c) L)"
    using nd [of L] cr oth
    by (subst on_disk_others [of _ _ s]) (auto simp: crashed_def L norm_seg_def)
  then have "on_disk c ?s (map (norm_seg c) lay)"
    using cr by (simp add: L crashed_def norm_seg_def)
  moreover have "no_strays ?s dir (map (norm_seg c) lay)"
  proof (rule no_strays_update)
    show "no_strays s dir lay" using cr by (simp add: crashed_def)
    fix p
    assume "file_exists ?s p"
    then have "file_exists s p \<or> p = seg_path sg" by (auto simp: L split: if_splits)
    moreover have "lay_paths (map (norm_seg c) lay) = lay_paths lay" by (simp add: image_image)
    moreover have "seg_path sg \<in> lay_paths lay" by (simp add: L)
    ultimately show "p \<in> lay_paths (map (norm_seg c) lay) \<or> file_exists s p \<and> p \<notin> lay_paths lay" by blast
  qed
  moreover have "quiet ?s" "dmap (os_files ?s)" "codec_ok c" using cr by (auto simp: crashed_def)
  ultimately show ?thesis using layout_norm [OF lay, of c] unfolding files_rep_def by blast
qed

lemma WAL_Open_spec:
  assumes cr: "crashed c dir s lay t" and sz: "0 < sz"
  shows "\<exists>w. WAL_Open c dir st sz s = (Ok w, w_os w) \<and> wal_holds c w (entries lay) \<and>
    w_start w = seg_start_index (fst (hd lay)) \<and>
    w_last_index w = (if entries lay = [] then seg_start_index (fst (last lay)) - 1
      else le_index (last (entries lay)))"
proof -
  have lay: "layout_ok dir lay" and q: "quiet s" using cr by (simp_all add: crashed_def)
  note ne = layout_okD(1) [OF lay]
  let ?lay = "map (norm_seg c) lay"
  let ?s = "if t = [] then s else put_file (seg_path (fst (last lay))) (bytes_of c (snd (last lay))) s"
  define w0 where "w0 = WAL_new dir st sz s"
  define li where "li = fold (\<lambda>x m. max m (seg_last_index (fst (norm_seg c x)))) lay 0"
  define w1 where "w1 = w0\<lparr>w_os := ?s, w_segments := map fst ?lay, w_offset_index := index_of c ?lay,
    w_last_index := li, w_start := seg_start_index (fst (hd lay))\<rparr>"
  have "recover_from c 0 (length lay) (w0\<lparr>w_segments := map (raw_seg s \<circ> fst) lay\<rparr>) = (Ok (),
      w0\<lparr>w_os := ?s, w_segments := map fst ?lay, w_offset_index := index_of c lay, w_last_index := li\<rparr>)"
    using recover_from_quiet [of c dir s "[]" lay t "w0\<lparr>w_segments := map (raw_seg s \<circ> fst) lay\<rparr>" 0] cr ne
    by (simp add: w0_def WAL_new_def li_def)
  then have load: "WAL_LoadExistingSegments c w0 = (Ok (), w1)"
    using sorted_listing [OF cr] ne
    by (simp add: WAL_LoadExistingSegments_def w0_def WAL_new_def andThen_def prog_simps modify_def w1_def hd_map)
  have fr: "files_rep c dir ?s ?lay" by (rule crashed_files_rep [OF cr])
  have b: "wal_base c w1 ?lay" using fr by (simp add: wal_base_def w1_def w0_def WAL_new_def)
  have lay': "layout_ok dir ?lay" by (rule layout_norm [OF lay])
  have "sorted_wrt (\<lambda>a b. seg_last_index (fst (norm_seg c a)) \<le> seg_last_index (fst (norm_seg c b))) lay"
    by (rule sorted_wrt_mono_rel [rotated, OF layout_lasts [OF lay', unfolded sorted_wrt_map]]) simp
  then have li: "li = seg_last_index (fst (norm_seg c (last lay)))"
    unfolding li_def using ne by (rule fold_max_last)
  have last: "entries lay \<noteq> [] \<Longrightarrow> li = le_index (last (entries lay))"
    using last_entries_index [OF lay'] ne by (simp add: li last_map)
  have empty: "li = seg_start_index (fst (last lay)) - 1" if "entries lay = []"
  proof -
    have "snd (last lay) = []" using that ne by (metis append_butlast_last_id append_is_Nil_conv entries_simps(2,3))
    then show ?thesis by (simp add: li norm_seg_def)
  qed
  obtain w2 where w2: "WAL_OpenActiveSegmentForAppend w1 = (Ok (), w2)" "wal_holds c w2 (entries ?lay)"
      "w_last_index w2 = w_last_index w1" "w_start w2 = w_start w1"
    using base_rep [OF b] last ne by (auto simp: w1_def hd_map)
  have "WAL_Open c dir st sz s = (Ok w2, w_os w2)"
    using sz load w2(1) q by (simp add: WAL_Open_def andThen_def onOs_def os_simps w0_def WAL_new_def)
  then show ?thesis using w2 last empty by (simp add: w1_def)
qed

text \<open>The files under a log, as it is and with a torn record at its end.\<close>

lemma wal_holds_crashed:
  assumes "wal_holds c w es" and t: "torn c t \<or> t = []" and p: "p = seg_path (last (w_segments w))"
  shows "\<exists>lay. crashed c (w_dir w) (if t = [] then w_os w else put_file p (content (w_os w) p @ t) (w_os w)) lay t \<and>
    entries lay = es \<and> seg_start_index (fst (hd lay)) = w_start w \<and>
    (es = [] \<longrightarrow> seg_start_index (fst (last lay)) = w_start w)"
proof -
  obtain lay where rep: "wal_rep c w lay" and es: "entries lay = es"
    using assms(1) by (auto simp: wal_holds_def)
  note f = wal_rep_facts [OF rep]
  obtain L sg fs where L: "lay = L @ [(sg, fs)]"
    using f(9) by (metis append_butlast_last_id surj_pair)
  have p': "p = seg_path sg" using f(10) by (simp add: p L)
  have oth: "\<forall>y \<in> set L. seg_path (fst y) \<noteq> seg_path sg" using layout_paths [OF f(3) [unfolded L]] by simp
  let ?s = "if t = [] then w_os w else put_file p (content (w_os w) p @ t) (w_os w)"
  have "on_disk c ?s L"
    using f(4) oth by (subst on_disk_others [of _ _ "w_os w"]) (auto simp: L p')
  moreover have "no_strays ?s (w_dir w) lay"
    using f(11) by (auto simp: L p' no_strays_def set_dir_files)
  ultimately have "crashed c (w_dir w) ?s lay t"
    using f t unfolding crashed_def by (simp add: L p')
  moreover have "es = [] \<longrightarrow> seg_start_index (fst (last lay)) = w_start w"
  proof
    assume "es = []"
    then have "L = []"
      using es layout_okD(3) [OF f(3)] by (cases L rule: rev_cases) (auto simp: L successively_append_iff linked_def)
    then show "seg_start_index (fst (last lay)) = w_start w" using rep by (simp add: L wal_rep_def)
  qed
  ultimately show ?thesis using es rep by (auto simp: wal_rep_def)
qed

end
