(* ===== verification/WalStore.thy ===== *)
theory WalStore
  imports WalRecover SampleCodec
begin

text \<open>
  The write-ahead log as an implementation of the log contract, and the properties of the
  storage engine.
\<close>

section \<open>The WAL implements the log\<close>

definition wal_ops :: "codec \<Rightarrow> wal log_ops" where
  "wal_ops c = \<lparr>lo_Append = WAL_Append c, lo_Flush = WAL_Flush, lo_Read = WAL_Read c,
     lo_ReadFrom = WAL_ReadFrom c, lo_TermAt = WAL_TermAt c, lo_TruncateBefore = WAL_TruncateBefore,
     lo_TruncateSuffix = WAL_TruncateSuffix, lo_LastIndex = WAL_LastIndex\<rparr>"

lemma wal_ops_simps [simp]:
  "lo_Append (wal_ops c) = WAL_Append c" "lo_Flush (wal_ops c) = WAL_Flush"
  "lo_Read (wal_ops c) = WAL_Read c" "lo_ReadFrom (wal_ops c) = WAL_ReadFrom c"
  "lo_TermAt (wal_ops c) = WAL_TermAt c" "lo_TruncateBefore (wal_ops c) = WAL_TruncateBefore"
  "lo_TruncateSuffix (wal_ops c) = WAL_TruncateSuffix" "lo_LastIndex (wal_ops c) = w_last_index"
  by (simp_all add: wal_ops_def WAL_LastIndex_def [abs_def])

lemma wal_holds_facts:
  assumes "wal_holds c w es"
  shows "contiguous es" "\<forall>e \<in> set es. entry_ok e" "es \<noteq> [] \<Longrightarrow> w_last_index w = le_index (last es)"
    "WAL_Flush w = (Ok (), w)"
proof -
  obtain lay where rep: "wal_rep c w lay" and es: "entries lay = es"
    using assms by (auto simp: wal_holds_def)
  note f = wal_rep_facts [OF rep]
  show "contiguous es" "\<forall>e \<in> set es. entry_ok e" "es \<noteq> [] \<Longrightarrow> w_last_index w = le_index (last es)"
    using f(5,6) rep by (auto simp: es wal_rep_def)
  show "WAL_Flush w = (Ok (), w)"
    using rep f(2) by (simp add: WAL_Flush_def onOs_def os_simps wal_rep_def)
qed

lemma truncate_suffix_below:
  assumes "wal_holds c w es" and "0 < i"
  shows "\<exists>w'. WAL_TruncateSuffix i w = (Ok (), w') \<and> wal_holds c w' (log_below es i) \<and>
    w_last_index w' = (if es \<noteq> [] \<and> i \<le> w_last_index w then i - 1 else w_last_index w) \<and>
    w_start w' \<le> max (w_start w) i"
proof -
  have "(if i \<le> w_last_index w then filter (\<lambda>e. le_index e < i) es else es) = log_below es i"
  proof (cases "i \<le> w_last_index w")
    case False
    have "le_index e < i" if "e \<in> set es" for e
    proof -
      have "w_last_index w = le_index (last es)" using wal_holds_facts(3) [OF assms(1)] that by force
      then show ?thesis using last_index_max [OF wal_holds_facts(1) [OF assms(1)] that] False by simp
    qed
    then show ?thesis using False by (simp add: log_below_def filter_id_conv)
  qed (simp add: log_below_def)
  then show ?thesis using WAL_TruncateSuffix_spec [OF assms] by simp
qed

lemma start_below_log:
  assumes "wal_holds c w es" and "es \<noteq> []"
  shows "w_start w \<le> le_index (hd es)"
proof -
  obtain lay where rep: "wal_rep c w lay" and es: "entries lay = es"
    using assms(1) by (auto simp: wal_holds_def)
  have lay: "layout_ok (w_dir w) lay" using wal_rep_facts(3) [OF rep] .
  obtain sg fs L where L: "lay = (sg, fs) # L"
    using layout_okD(1) [OF lay] by (metis list.exhaust surj_pair)
  have "fs \<noteq> []" using assms(2) es layout_okD(3) [OF lay]
    by (cases L) (auto simp: L linked_def)
  then show ?thesis using rep layout_okD(2) [OF lay] by (auto simp: L wal_rep_def seg_ok_def simp flip: es)
qed

interpretation wal_store: log_store "wal_ops c" "wal_holds c" w_start for c
proof unfold_locales
  fix w es e i n
  assume h: "wal_holds c w es"
  show "contiguous es" by (rule wal_holds_facts(1) [OF h])
  show "e \<in> set es \<Longrightarrow> entry_ok e" using wal_holds_facts(2) [OF h] by blast
  show "es \<noteq> [] \<Longrightarrow> w_start w \<le> le_index (hd es)" using start_below_log [OF h] by simp
  show "es \<noteq> [] \<Longrightarrow> lo_LastIndex (wal_ops c) w = le_index (last es)" using wal_holds_facts(3) [OF h] by simp
  show "entry_ok e \<Longrightarrow> follows (w_start w) es (le_index e) \<Longrightarrow>
      \<exists>w'. lo_Append (wal_ops c) e w = (Ok (), w') \<and> wal_holds c w' (es @ [e]) \<and>
        lo_LastIndex (wal_ops c) w' = le_index e \<and> w_start w' = w_start w"
    using WAL_Append_spec [OF h] by simp
  show "es \<noteq> [] \<Longrightarrow> le_index e \<noteq> Suc (le_index (last es)) \<Longrightarrow>
      lo_Append (wal_ops c) e w = (Err IndexNotContiguous, w)"
    using WAL_Append_gap [OF h] by simp
  show "lo_Flush (wal_ops c) w = (Ok (), w)" using wal_holds_facts(4) [OF h] by simp
  show "lo_Read (wal_ops c) i w =
      (case log_read es i of None \<Rightarrow> (Err (IndexNotFound i), w) | Some e \<Rightarrow> (Ok e, w))"
    using WAL_Read_spec [OF h] by simp
  show "lo_ReadFrom (wal_ops c) i n w =
      (if n = 0 \<or> es = [] \<or> i > le_index (last es) then (Ok [], w)
       else if i < le_index (hd es) then (Err (IndexNotFound i), w)
       else (Ok (take n (log_from es i)), w))"
    using WAL_ReadFrom_spec [OF h] by simp
  show "lo_TermAt (wal_ops c) i w =
      (if i = 0 then (Ok 0, w) else
       case log_read es i of None \<Rightarrow> (Err (IndexNotFound i), w) | Some e \<Rightarrow> (Ok (le_term e), w))"
    using WAL_TermAt_spec [OF h] by simp
  show "0 < i \<Longrightarrow>
      \<exists>w'. lo_TruncateSuffix (wal_ops c) i w = (Ok (), w') \<and> wal_holds c w' (log_below es i) \<and>
        lo_LastIndex (wal_ops c) w' =
          (if es \<noteq> [] \<and> i \<le> lo_LastIndex (wal_ops c) w then i - 1 else lo_LastIndex (wal_ops c) w) \<and>
        w_start w' \<le> max (w_start w) i"
    unfolding wal_ops_simps by (rule truncate_suffix_below [OF h])
  show "i < 2 ^ 64 \<Longrightarrow>
      \<exists>w' k. lo_TruncateBefore (wal_ops c) i w = (Ok (), w') \<and> wal_holds c w' (drop k es) \<and>
        (\<forall>e \<in> set (take k es). le_index e < i) \<and>
        lo_LastIndex (wal_ops c) w' = (if drop k es = [] then 0 else lo_LastIndex (wal_ops c) w) \<and>
        (drop k es = [] \<longrightarrow> w_start w' \<le> Max {w_start w, i, Suc (lo_LastIndex (wal_ops c) w)})"
    unfolding wal_ops_simps by (rule WAL_TruncateBefore_spec [OF h])
qed

section \<open>A fresh log\<close>

lemma WAL_Open_fresh:
  assumes c: "codec_ok c" and q: "quiet s" and d: "dmap (os_files s)" and none: "list_segments s dir = []"
    and st: "0 < st" "st < 2 ^ 64" and sz: "0 < sz"
  shows "\<exists>w. WAL_Open c dir st sz s = (Ok w, w_os w) \<and> wal_holds c w [] \<and> w_start w = st \<and>
    w_last_index w = 0 \<and> w_dir w = dir"
proof -
  define seg where "seg = \<lparr>seg_start_index = st, seg_last_index = st - 1, seg_size_bytes = 0,
    seg_path = path_join dir (SegmentFileName st)\<rparr>"
  define w1 where "w1 = (WAL_new dir st sz s)\<lparr>w_os := put_file (seg_path seg) [] s, w_segments := [seg]\<rparr>"
  have "no_strays (put_file (seg_path seg) [] s) dir [(seg, [])]"
    using none unfolding no_strays_def set_dir_files
    by (auto simp: list_segments_def concat_eq_Nil_conv set_dir_files split: sum.splits)
  then have "files_rep c dir (put_file (seg_path seg) [] s) [(seg, [])]"
    using c q d layout_ok_fresh [OF st seg_def] by (simp add: files_rep_def seg_def)
  then have b: "wal_base c w1 [(seg, [])]" by (simp add: wal_base_def w1_def WAL_new_def)
  define w2 where "w2 = w1\<lparr>w_fd := Some (seg_path seg, seg_size_bytes seg)\<rparr>"
  have op: "WAL_OpenActiveSegmentForAppend w1 = (Ok (), w2)"
    using OpenActive_base [OF b] by (simp add: w2_def)
  have "wal_rep c w2 [(seg, [])]"
    using b by (simp add: wal_rep_def wal_base_def w2_def w1_def WAL_new_def seg_def)
  then have "wal_holds c w2 []" by (auto simp: wal_holds_def)
  moreover have "WAL_Open c dir st sz s = (Ok w2, w_os w2)"
    using CreateFreshSegment_quiet [of "WAL_new dir st sz s" st] q st sz none op
    by (simp add: WAL_Open_def andThen_def onOs_def os_simps WAL_LoadExistingSegments_def
        WAL_new_def w1_def seg_def)
  ultimately show ?thesis by (auto simp: w2_def w1_def WAL_new_def)
qed

section \<open>Sample logs\<close>

lemma wal_build:
  assumes "codec_ok c" and "map le_index es = [1..<1 + length es]" and "\<forall>e \<in> set es. entry_ok e"
  shows "\<exists>w. wal_holds c w es \<and> w_start w = 1 \<and> w_last_index w = length es"
  using assms(2,3)
proof (induction es rule: rev_induct)
  case Nil
  have "list_segments \<lparr>os_files = [], os_io = []\<rparr> ''wal'' = []"
    by (simp add: list_segments_def dir_files_def)
  then show ?case
    using WAL_Open_fresh [OF assms(1), of "\<lparr>os_files = [], os_io = []\<rparr>" "''wal''" 1 1] by auto
next
  case (snoc e es)
  have ix: "map le_index es = [1..<1 + length es]" "le_index e = 1 + length es"
    using snoc.prems(1) by auto
  obtain w where w: "wal_holds c w es" "w_start w = 1" "w_last_index w = length es"
    using snoc.IH ix(1) snoc.prems(2) by auto
  have "es \<noteq> [] \<Longrightarrow> le_index (last es) = length es"
    using wal_holds_facts(3) [OF w(1)] w(3) by simp
  then have "follows (w_start w) es (le_index e)" using w(2) ix(2) by (simp add: follows_def)
  from WAL_Append_spec [OF w(1) _ this] snoc.prems(2) obtain w' where
    w': "wal_holds c w' (es @ [e])" "w_last_index w' = le_index e" "w_start w' = w_start w" "WAL_Append c e w = (Ok (), w')"
    by auto
  then show ?case using w(2) ix(2) by auto
qed

definition sample_entry :: "nat \<Rightarrow> nat \<Rightarrow> LogEntry" where
  "sample_entry i t = \<lparr>le_index = i, le_term = t, le_type = kNormal, le_cmd_type = kUpsert, le_payload = ''x''\<rparr>"

lemma sample_entry_simps [simp]: "le_index (sample_entry i t) = i" "le_term (sample_entry i t) = t"
  by (simp_all add: sample_entry_def)

lemma sample_entry_ok: "0 < i \<Longrightarrow> i < 2 ^ 64 \<Longrightarrow> t < 2 ^ 64 \<Longrightarrow> entry_ok (sample_entry i t)"
  by (simp add: sample_entry_def entry_ok_def)

lemma sample_log:
  "\<exists>w. wal_holds sample_codec w [sample_entry 1 1, sample_entry 2 1, sample_entry 3 2] \<and> w_start w = 1 \<and>
     w_last_index w = 3"
  using wal_build [OF sample_codec_ok, of "[sample_entry 1 1, sample_entry 2 1, sample_entry 3 2]"]
  by (simp add: sample_entry_ok upt_rec flip: numeral_3_eq_3)

section \<open>Properties of the storage engine\<close>

text \<open>
  C9: appending the next entry to a log succeeds, and afterwards the log reads as the old one
  with the entry at its end: the new index reads back the entry, and every other index reads
  as it did before (a missing one is still missing). Segments may have been rotated.
\<close>

theorem wal_append_read:
  assumes "wal_holds c w es" and "entry_ok e" and "follows (w_start w) es (le_index e)"
  shows "\<exists>w'. WAL_Append c e w = (Ok (), w') \<and> wal_holds c w' (es @ [e]) \<and>
    WAL_Read c (le_index e) w' = (Ok e, w') \<and>
    (\<forall>i. i \<noteq> le_index e \<longrightarrow> fst (WAL_Read c i w') = fst (WAL_Read c i w)) \<and>
    WAL_LastIndex w' = le_index e"
proof -
  obtain w' where w': "WAL_Append c e w = (Ok (), w')" "wal_holds c w' (es @ [e])" "w_last_index w' = le_index e"
    using WAL_Append_spec [OF assms] by blast
  have fresh: "log_read es (le_index e) = None"
  proof -
    have "le_index x < le_index e" if "x \<in> set es" for x
      using assms(3) that last_index_max [OF wal_holds_facts(1) [OF assms(1)] that]
      by (auto simp: follows_def split: if_splits)
    then show ?thesis by (fastforce simp: log_read_None)
  qed
  have app: "log_read (es @ [e]) i = (if i = le_index e then Some e else log_read es i)" for i
    using fresh by (auto simp: log_read_append split: option.splits)
  show ?thesis
    using w' WAL_Read_spec [OF w'(2)] WAL_Read_spec [OF assms(1)] app
    by (auto simp: WAL_LastIndex_def split: option.splits)
qed

theorem wal_append_read_witness:
  "\<exists>w w'. wal_holds sample_codec w [sample_entry 1 1, sample_entry 2 1, sample_entry 3 2] \<and>
     WAL_Append sample_codec (sample_entry 4 2) w = (Ok (), w') \<and>
     WAL_Read sample_codec 4 w' = (Ok (sample_entry 4 2), w')"
proof -
  obtain w where "wal_holds sample_codec w [sample_entry 1 1, sample_entry 2 1, sample_entry 3 2]"
    using sample_log by blast
  with wal_append_read [OF this sample_entry_ok, of 4 2] show ?thesis by (auto simp: follows_def)
qed

text \<open>
  C15: an entry whose index does not follow the last one is refused with an error, and neither
  the log nor its files change.
\<close>

theorem wal_append_rejects_gap:
  assumes "wal_holds c w es" and "es \<noteq> []" and "le_index e \<noteq> Suc (le_index (last es))"
  shows "WAL_Append c e w = (Err IndexNotContiguous, w)"
  using assms by (rule WAL_Append_gap)

theorem wal_append_rejects_gap_witness:
  "\<exists>w. wal_holds sample_codec w [sample_entry 1 1, sample_entry 2 1, sample_entry 3 2] \<and>
     WAL_Append sample_codec (sample_entry 5 2) w = (Err IndexNotContiguous, w)"
proof -
  obtain w where w: "wal_holds sample_codec w [sample_entry 1 1, sample_entry 2 1, sample_entry 3 2]"
    using sample_log by blast
  with wal_append_rejects_gap [OF w, of "sample_entry 5 2"] show ?thesis by auto
qed

text \<open>
  C12: cutting a log at an index succeeds and keeps exactly the entries below it; whatever the
  next append writes at the index is what is read there (conflicting entries are overwritten).
\<close>

theorem wal_truncate_suffix_overwrites:
  assumes "wal_holds c w es" and "0 < i" and "i \<le> w_last_index w" and "es \<noteq> []"
    and "le_index (hd es) \<le> i" and "entry_ok e" and "le_index e = i"
  shows "\<exists>w1 w2. WAL_TruncateSuffix i w = (Ok (), w1) \<and> wal_holds c w1 (log_below es i) \<and>
    WAL_LastIndex w1 = i - 1 \<and> WAL_Append c e w1 = (Ok (), w2) \<and>
    wal_holds c w2 (log_below es i @ [e])"
proof -
  obtain w1 where w1: "WAL_TruncateSuffix i w = (Ok (), w1)" "wal_holds c w1 (log_below es i)"
    "w_last_index w1 = i - 1" "w_start w1 \<le> max (w_start w) i"
    using truncate_suffix_below [OF assms(1,2)] assms(3,4) by auto
  have "w_start w \<le> le_index (hd es)" by (rule start_below_log [OF assms(1,4)])
  moreover have "le_index (last (log_below es i)) = i - 1" if "log_below es i \<noteq> []"
    using wal_holds_facts(3) [OF w1(2) that] w1(3) by simp
  ultimately have "follows (w_start w1) (log_below es i) (le_index e)"
    using w1(4) assms(2,5,7) by (auto simp: follows_def)
  from WAL_Append_spec [OF w1(2) assms(6) this] w1 show ?thesis by (auto simp: WAL_LastIndex_def)
qed

theorem wal_truncate_suffix_overwrites_witness:
  "\<exists>w w1 w2. wal_holds sample_codec w [sample_entry 1 1, sample_entry 2 1, sample_entry 3 2] \<and>
     WAL_TruncateSuffix 2 w = (Ok (), w1) \<and> wal_holds sample_codec w1 [sample_entry 1 1] \<and>
     WAL_Append sample_codec (sample_entry 2 7) w1 = (Ok (), w2) \<and>
     wal_holds sample_codec w2 [sample_entry 1 1, sample_entry 2 7]"
proof -
  obtain w where w: "wal_holds sample_codec w [sample_entry 1 1, sample_entry 2 1, sample_entry 3 2]"
      "w_last_index w = 3"
    using sample_log by blast
  with wal_truncate_suffix_overwrites [OF w(1), of 2 "sample_entry 2 7"] show ?thesis
    by (auto simp: sample_entry_ok log_below_def)
qed

text \<open>
  C13: dropping old segments after a snapshot never loses an entry at or above the index: only
  a prefix of the log goes, and every entry of that prefix is below the index.
\<close>

theorem wal_truncate_before_keeps:
  assumes "wal_holds c w es" and "i < 2 ^ 64"
  shows "\<exists>w' k. WAL_TruncateBefore i w = (Ok (), w') \<and> wal_holds c w' (drop k es) \<and>
    (\<forall>e \<in> set (take k es). le_index e < i) \<and>
    (\<forall>j \<ge> i. fst (WAL_Read c j w') = fst (WAL_Read c j w))"
proof -
  obtain w' k where w': "WAL_TruncateBefore i w = (Ok (), w')" "wal_holds c w' (drop k es)"
    "\<forall>e \<in> set (take k es). le_index e < i"
    using WAL_TruncateBefore_spec [OF assms] by blast
  have "log_read es j = log_read (drop k es) j" if "j \<ge> i" for j
  proof -
    have "log_read (take k es) j = None" using w'(3) that by (fastforce simp: log_read_None)
    then show ?thesis using log_read_append [of "take k es" "drop k es" j] by simp
  qed
  then show ?thesis
    using w' WAL_Read_spec [OF w'(2)] WAL_Read_spec [OF assms(1)] by (fastforce split: option.splits)
qed

theorem wal_truncate_before_keeps_witness:
  "\<exists>w w' k. wal_holds sample_codec w [sample_entry 1 1, sample_entry 2 1, sample_entry 3 2] \<and>
     WAL_TruncateBefore 3 w = (Ok (), w') \<and>
     wal_holds sample_codec w' (drop k [sample_entry 1 1, sample_entry 2 1, sample_entry 3 2]) \<and>
     fst (WAL_Read sample_codec 3 w') = fst (WAL_Read sample_codec 3 w)"
proof -
  obtain w where w: "wal_holds sample_codec w [sample_entry 1 1, sample_entry 2 1, sample_entry 3 2]"
    using sample_log by blast
  with wal_truncate_before_keeps [OF w, of 3] show ?thesis by auto
qed

text \<open>
  C14: a batch read from an index inside the log returns the entries from that index on, in
  order, at most \<open>n\<close> of them, and changes nothing.
\<close>

theorem wal_read_from_batch:
  assumes "wal_holds c w es" and "es \<noteq> []" and "le_index (hd es) \<le> i"
  shows "WAL_ReadFrom c i n w = (Ok (take n (drop (i - le_index (hd es)) es)), w)"
proof -
  note ct = wal_holds_facts(1) [OF assms(1)]
  let ?k = "i - le_index (hd es)"
  have "filter (\<lambda>e. i \<le> le_index e) es = drop ?k es"
  proof -
    have "\<forall>e \<in> set (take ?k es). \<not> i \<le> le_index e"
      using contiguous_nth [OF ct] assms(3) by (auto simp: in_set_conv_nth)
    moreover have "\<forall>e \<in> set (drop ?k es). i \<le> le_index e"
      using contiguous_nth [OF ct] assms(3) by (auto simp: in_set_conv_nth)
    ultimately have "filter (\<lambda>e. i \<le> le_index e) (take ?k es @ drop ?k es) = drop ?k es"
      by (simp only: filter_append filter_id_conv [THEN iffD2] filter_empty_conv [THEN iffD2] append_Nil)
    then show ?thesis by simp
  qed
  then show ?thesis
    using WAL_ReadFrom_spec [OF assms(1), of i n] contiguous_last [OF ct assms(2)] assms(2,3)
    by (auto simp: log_from_def)
qed

theorem wal_read_from_batch_witness:
  "\<exists>w. wal_holds sample_codec w [sample_entry 1 1, sample_entry 2 1, sample_entry 3 2] \<and>
     WAL_ReadFrom sample_codec 2 10 w = (Ok [sample_entry 2 1, sample_entry 3 2], w)"
proof -
  obtain w where w: "wal_holds sample_codec w [sample_entry 1 1, sample_entry 2 1, sample_entry 3 2]"
    using sample_log by blast
  with wal_read_from_batch [OF w, of 2 10] show ?thesis by auto
qed

text \<open>
  C11: reopening the files of a log rebuilds the same log, in whatever order the directory
  lists the segment files.
\<close>

theorem wal_reopen_recovers:
  assumes "wal_holds c w es" and "0 < segment_size"
  shows "\<exists>w'. WAL_Open c (w_dir w) st segment_size (w_os w) = (Ok w', w_os w') \<and> wal_holds c w' es"
proof -
  obtain lay where "crashed c (w_dir w) (w_os w) lay []" "entries lay = es"
    using wal_holds_crashed [OF assms(1), of "[]"] by auto
  then show ?thesis using WAL_Open_spec assms(2) by blast
qed

theorem wal_reopen_recovers_witness:
  "\<exists>w w'. wal_holds sample_codec w [sample_entry 1 1, sample_entry 2 1, sample_entry 3 2] \<and>
     WAL_Open sample_codec (w_dir w) 1 4096 (w_os w) = (Ok w', w_os w') \<and>
     wal_holds sample_codec w' [sample_entry 1 1, sample_entry 2 1, sample_entry 3 2]"
proof -
  obtain w where w: "wal_holds sample_codec w [sample_entry 1 1, sample_entry 2 1, sample_entry 3 2]"
    using sample_log by blast
  with wal_reopen_recovers [OF w, of 4096 1] show ?thesis by auto
qed

text \<open>
  C10: a crash in the middle of an append leaves a proper prefix of the record at the end of
  the active segment; opening the log cuts exactly that prefix off and recovers every entry
  appended before.
\<close>

theorem wal_torn_append_recovers:
  assumes "wal_holds c w es" and "entry_ok e" and "0 < k" and "k < length (encode_record c e)" and "0 < segment_size"
    and "p = seg_path (last (w_segments w))"
    and "s = put_file p (content (w_os w) p @ take k (encode_record c e)) (w_os w)"
  shows "\<exists>w'. WAL_Open c (w_dir w) st segment_size s = (Ok w', w_os w') \<and> wal_holds c w' es"
proof -
  have "torn c (take k (encode_record c e))" using assms(2,4) by (auto simp: torn_def)
  moreover have "take k (encode_record c e) \<noteq> []" using assms(3) by simp
  ultimately obtain lay where "crashed c (w_dir w) s lay (take k (encode_record c e))" "entries lay = es"
    using wal_holds_crashed [OF assms(1) _ assms(6), of "take k (encode_record c e)"] assms(7) by auto
  then show ?thesis using WAL_Open_spec assms(5) by blast
qed

theorem wal_torn_append_recovers_witness:
  "\<exists>w w' s. wal_holds sample_codec w [sample_entry 1 1, sample_entry 2 1, sample_entry 3 2] \<and>
     s = put_file (seg_path (last (w_segments w))) (content (w_os w) (seg_path (last (w_segments w))) @
       take 5 (encode_record sample_codec (sample_entry 4 2))) (w_os w) \<and>
     WAL_Open sample_codec (w_dir w) 1 4096 s = (Ok w', w_os w') \<and>
     wal_holds sample_codec w' [sample_entry 1 1, sample_entry 2 1, sample_entry 3 2]"
proof -
  obtain w where w: "wal_holds sample_codec w [sample_entry 1 1, sample_entry 2 1, sample_entry 3 2]"
    using sample_log by blast
  have "5 < length (encode_record sample_codec (sample_entry 4 2))"
    by (simp add: encode_record_def kRecordHeaderSize_def)
  with w wal_torn_append_recovers [OF w, of "sample_entry 4 2" 5 4096 _ _ 1] show ?thesis
    by (auto simp: sample_entry_ok)
qed

end
