(* ===== verification/RaftLog.thy ===== *)
theory RaftLog
  imports RaftBallot LogMerge WalStore
begin

text \<open>
  The log of a node under the messages of a leader. The lemmas are proved once against the
  contract of the log (\<open>log_store\<close>) and reach the node with its write-ahead log through the
  interpretation \<open>wal_store\<close>.
\<close>

section \<open>The log of a node\<close>

text \<open>
  The entries of the log, with the snapshot, reach back to the beginning: \<open>es\<close> starts at most one
  after the index \<open>si\<close> the snapshot covers, and ends there or later.
\<close>

definition spans :: "nat \<Rightarrow> LogEntry list \<Rightarrow> bool" where
  "spans si es \<longleftrightarrow> es \<noteq> [] \<longrightarrow> le_index (hd es) \<le> Suc si \<and> si \<le> le_index (last es)"

definition log_last :: "nat \<Rightarrow> LogEntry list \<Rightarrow> nat" where
  "log_last si es = (if es = [] then si else le_index (last es))"

text \<open>The entry before the batch is in the log with the term the leader has there.\<close>

definition has_prev :: "nat \<Rightarrow> nat \<Rightarrow> LogEntry list \<Rightarrow> nat \<Rightarrow> nat \<Rightarrow> bool" where
  "has_prev si st es p t \<longleftrightarrow> si \<le> p \<and> p \<le> log_last si es \<and>
     (p = 0 \<or> (if 0 < si \<and> p = si \<and> st \<noteq> 0 then t = st
                else \<exists>e. log_read es p = Some e \<and> le_term e = t))"

text \<open>The part of a node that replication reads and writes.\<close>

definition log_core :: "('w, 'e) node \<Rightarrow> 'w \<times> nat \<times> nat \<times> nat \<times> nat" where
  "log_core n = (rn_wal n, rn_last_snapshot_index n, rn_last_snapshot_term n, rn_commit_index n, rn_applied_index n)"

lemma log_core_fields:
  assumes "log_core n' = log_core n"
  shows "rn_wal n' = rn_wal n" "rn_last_snapshot_index n' = rn_last_snapshot_index n"
    "rn_last_snapshot_term n' = rn_last_snapshot_term n" "rn_commit_index n' = rn_commit_index n"
    "rn_applied_index n' = rn_applied_index n"
  using assms by (simp_all add: log_core_def)

lemma log_core_Note [simp]: "log_core (NoteLeaderContactLocked n) = log_core n"
  by (simp add: NoteLeaderContactLocked_def ResetElectionDeadlineLocked_def log_core_def split: prod.splits)

lemma log_core_accept_leader: "accept_leader S t l n = (r, n') \<Longrightarrow> log_core n' = log_core n"
  by (auto simp: accept_leader_def BecomeFollower_def andThen_def PersistMetaLocked_def onDisk_def onTopology_def
      Let_def split: if_splits sum.splits prod.splits) (auto simp: log_core_def NoteLeaderContactLocked_def
      ResetElectionDeadlineLocked_def split: prod.splits)

lemma log_core_accept_topology: "accept_topology i n = (r, n') \<Longrightarrow> log_core n' = log_core n"
  by (auto simp: accept_topology_def log_core_def split: if_splits prod.splits)

lemma merge_hd:
  assumes "reaches es p" and "succeeds p new" and "if es = [] then p \<le> si else le_index (hd es) \<le> Suc si"
    and "merge es new \<noteq> []"
  shows "le_index (hd (merge es new)) \<le> Suc si"
  using assms
proof (induction es new arbitrary: p rule: merge.induct)
  case (2 es e new)
  then have e: "le_index e = Suc p" "succeeds (Suc p) new" by (simp_all add: succeeds_Cons)
  show ?case
  proof (cases "log_read es (Suc p)")
    case None
    have "reaches (es @ [e]) (Suc p)" using reaches_append 2(4) e(1) None by blast
    then show ?thesis using 2(1) [of "Suc p"] None e 2(6,7) by (auto simp: hd_append split: if_splits)
  next
    case (Some x)
    show ?thesis
    proof (cases "le_term x = le_term e")
      case True
      have "reaches es (Suc p)" by (rule reaches_same [OF 2(4) Some])
      then show ?thesis using 2(2) [of x "Suc p"] Some True e 2(6,7) by (auto split: if_splits)
    next
      case False
      have r: "reaches (log_below es (Suc p) @ [e]) (Suc p)"
        and h: "log_below es (Suc p) \<noteq> [] \<longrightarrow> hd (log_below es (Suc p)) = hd es"
        using reaches_replace 2(4) Some e(1) by blast+
      have ne: "es \<noteq> []" using Some by auto
      have "le_index (hd (log_below es (Suc p) @ [e])) \<le> Suc si"
      proof (cases "log_below es (Suc p) = []")
        case True
        then have "\<not> le_index (hd es) < Suc p" using ne by (cases es) (auto simp: log_below_def split: if_splits)
        then show ?thesis using True e 2(6) ne by simp
      qed (use h 2(6) ne in \<open>simp add: hd_append\<close>)
      then show ?thesis using 2(3) [of x "Suc p"] r Some False e 2(7) by simp
    qed
  qed
qed simp

lemma spans_reaches:
  assumes "contiguous es" and "spans si es" and "si \<le> p" and "p \<le> log_last si es"
  shows "reaches es p"
  using assms by (auto simp: reaches_def spans_def log_last_def split: if_splits)

lemma spans_merge:
  assumes c: "contiguous es" and s: "spans si es" and p: "si \<le> p" "p \<le> log_last si es" and n: "succeeds p new"
  shows "spans si (merge es new)"
proof -
  note r = spans_reaches [OF c s p]
  have "si \<le> le_index (last (merge es new))" if "merge es new \<noteq> []"
    using merge_reaches [OF r n] that p by (auto simp: reaches_def)
  moreover have "le_index (hd (merge es new)) \<le> Suc si" if "merge es new \<noteq> []"
    by (rule merge_hd [OF r n _ that]) (use s p in \<open>auto simp: spans_def log_last_def\<close>)
  ultimately show ?thesis by (simp add: spans_def)
qed

lemma from_drop:
  assumes "contiguous es" and "es \<noteq> []"
  shows "log_from es i = drop (i - le_index (hd es)) es"
proof -
  have n: "le_index (es ! k) = le_index (hd es) + k" if "k < length es" for k
    by (rule contiguous_nth [OF assms(1) that])
  have "\<forall>e \<in> set (drop (i - le_index (hd es)) es). i \<le> le_index e"
    using n by (auto simp: in_set_conv_nth)
  moreover have "\<forall>e \<in> set (take (i - le_index (hd es)) es). \<not> i \<le> le_index e"
    using n by (auto simp: in_set_conv_nth)
  ultimately show ?thesis
    unfolding log_from_def
    by (metis (no_types, lifting) append_Nil append_take_drop_id filter_False filter_True filter_append)
qed

lemma from_to_proto [simp]: "from_proto (to_proto e) = e"
  by (simp add: from_proto_def to_proto_def)

section \<open>Storing a batch\<close>

definition covers :: "('w \<Rightarrow> LogEntry list \<Rightarrow> bool) \<Rightarrow> ('w \<Rightarrow> nat) \<Rightarrow> 'w log_ops \<Rightarrow> ('w, 'e) node \<Rightarrow> LogEntry list \<Rightarrow> bool" where
  "covers holds start ops n es \<longleftrightarrow> holds (rn_wal n) es \<and> spans (rn_last_snapshot_index n) es \<and>
     (es = [] \<longrightarrow> start (rn_wal n) \<le> Suc (rn_last_snapshot_index n) \<and>
        lo_LastIndex ops (rn_wal n) \<le> rn_last_snapshot_index n)"

context log_store
begin

lemma append_entries_merge:
  assumes "holds w es" and "start w \<le> Suc p" and "reaches es p" and "succeeds p new" and "\<forall>e \<in> set new. entry_ok e"
    and "si \<le> p"
  shows "\<exists>w' b. append_entries ops si new a w = (Ok b, w') \<and> holds w' (merge es new) \<and> (new = [] \<longrightarrow> w' = w)"
  using assms
proof (induction new arbitrary: p es w a)
  case (Cons e new)
  then have e: "le_index e = Suc p" "succeeds (Suc p) new" "entry_ok e" "\<forall>e \<in> set new. entry_ok e" "si \<le> Suc p"
    by (simp_all add: succeeds_Cons)
  have skip: "\<not> (si > 0 \<and> le_index e \<le> si)" using Cons.prems(6) e(1) by simp
  note rd = read [OF Cons.prems(1), of "le_index e"]
  show ?case
  proof (cases "log_read es (Suc p)")
    case None
    note r = reaches_append [OF Cons.prems(3) None e(1)]
    have "follows (start w) es (le_index e)" using r e(1) Cons.prems(2) by (simp add: follows_def)
    from append [OF Cons.prems(1) e(3) this] obtain w1 where
      w1: "lo_Append ops e w = (Ok (), w1)" "holds w1 (es @ [e])" "start w1 = start w" by auto
    have "start w1 \<le> Suc (Suc p)" using w1(3) Cons.prems(2) by simp
    from Cons.IH [OF w1(2) this conjunct1 [OF r] e(2,4,5), of True] show ?thesis
      using rd None e(1) skip w1(1) by (auto simp: andThen_def)
  next
    case (Some x)
    show ?thesis
    proof (cases "le_term x = le_term e")
      case True
      have "start w \<le> Suc (Suc p)" using Cons.prems(2) by simp
      from Cons.IH [OF Cons.prems(1) this reaches_same [OF Cons.prems(3) Some] e(2,4,5), of a] show ?thesis
        using rd Some True e(1) skip by auto
    next
      case False
      note r = reaches_replace [OF Cons.prems(3) Some e(1)]
      have "0 < Suc p" by simp
      from truncate_suffix [OF Cons.prems(1) this] obtain w1 where
        w1: "lo_TruncateSuffix ops (Suc p) w = (Ok (), w1)" "holds w1 (log_below es (Suc p))"
          "start w1 \<le> max (start w) (Suc p)" by auto
      then have "follows (start w1) (log_below es (Suc p)) (le_index e)"
        using r e(1) Cons.prems(2) by (simp add: follows_def)
      from append [OF w1(2) e(3) this] obtain w2 where
        w2: "lo_Append ops e w1 = (Ok (), w2)" "holds w2 (log_below es (Suc p) @ [e])" "start w2 = start w1" by auto
      have "start w2 \<le> Suc (Suc p)" using w2(3) w1(3) Cons.prems(2) by simp
      from Cons.IH [OF w2(2) this conjunct1 [OF r] e(2,4,5), of True] show ?thesis
        using rd Some False e(1) skip w1(1) w2(1) by (auto simp: andThen_def)
    qed
  qed
qed (simp add: ret_def)

lemma store_entries_merge:
  assumes "holds w es" and "start w \<le> Suc p" and "reaches es p" and "succeeds p new" and "\<forall>e \<in> set new. entry_ok e"
    and "si \<le> p"
  shows "\<exists>w'. store_entries ops si new w = (Ok (), w') \<and> holds w' (merge es new) \<and> (new = [] \<longrightarrow> w' = w)"
proof -
  obtain w' b where w': "append_entries ops si new False w = (Ok b, w')" "holds w' (merge es new)" "new = [] \<longrightarrow> w' = w"
    using append_entries_merge [OF assms] by blast
  then show ?thesis using flush [OF w'(2)] by (auto simp: store_entries_def andThen_def whenP_def ret_def)
qed

lemma covers_last:
  assumes "sv_log S = ops" and "covers holds start ops n es"
  shows "LogicalLastIndex S n = log_last (rn_last_snapshot_index n) es"
  using assms last_index [of "rn_wal n" es]
  by (auto simp: covers_def LogicalLastIndex_def log_last_def spans_def)

lemma covers_start:
  assumes "covers holds start ops n es"
  shows "start (rn_wal n) \<le> Suc (rn_last_snapshot_index n)"
  using assms start_low [of "rn_wal n" es] by (auto simp: covers_def spans_def)

lemma covers_term_at:
  assumes "sv_log S = ops" and "covers holds start ops n es"
  shows "TermAtLogicalIndex S p n =
    (if p = 0 then (Ok 0, n)
     else if p < rn_last_snapshot_index n then (Err (IndexTruncatedBySnapshot p), n)
     else if 0 < rn_last_snapshot_index n \<and> p = rn_last_snapshot_index n \<and> rn_last_snapshot_term n \<noteq> 0
       then (Ok (rn_last_snapshot_term n), n)
     else (case log_read es p of None \<Rightarrow> Err (IndexNotFound p) | Some e \<Rightarrow> Ok (le_term e), n))"
  using assms term_at [of "rn_wal n" es p]
  by (auto simp: TermAtLogicalIndex_def covers_def onLog_def split: option.splits)

lemma conflict_scan_keeps:
  assumes "sv_log S = ops" and "holds (rn_wal n) es"
  shows "\<exists>i. conflict_scan S si t c n = (i, n)"
proof (induction c)
  case (Suc c)
  have "onLog (lo_Read (sv_log S) c) n = (case log_read es c of None \<Rightarrow> Err (IndexNotFound c) | Some e \<Rightarrow> Ok e, n)"
    using read [OF assms(2), of c] assms(1) by (auto simp: onLog_def split: option.splits)
  then show ?case using Suc by (auto split: option.splits)
qed simp

lemma check_prev_spec:
  assumes "sv_log S = ops" and "covers holds start ops n es"
  shows "\<exists>c. check_prev S q n = (c, n) \<and>
    (c = None \<longleftrightarrow> has_prev (rn_last_snapshot_index n) (rn_last_snapshot_term n) es (ar_prev_log_index q) (ar_prev_log_term q)) \<and>
    (\<forall>a. c = Some a \<longrightarrow> \<not> as_success a)"
proof -
  let ?p = "ar_prev_log_index q" and ?si = "rn_last_snapshot_index n"
  note l = covers_last [OF assms] and t = covers_term_at [OF assms, of ?p]
  have h: "holds (rn_wal n) es" using assms(2) by (simp add: covers_def)
  obtain i where i: "conflict_scan S ?si (case log_read es ?p of Some e \<Rightarrow> le_term e | None \<Rightarrow> 0) ?p n = (i, n)"
    using conflict_scan_keeps [OF assms(1) h] by blast
  consider "?p > log_last ?si es" | "?p < ?si" | "?si \<le> ?p" "?p \<le> log_last ?si es" by linarith
  then show ?thesis
  proof cases
    case 1
    then show ?thesis by (simp add: check_prev_def Let_def l has_prev_def append_reply_def)
  next
    case 2
    then show ?thesis by (auto simp: check_prev_def Let_def l has_prev_def append_reply_def)
  next
    case 3
    then show ?thesis
      using t i by (auto simp: check_prev_def Let_def l has_prev_def append_reply_def split: option.splits)
  qed
qed

lemma covers_core: "log_core n' = log_core n \<Longrightarrow> covers holds start ops n' es \<longleftrightarrow> covers holds start ops n es"
  using log_core_fields [of n' n] by (simp add: covers_def)

lemma store_batch:
  assumes S: "sv_log S = ops" and cov: "covers holds start ops n es"
    and h: "has_prev (rn_last_snapshot_index n) (rn_last_snapshot_term n) es p t"
    and new: "succeeds p new" "\<forall>e \<in> set new. entry_ok e"
  shows "\<exists>w'. onLog (store_entries (sv_log S) (rn_last_snapshot_index n) new) n = (Ok (), n\<lparr>rn_wal := w'\<rparr>) \<and>
    covers holds start ops (n\<lparr>rn_wal := w'\<rparr>) (merge es new)"
proof -
  let ?si = "rn_last_snapshot_index n"
  have hl: "holds (rn_wal n) es" and sp: "spans ?si es" using cov by (simp_all add: covers_def)
  have p: "?si \<le> p" "p \<le> log_last ?si es" using h by (simp_all add: has_prev_def)
  note c = holds_contiguous [OF hl] and st = covers_start [OF cov]
  have "start (rn_wal n) \<le> Suc p" using st p(1) by simp
  from store_entries_merge [OF hl this spans_reaches [OF c sp p] new p(1)] obtain w' where
    w': "store_entries ops ?si new (rn_wal n) = (Ok (), w')" "holds w' (merge es new)" "new = [] \<longrightarrow> w' = rn_wal n"
    by blast
  have "new = []" if "merge es new = []"
    using that merge_has [OF spans_reaches [OF c sp p] new(1)] by (cases new) auto
  then have "covers holds start ops (n\<lparr>rn_wal := w'\<rparr>) (merge es new)"
    using w' cov spans_merge [OF c sp p new(1)] by (auto simp: covers_def)
  then show ?thesis using w'(1) S by (auto simp: onLog_def)
qed

end

section \<open>Answering a batch\<close>

lemma log_core_queue [simp]: "log_core (queue_forward q n) = log_core n"
  by (simp add: queue_forward_def log_core_def)

lemma advance_commit_fields [simp]:
  "rn_wal (advance_commit S i n) = rn_wal n" "rn_last_snapshot_index (advance_commit S i n) = rn_last_snapshot_index n"
  "rn_last_snapshot_term (advance_commit S i n) = rn_last_snapshot_term n"
  "rn_commit_index (advance_commit S i n) = max (rn_commit_index n) (min i (LogicalLastIndex S n))"
  by (auto simp: advance_commit_def Let_def)

lemma queue_forward_fields [simp]:
  "rn_wal (queue_forward q n) = rn_wal n" "rn_last_snapshot_index (queue_forward q n) = rn_last_snapshot_index n"
  "rn_last_snapshot_term (queue_forward q n) = rn_last_snapshot_term n"
  "rn_commit_index (queue_forward q n) = rn_commit_index n"
  by (simp_all add: queue_forward_def)

lemma LogicalLast_fields:
  "rn_wal n' = rn_wal n \<Longrightarrow> rn_last_snapshot_index n' = rn_last_snapshot_index n \<Longrightarrow>
   LogicalLastIndex S n' = LogicalLastIndex S n"
  by (simp add: LogicalLastIndex_def)

definition unchanged :: "('w, 'e) node \<Rightarrow> ('w, 'e) node \<Rightarrow> bool" where
  "unchanged n n' \<longleftrightarrow> rn_wal n' = rn_wal n \<and> rn_commit_index n' = rn_commit_index n"

definition same_snapshot :: "('w, 'e) node \<Rightarrow> ('w, 'e) node \<Rightarrow> bool" where
  "same_snapshot n n' \<longleftrightarrow> rn_last_snapshot_index n' = rn_last_snapshot_index n \<and>
     rn_last_snapshot_term n' = rn_last_snapshot_term n"

text \<open>The batch was taken over: the log is merged and the commit index follows.\<close>

definition stored ::
    "('w \<Rightarrow> LogEntry list \<Rightarrow> bool) \<Rightarrow> ('w \<Rightarrow> nat) \<Rightarrow> ('w, 'e) services \<Rightarrow> AppendEntriesRequest \<Rightarrow>
     LogEntry list \<Rightarrow> ('w, 'e) node \<Rightarrow> ('w, 'e) node \<Rightarrow> bool" where
  "stored holds start S q es n n' \<longleftrightarrow>
     has_prev (rn_last_snapshot_index n) (rn_last_snapshot_term n) es (ar_prev_log_index q) (ar_prev_log_term q) \<and>
     covers holds start (sv_log S) n' (merge es (map from_proto (ar_entries q))) \<and>
     rn_commit_index n' = max (rn_commit_index n) (min (ar_leader_commit q) (LogicalLastIndex S n'))"

definition direct :: "AppendEntriesRequest \<Rightarrow> bool" where
  "direct q \<longleftrightarrow> ar_sender_id q = [] \<or> ar_sender_id q = ar_leader_id q"

context log_store
begin

lemma accepted_batch:
  assumes S: "sv_log S = ops" and cov: "covers holds start ops n es"
    and hp: "has_prev (rn_last_snapshot_index n) (rn_last_snapshot_term n) es (ar_prev_log_index q) (ar_prev_log_term q)"
    and new: "succeeds (ar_prev_log_index q) (map from_proto (ar_entries q))"
      "\<forall>e \<in> set (map from_proto (ar_entries q)). entry_ok e"
    and h: "andThen (onLog (store_entries (sv_log S) (rn_last_snapshot_index n) (map from_proto (ar_entries q)))) (\<lambda>_ n.
        let n = queue_forward q (advance_commit S (ar_leader_commit q) n) in
        (Ok ((append_reply (self_name n) (rn_current_term n) True)\<lparr>as_match_index := LogicalLastIndex S n\<rparr>), n)) n = (r, n')"
  shows "stored holds start S q es n n' \<and> same_snapshot n n' \<and>
    (\<exists>a. r = Ok a \<and> as_success a \<and> as_match_index a = LogicalLastIndex S n')"
proof -
  obtain w' where w': "onLog (store_entries (sv_log S) (rn_last_snapshot_index n) (map from_proto (ar_entries q))) n =
      (Ok (), n\<lparr>rn_wal := w'\<rparr>)"
      "covers holds start ops (n\<lparr>rn_wal := w'\<rparr>) (merge es (map from_proto (ar_entries q)))"
    using store_batch [OF S cov hp new] by blast
  let ?n3 = "queue_forward q (advance_commit S (ar_leader_commit q) (n\<lparr>rn_wal := w'\<rparr>))"
  have n': "n' = ?n3" and r: "r = Ok ((append_reply (self_name n') (rn_current_term n') True)\<lparr>as_match_index := LogicalLastIndex S n'\<rparr>)"
    using h w' by (auto simp: andThen_def Let_def)
  have l: "LogicalLastIndex S (n\<lparr>rn_wal := w'\<rparr>) = LogicalLastIndex S n'"
    by (rule LogicalLast_fields) (simp_all add: n')
  have "covers holds start ops n' (merge es (map from_proto (ar_entries q)))"
    using w'(2) by (simp add: covers_def n')
  then show ?thesis using l hp S r by (auto simp: append_reply_def stored_def same_snapshot_def n')
qed

lemma append_outcome:
  assumes S: "sv_log S = ops" and cov: "covers holds start ops n es"
    and new: "succeeds (ar_prev_log_index q) (map from_proto (ar_entries q))"
      "\<forall>e \<in> set (map from_proto (ar_entries q)). entry_ok e"
    and h: "HandleAppendEntries S q n = (r, n')"
  shows "same_snapshot n n' \<and> (case r of
      Err _ \<Rightarrow> unchanged n n'
    | Ok a \<Rightarrow> if as_success a then stored holds start S q es n n' \<and> as_match_index a = LogicalLastIndex S n'
             else unchanged n n' \<and> (direct q \<and> rn_current_term n \<le> ar_term q \<longrightarrow>
               \<not> has_prev (rn_last_snapshot_index n) (rn_last_snapshot_term n) es (ar_prev_log_index q) (ar_prev_log_term q)))"
proof (cases "ar_term q < rn_current_term n")
  case True
  then show ?thesis using h by (auto simp: HandleAppendEntries_def append_reply_def same_snapshot_def unchanged_def)
next
  case False
  obtain r1 n1 where a: "accept_leader S (ar_term q) (ar_leader_id q) n = (r1, n1)"
    by (cases "accept_leader S (ar_term q) (ar_leader_id q) n")
  obtain r2 n2 where b: "accept_topology (ar_topology q) n1 = (r2, n2)" by (cases "accept_topology (ar_topology q) n1")
  have k1: "log_core n1 = log_core n" by (rule log_core_accept_leader [OF a])
  have k2: "log_core n2 = log_core n" using log_core_accept_topology [OF b] k1 by simp
  note f1 = log_core_fields [OF k1] and f = log_core_fields [OF k2]
  have cov2: "covers holds start ops n2 es" using covers_core [OF k2] cov by simp
  obtain c where c: "check_prev S q n2 = (c, n2)"
      "c = None \<longleftrightarrow> has_prev (rn_last_snapshot_index n) (rn_last_snapshot_term n) es (ar_prev_log_index q) (ar_prev_log_term q)"
      "\<forall>a. c = Some a \<longrightarrow> \<not> as_success a"
    using check_prev_spec [OF S cov2, of q] f by auto
  have refused: ?thesis if "unchanged n n'" "same_snapshot n n'" "\<forall>a. r = Ok a \<longrightarrow> \<not> as_success a \<and> (direct q \<longrightarrow> c \<noteq> None)"
    using that c(2) by (auto split: sum.splits)
  consider "r1 \<noteq> Ok () \<or> r2 \<noteq> Ok ()" | "r1 = Ok ()" "r2 = Ok ()" "\<not> sender_authorized q n2"
    | x where "r1 = Ok ()" "r2 = Ok ()" "sender_authorized q n2" "c = Some x"
    | "r1 = Ok ()" "r2 = Ok ()" "sender_authorized q n2" "c = None" by (cases c) auto
  then show ?thesis
  proof cases
    case 1
    then show ?thesis using h False a b f f1
      by (intro refused) (auto simp: HandleAppendEntries_def andThen_def unchanged_def same_snapshot_def split: sum.splits)
  next
    case 2
    then show ?thesis using h False a b f
      by (intro refused) (auto simp: HandleAppendEntries_def andThen_def unchanged_def same_snapshot_def append_reply_def
          sender_authorized_def direct_def Let_def split: if_splits)
  next
    case 3
    then show ?thesis using h False a b c f
      by (intro refused) (auto simp: HandleAppendEntries_def andThen_def unchanged_def same_snapshot_def)
  next
    case 4
    then have hp: "has_prev (rn_last_snapshot_index n2) (rn_last_snapshot_term n2) es (ar_prev_log_index q) (ar_prev_log_term q)"
      using c(2) f by simp
    have "stored holds start S q es n2 n' \<and> same_snapshot n2 n' \<and> (\<exists>a. r = Ok a \<and> as_success a \<and> as_match_index a = LogicalLastIndex S n')"
      by (rule accepted_batch [OF S cov2 hp new]) (use h False a b c 4 in \<open>simp add: HandleAppendEntries_def andThen_def\<close>)
    then show ?thesis using f by (auto simp: stored_def same_snapshot_def)
  qed
qed

lemma ReadFrom_run:
  assumes cov: "covers holds start ops n ls" and i: "0 < i"
    and r: "onLog (lo_ReadFrom ops i k) n = (Ok es, n')"
  shows "n' = n \<and> run_of ls (i - 1) es \<and> length es \<le> k \<and> (\<forall>e \<in> set es. entry_ok e)"
proof -
  have h: "holds (rn_wal n) ls" using cov by (simp add: covers_def)
  note c = holds_contiguous [OF h] and rf = read_from [OF h, of i k]
  have "onLog (lo_ReadFrom ops i k) n = (if k = 0 \<or> ls = [] \<or> i > le_index (last ls) then (Ok [], n)
       else if i < le_index (hd ls) then (Err (IndexNotFound i), n) else (Ok (take k (log_from ls i)), n))"
    by (simp add: onLog_def rf)
  then consider "es = []" "n' = n" | "n' = n" "ls \<noteq> []" "le_index (hd ls) \<le> i" "es = take k (log_from ls i)"
    unfolding r by (metis (no_types, lifting) Inl_Inr_False Inr_inject linorder_not_less prod.inject)
  then show ?thesis
  proof cases
    case 2
    have "log_from ls i = drop (i - le_index (hd ls)) ls" by (rule from_drop [OF c 2(2)])
    then have es: "es = take k (drop (i - le_index (hd ls)) ls)" using 2(4) by simp
    then have sub: "set es \<subseteq> set ls" by (meson in_set_dropD in_set_takeD subsetI)
    have "succeeds (i - 1) es" unfolding succeeds_def
    proof (rule nth_equalityI)
      fix j assume j: "j < length (map le_index es)"
      then have "le_index (es ! j) = le_index (hd ls) + (i - le_index (hd ls) + j)"
        using contiguous_nth [OF c, of "i - le_index (hd ls) + j"] by (auto simp: es)
      then show "map le_index es ! j = [Suc (i - 1)..<Suc (i - 1) + length es] ! j"
        using 2(3) i j by (simp del: upt_Suc)
    qed (simp del: upt_Suc)
    moreover have "\<forall>e \<in> set es. log_read ls (le_index e) = Some e \<and> entry_ok e"
      using sub log_read_mem [OF c] holds_entry_ok [OF h] by blast
    ultimately show ?thesis using 2(1) es by (simp add: run_of_def)
  qed (simp add: run_of_def succeeds_def)
qed

lemma term_has_prev:
  assumes S: "sv_log S = ops" and cov: "covers holds start ops n ls"
    and t: "TermAtLogicalIndex S p n = (Ok pt, n)" and si: "rn_last_snapshot_index n \<le> p"
  shows "has_prev (rn_last_snapshot_index n) (rn_last_snapshot_term n) ls p pt"
proof -
  let ?si = "rn_last_snapshot_index n"
  have h: "holds (rn_wal n) ls" and sp: "spans ?si ls" using cov by (simp_all add: covers_def)
  have low: "?si \<le> log_last ?si ls" using sp by (simp add: log_last_def spans_def)
  have bound: "p \<le> log_last ?si ls" if "log_read ls p = Some e" for e
    using last_index_max [OF holds_contiguous [OF h] log_read_in [OF that]] log_read_index [OF that] log_read_in [OF that]
    by (auto simp: log_last_def)
  consider "p = 0" | "0 < ?si" "p = ?si" "rn_last_snapshot_term n \<noteq> 0" "pt = rn_last_snapshot_term n"
    | e where "p \<noteq> 0" "log_read ls p = Some e" "pt = le_term e" "\<not> (0 < ?si \<and> p = ?si \<and> rn_last_snapshot_term n \<noteq> 0)"
    using covers_term_at [OF S cov, of p] t si by (auto split: if_splits option.splits)
  then show ?thesis
  proof cases
    case 3
    then show ?thesis using bound [OF 3(2)] si by (auto simp: has_prev_def)
  qed (use low si in \<open>simp_all add: has_prev_def\<close>)
qed

text \<open>What a leader sends: a run of its log after an entry it has.\<close>

lemma dispatch_run:
  assumes S: "sv_log S = ops" and cov: "covers holds start ops n ls" and i: "0 < pp_next_index (progress_of peer n)"
    and d: "ReplicatePeerOnce_dispatch S peer n = (Ok (Dispatch q), n')"
  shows "run_of ls (ar_prev_log_index q) (map from_proto (ar_entries q)) \<and>
    (\<forall>e \<in> set (map from_proto (ar_entries q)). entry_ok e) \<and>
    has_prev (rn_last_snapshot_index n) (rn_last_snapshot_term n) ls (ar_prev_log_index q) (ar_prev_log_term q) \<and>
    length (ar_entries q) \<le> unat (rc_batch_max_entries (raft_cfg n)) \<and> direct q \<and>
    ar_term q = rn_current_term n \<and> ar_leader_commit q = rn_commit_index n \<and> log_core n' = log_core n"
proof -
  let ?si = "rn_last_snapshot_index n" and ?st = "rn_last_snapshot_term n"
  let ?read = "onLog (lo_ReadFrom ops (pp_next_index (progress_of peer n)) (unat (rc_batch_max_entries (raft_cfg n)))) n"
  obtain pr where pr: "map_of (rn_peer_progress n) peer = Some pr"
    using d by (auto simp: ReplicatePeerOnce_dispatch_def split: if_splits option.splits)
  then have po: "progress_of peer n = pr" by (simp add: progress_of_def)
  have nx: "\<not> (?si > 0 \<and> pp_next_index pr \<le> ?si)"
    using d pr by (auto simp: ReplicatePeerOnce_dispatch_def split: if_splits)
  obtain r1 n1 where rd: "?read = (r1, n1)" by (cases "?read")
  then obtain es where es: "r1 = Ok es"
    using d pr nx po S by (auto simp: ReplicatePeerOnce_dispatch_def andThen_def Let_def split: if_splits sum.splits)
  note run = ReadFrom_run [OF cov i rd [unfolded es]]
  note t = covers_term_at [OF S cov, of "pp_next_index pr - 1"]
  have rd': "onLog (lo_ReadFrom (sv_log S) (pp_next_index pr) (unat (rc_batch_max_entries (raft_cfg n)))) n = (Ok es, n)"
    using rd run unfolding es po S by simp
  obtain x where x: "TermAtLogicalIndex S (pp_next_index pr - 1) n = (x, n)"
    using t by (simp split: if_split_asm)
  have "andThen (TermAtLogicalIndex S (pp_next_index pr - 1)) (\<lambda>pt n.
      let request = append_request peer (rn_self_id n) (pp_next_index pr - 1) pt es n; q = progress_of peer n
      in (Ok (Dispatch request), set_progress peer (q\<lparr>pp_in_flight := pp_in_flight q + 1, pp_last_send_time := rn_now n,
            pp_next_index := pp_next_index q + length es\<rparr>) n)) n = (Ok (Dispatch q), n')"
    using d pr nx rd' unfolding ReplicatePeerOnce_dispatch_def
    by (simp add: andThen_def [of "onLog m" for m] split: if_split_asm)
  then obtain pt where pt: "TermAtLogicalIndex S (pp_next_index pr - 1) n = (Ok pt, n)"
      "q = append_request peer (rn_self_id n) (pp_next_index pr - 1) pt es n" "log_core n' = log_core n"
    using x by (cases x) (auto simp: andThen_def Let_def set_progress_def log_core_def)
  have "?si \<le> pp_next_index pr - 1" using nx by auto
  moreover have "has_prev ?si ?st ls (pp_next_index pr - 1) pt"
    by (rule term_has_prev [OF S cov pt(1) calculation])
  ultimately show ?thesis
    using run pt po by (auto simp: append_request_def comp_def direct_def)
qed

end

end
