(* ===== verification/RaftSnapshot.thy ===== *)
theory RaftSnapshot
  imports RaftReplication RaftApply
begin

text \<open>
  The transfer of snapshots in \<^verbatim>\<open>src/raft/raft_node.cpp\<close>: the leader cuts the two files of its
  latest snapshot into chunks, the receiver writes them to temporary files, commits them and
  reloads its state machine from them.
\<close>

section \<open>Sending\<close>

definition kInstallSnapshotChunkBytes :: nat where
  "kInstallSnapshotChunkBytes = 256 * 1024"

definition make_chunk :: "SnapshotMeta \<Rightarrow> nat \<Rightarrow> string \<Rightarrow> string \<Rightarrow> nat \<Rightarrow> bool \<Rightarrow> SnapshotChunk" where
  "make_chunk m leader_term name data offset is_last = \<lparr>ch_data = data, ch_offset = offset, ch_is_last = is_last,
     ch_raft_term = sm_raft_term m, ch_raft_index = sm_raft_index m, ch_dim = sm_dim m, ch_metric = sm_metric m,
     ch_data_type = sm_data_type m, ch_file_name = name, ch_leader_term = leader_term\<rparr>"

text \<open>
  The chunks the producer yields until it returns false. \<open>files\<close> are the files not yet finished
  and \<open>pos\<close> is the read position in the first of them; a failing read ends the stream with an
  error. After the terminal chunk no file is left.
\<close>

function send_chunks :: "nat \<Rightarrow> (string \<Rightarrow> string \<Rightarrow> nat \<Rightarrow> bool \<Rightarrow> SnapshotChunk) \<Rightarrow> (string \<times> string) list \<Rightarrow> nat \<Rightarrow> (os, SnapshotChunk list) prog" where
  "send_chunks k mk [] pos s = (Ok [], s)"
| "send_chunks k mk ((name, data) # rest) pos s = (case next_io s of
       (IoErr, s) \<Rightarrow> (Err ReadFailed, s)
     | (_, s) \<Rightarrow>
         let piece = take (Suc k) (drop pos data); file_finished = (length data \<le> pos + Suc k) in
         if piece = [] \<and> pos \<noteq> 0 then send_chunks k mk rest 0 s
         else andThen (if file_finished then send_chunks k mk rest 0 else send_chunks k mk ((name, data) # rest) (pos + Suc k))
                (\<lambda>chunks. ret (mk name piece pos (file_finished \<and> rest = []) # chunks)) s)"
  by pat_completeness auto

termination
  by (relation "measures [\<lambda>(k, mk, files, pos, s). length files,
      \<lambda>(k, mk, files, pos, s). (case files of [] \<Rightarrow> 0 | (name, data) # rest \<Rightarrow> length data - pos)]") auto

definition SendSnapshotToPeer_begin :: "('w, 'e, (SnapshotMeta \<times> SnapshotChunk list)) nprog" where
  "SendSnapshotToPeer_begin = (\<lambda>n.
     let st = store_of n; dedup_path = DedupSnapshotPath (cfg_storage (rn_config n)) in
     andThen (onDisk (LoadLatest st (cfg_vector (rn_config n)))) (\<lambda>m.
     andThen (onDisk (sys_open False False (SnapshotPath st))) (\<lambda>_.
     andThen (onDisk (sys_open False False dedup_path)) (\<lambda>_ n.
     andThen (onDisk (send_chunks (kInstallSnapshotChunkBytes - 1) (make_chunk m (rn_current_term n))
       [(''snapshot.usearch'', content (rn_os n) (SnapshotPath st)),
        (''dedup.bin'', content (rn_os n) dedup_path)] 0)) (\<lambda>chunks. ret (m, chunks)) n))) n)"

definition SendSnapshotToPeer_end ::
    "('w, 'e) services \<Rightarrow> string \<Rightarrow> SnapshotMeta \<Rightarrow> InstallSnapshotResponse result \<Rightarrow> ('w, 'e, unit) nprog" where
  "SendSnapshotToPeer_end S peer_id m response = (\<lambda>n. case response of
       Err e \<Rightarrow> (Err e, UpdatePeerFailure peer_id 0 n)
     | Ok r \<Rightarrow>
         if is_term r > rn_current_term n then BecomeFollower S (is_term r) [] n
         else if \<not> is_success r then (Err (RpcFailed ''InstallSnapshot''), n)
         else (Ok (), UpdatePeerAck S peer_id (sm_raft_index m) (rn_now n) n))"

section \<open>Receiving\<close>

text \<open>A stream that stays open: writes are checked, the flush when it is closed is not.\<close>

definition stream_append :: "path \<Rightarrow> string \<Rightarrow> (os, unit) prog" where
  "stream_append p d = sys_call WriteFailed (\<lambda>s. (Ok (), put_file p (content s p @ d) s))"

definition stream_close :: "path \<Rightarrow> os \<Rightarrow> os" where
  "stream_close p s = (case next_io s of
       (IoOk, s) \<Rightarrow> s
     | (IoShort k, s) \<Rightarrow> put_file p (take k (content s p)) s
     | (_, s) \<Rightarrow> put_file p [] s)"

record install =
  in_meta :: "SnapshotMeta option"
  in_leader_term :: nat
  in_saw_snapshot :: bool
  in_saw_dedup :: bool
  in_finished :: bool
  in_file :: string
  in_offset :: nat

definition start_install :: install where
  "start_install = \<lparr>in_meta = None, in_leader_term = 0, in_saw_snapshot = False, in_saw_dedup = False,
     in_finished = False, in_file = [], in_offset = 0\<rparr>"

definition leader_term_of :: "SnapshotChunk \<Rightarrow> nat" where
  "leader_term_of ch = (if ch_leader_term ch = 0 then ch_raft_term ch else ch_leader_term ch)"

definition meta_of :: "string \<Rightarrow> SnapshotChunk \<Rightarrow> SnapshotMeta" where
  "meta_of created_at ch = \<lparr>sm_raft_term = ch_raft_term ch, sm_raft_index = ch_raft_index ch, sm_dim = ch_dim ch,
     sm_metric = ch_metric ch, sm_data_type = ch_data_type ch, sm_created_at = created_at\<rparr>"

text \<open>The first chunk names the snapshot and its sender; \<open>None\<close>: the sender's term is stale.\<close>

definition first_chunk :: "('w, 'e) services \<Rightarrow> SnapshotChunk \<Rightarrow> install \<Rightarrow> ('w, 'e, install option) nprog" where
  "first_chunk S ch st = (\<lambda>n.
     let term = leader_term_of ch in
     if term < rn_current_term n then (Ok None, n)
     else andThen (whenP (term > rn_current_term n \<or> rn_state n \<noteq> StFollower) (BecomeFollower S term [])) (\<lambda>_.
       ret (Some (st\<lparr>in_meta := Some (meta_of (sv_utc S) ch), in_leader_term := term\<rparr>))) n)"

definition check_chunk :: "('w, 'e) services \<Rightarrow> SnapshotChunk \<Rightarrow> install \<Rightarrow> ('w, 'e, install option) nprog" where
  "check_chunk S ch st = (case in_meta st of
       None \<Rightarrow> first_chunk S ch st
     | Some m \<Rightarrow>
         if leader_term_of ch \<noteq> in_leader_term st \<or> meta_of (sm_created_at m) ch \<noteq> m
         then throw (BadArgument ''chunk metadata'')
         else ret (Some st))"

definition chunk_file :: "SnapshotChunk \<Rightarrow> string" where
  "chunk_file ch = (if ch_file_name ch = [] then ''snapshot.usearch'' else ch_file_name ch)"

definition chunk_target :: "StorageConfig \<Rightarrow> string \<Rightarrow> path option" where
  "chunk_target storage name =
     (if name = ''snapshot.usearch'' then Some (TemporarySnapshotPath \<lparr>ss_snapshot_dir = sc_snapshot_dir storage\<rparr>)
      else if name = ''dedup.bin'' then Some (TemporaryDedupSnapshotPath storage)
      else None)"

text \<open>Switching to the file of the chunk: the open one is closed, the new one starts empty.\<close>

definition close_current :: "StorageConfig \<Rightarrow> string \<Rightarrow> os \<Rightarrow> os" where
  "close_current storage name s = (case chunk_target storage name of None \<Rightarrow> s | Some p \<Rightarrow> stream_close p s)"

definition switch_file :: "StorageConfig \<Rightarrow> SnapshotChunk \<Rightarrow> path \<Rightarrow> install \<Rightarrow> (os, install) prog" where
  "switch_file storage ch target st =
     (if in_file st = chunk_file ch then ret st
      else andThen (modify (close_current storage (in_file st))) (\<lambda>_.
        if ch_offset ch \<noteq> 0 then throw (BadArgument ''first offset'')
        else andThen (sys_open True True target) (\<lambda>_.
          ret (st\<lparr>in_file := chunk_file ch, in_offset := 0\<rparr>))))"

definition write_chunk :: "StorageConfig \<Rightarrow> SnapshotChunk \<Rightarrow> install \<Rightarrow> (os, install) prog" where
  "write_chunk storage ch st = (case chunk_target storage (chunk_file ch) of
       None \<Rightarrow> throw (BadArgument (''snapshot file '' @ chunk_file ch))
     | Some target \<Rightarrow>
         let st = (if chunk_file ch = ''snapshot.usearch'' then st\<lparr>in_saw_snapshot := True\<rparr>
                   else st\<lparr>in_saw_dedup := True\<rparr>) in
         andThen (switch_file storage ch target st) (\<lambda>st.
           if ch_offset ch \<noteq> in_offset st then throw (BadArgument ''chunk offset'')
           else andThen (stream_append target (ch_data ch)) (\<lambda>_.
             ret (st\<lparr>in_offset := in_offset st + length (ch_data ch), in_finished := ch_is_last ch\<rparr>))))"

text \<open>The loop over the chunks the reader yields; \<open>None\<close>: the sender is stale.\<close>

fun receive_chunks :: "('w, 'e) services \<Rightarrow> SnapshotChunk list \<Rightarrow> install \<Rightarrow> ('w, 'e, install option) nprog" where
  "receive_chunks S [] st n = (Ok (Some st), n)"
| "receive_chunks S (ch # chs) st n = (case check_chunk S ch st n of
       (Err e, n) \<Rightarrow> (Err e, n)
     | (Ok None, n) \<Rightarrow> (Ok None, n)
     | (Ok (Some st), n) \<Rightarrow>
         (case onDisk (write_chunk (cfg_storage (rn_config n)) ch st) n of
            (Err e, n) \<Rightarrow> (Err e, n)
          | (Ok st, n) \<Rightarrow> receive_chunks S chs st n))"

definition cleanup_install :: "('w, 'e) node \<Rightarrow> ('w, 'e) node" where
  "cleanup_install n = snd (onDisk (\<lambda>s. ignoring (sys_remove (TemporaryDedupSnapshotPath (cfg_storage (rn_config n))))
     (snd (sys_remove (TemporarySnapshotPath (store_of n)) s))) n)"

definition install_reply :: "bool \<Rightarrow> ('w, 'e) node \<Rightarrow> InstallSnapshotResponse" where
  "install_reply success n = \<lparr>is_term = rn_current_term n, is_success = success\<rparr>"

definition ApplyInstalledSnapshot :: "('w, 'e) services \<Rightarrow> SnapshotMeta \<Rightarrow> ('w, 'e, unit) nprog" where
  "ApplyInstalledSnapshot S m = (\<lambda>n.
     case VectorIndex_LoadFromSnapshot (sv_engine S) (SnapshotPath (store_of n)) (cfg_vector (rn_config n)) (rn_os n) of
       Err e \<Rightarrow> (Err e, n)
     | Ok vi \<Rightarrow>
         andThen (onLog (lo_TruncateBefore (sv_log S) (sm_raft_index m + 1))) (\<lambda>_ n.
           let n = n\<lparr>rn_applied_index := sm_raft_index m, rn_commit_index := sm_raft_index m,
                     rn_last_snapshot_index := sm_raft_index m, rn_last_snapshot_term := sm_raft_term m\<rparr> in
           case DedupTable_LoadFrom (sv_codec S) (DedupSnapshotPath (cfg_storage (rn_config n))) (rn_dedup n) (rn_os n) of
             (r, t, s) \<Rightarrow> (r, n\<lparr>rn_dedup := t, rn_os := s\<rparr>)) (n\<lparr>rn_vector_index := Some vi\<rparr>))"

text \<open>The received files take the place of the old ones, then the node reloads from them.\<close>

definition commit_install :: "('w, 'e) services \<Rightarrow> SnapshotMeta \<Rightarrow> ('w, 'e, InstallSnapshotResponse) nprog" where
  "commit_install S m = (\<lambda>n.
     let storage = cfg_storage (rn_config n); tmp = TemporaryDedupSnapshotPath storage in
     case onDisk (FinalizeSnapshot (sv_utc S) (store_of n) m) n of
       (Err e, n) \<Rightarrow> (Err e, cleanup_install n)
     | (Ok _, n) \<Rightarrow> (case onDisk (sys_rename tmp (DedupSnapshotPath storage)) n of
         (Err e, n) \<Rightarrow> (Err e, snd (onDisk (sys_remove tmp) n))
       | (Ok _, n) \<Rightarrow> andThen (ApplyInstalledSnapshot S m) (\<lambda>_ n. (Ok (install_reply True n), n)) n))"

definition finish_install :: "('w, 'e) services \<Rightarrow> install \<Rightarrow> ('w, 'e, InstallSnapshotResponse) nprog" where
  "finish_install S st = (\<lambda>n.
     let n = n\<lparr>rn_os := close_current (cfg_storage (rn_config n)) (in_file st) (rn_os n)\<rparr> in
     case in_meta st of
       None \<Rightarrow> (Ok (install_reply False n), cleanup_install n)
     | Some m \<Rightarrow>
         if \<not> in_finished st then (Err (BadArgument ''stream ended early''), cleanup_install n)
         else if \<not> in_saw_snapshot st then (Err (BadArgument ''snapshot.usearch missing''), cleanup_install n)
         else if \<not> in_saw_dedup st then (Err (BadArgument ''dedup.bin missing''), cleanup_install n)
         else commit_install S m n)"

definition HandleInstallSnapshot ::
    "('w, 'e) services \<Rightarrow> SnapshotChunk list \<Rightarrow> ('w, 'e, InstallSnapshotResponse) nprog" where
  "HandleInstallSnapshot S chunks =
     andThen (\<lambda>n. onDisk (SnapshotStore_Initialize (store_of n)) n) (\<lambda>_ n.
       case receive_chunks S chunks start_install n of
         (Err e, n) \<Rightarrow> (Err e, cleanup_install n)
       | (Ok None, n) \<Rightarrow> (Ok (install_reply False n), cleanup_install n)
       | (Ok (Some st), n) \<Rightarrow> finish_install S st n)"

end
