(* ===== verification/RaftStartup.thy ===== *)
theory RaftStartup
  imports RaftSnapshot WalStore
begin

text \<open>
  Construction of a node (\<^verbatim>\<open>RaftNode::RaftNode\<close>, \<^verbatim>\<open>Create\<close>, \<^verbatim>\<open>Start\<close>, \<^verbatim>\<open>Stop\<close>) and the
  bootstrap of \<^verbatim>\<open>cmd/node/main.cpp\<close>: normalising the configuration, restoring the vector index
  and the de-duplication table from the latest snapshot. The log of a constructed node is the
  write-ahead log of \<open>Wal\<close>; the environment supplies its directory, the directory of the
  metadata and snapshots, the clock and the random draws.
\<close>

section \<open>Bootstrap\<close>

definition LooksLikeAddress :: "string \<Rightarrow> bool" where
  "LooksLikeAddress value = (CHR '':'' \<in> set value)"

definition normalize_peers :: "ClusterConfig \<Rightarrow> ClusterConfig" where
  "normalize_peers c = c\<lparr>cc_peers := filter (\<lambda>peer. peer \<noteq> [] \<and> peer \<noteq> cc_node_id c) (cc_peers c)\<rparr>"

definition LoadAndNormalizeConfig :: "('t, 'n) toml \<Rightarrow> path \<Rightarrow> Config result" where
  "LoadAndNormalizeConfig T config_path = bindR (Config_LoadFromFile T config_path) (\<lambda>cfg.
     bindR (if LooksLikeAddress (cc_node_id (cfg_cluster cfg)) then Ok (cfg_cluster cfg)
            else if \<not> IsSingleNode cfg then Err (ConfigError ''cluster.node_id address'')
            else Ok ((cfg_cluster cfg)\<lparr>cc_node_id := ''127.0.0.1:'' @ dec (unat (cfg_grpc_port cfg))\<rparr>)) (\<lambda>cluster.
       Ok (cfg\<lparr>cfg_cluster := normalize_peers cluster\<rparr>)))"

text \<open>The restored index, with the metadata of the snapshot it comes from.\<close>

definition RestoreVectorIndex ::
    "'e engine \<Rightarrow> Config \<Rightarrow> SnapshotStore \<Rightarrow> (os, 'e VectorIndex \<times> SnapshotMeta option) prog" where
  "RestoreVectorIndex E cfg st = (\<lambda>s.
     if \<not> HasSnapshot st s then (bindR (VectorIndex_Create E (cfg_vector cfg)) (\<lambda>vi. Ok (vi, None)), s)
     else andThen (LoadLatest st (cfg_vector cfg)) (\<lambda>m s.
       (bindR (VectorIndex_LoadFromSnapshot E (SnapshotPath st) (cfg_vector cfg) s) (\<lambda>vi. Ok (vi, Some m)), s)) s)"

definition RestoreDedupTable :: "codec \<Rightarrow> Config \<Rightarrow> bool \<Rightarrow> (os, DedupTable) prog" where
  "RestoreDedupTable c cfg restored_from_snapshot = (\<lambda>s.
     let dedup_table = DedupTable_new (unat (cl_dedup_window_size (cfg_client cfg)));
         dedup_path = DedupSnapshotPath (cfg_storage cfg) in
     if \<not> restored_from_snapshot \<or> \<not> file_exists s dedup_path then (Ok dedup_table, s)
     else case DedupTable_LoadFrom c dedup_path dedup_table s of
         (Err e, t, s) \<Rightarrow> (Err e, s)
       | (Ok _, t, s) \<Rightarrow> (Ok t, s))"

section \<open>Construction\<close>

record 'e RaftNodeOptions =
  op_self_addr :: string
  op_vector_index :: "'e VectorIndex option"
  op_dedup_table :: "DedupTable option"
  op_restored_snapshot_index :: nat
  op_restored_snapshot_term :: nat

record env =
  ev_now :: time
  ev_draws :: "nat list"

definition RaftNode_new ::
    "Config \<Rightarrow> string \<Rightarrow> 'e VectorIndex \<Rightarrow> DedupTable \<Rightarrow> nat \<Rightarrow> nat \<Rightarrow> 'w \<Rightarrow> RaftMeta \<Rightarrow> env \<Rightarrow> os \<Rightarrow> ('w, 'e) node" where
  "RaftNode_new cfg self_addr vi dedup snapshot_index snapshot_term w m e s =
     (case RandomElectionTimeout (cfg_raft cfg) (ev_draws e) of (timeout, draws) \<Rightarrow>
     \<lparr>rn_config = cfg, rn_self_id = cc_node_id (cfg_cluster cfg), rn_self_addr = self_addr,
      rn_state = StFollower, rn_current_term = rm_current_term m,
      rn_commit_index = snapshot_index, rn_applied_index = snapshot_index,
      rn_voted_for = rm_voted_for m, rn_leader_id = [],
      rn_election_deadline = ev_now e + timeout, rn_last_leader_contact = ev_now e,
      rn_last_topology_refresh = ev_now e, rn_last_index_maintenance_check = ev_now e,
      rn_last_snapshot_index = snapshot_index, rn_last_snapshot_term = snapshot_term,
      rn_snapshot_in_progress = False, rn_flushed_index = 0, rn_peer_progress = [],
      rn_replicate_requested = False, rn_commit_listeners = [], rn_heartbeat_requested = False,
      rn_running = False, rn_topology_refresh_requested = False, rn_wal = w, rn_meta = m,
      rn_topology = TopologyManager_new (cc_node_id (cfg_cluster cfg)) self_addr, rn_lease = LeaseManager_new,
      rn_vector_index = Some vi,
      rn_index_maintenance = IndexMaintenance_new (cfg_index_maintenance cfg) (ev_now e), rn_dedup = dedup, rn_notified = [], rn_forwards = [],
      rn_snapshot_task = None, rn_now = ev_now e, rn_draws = draws, rn_os = s\<rparr>)"

text \<open>\<open>ws\<close> holds the files of the log, \<open>s\<close> the metadata and the snapshots.\<close>

definition RaftNode_Create ::
    "codec \<Rightarrow> 'e engine \<Rightarrow> Config \<Rightarrow> 'e RaftNodeOptions \<Rightarrow> env \<Rightarrow> os \<Rightarrow> (os, (wal, 'e) node) prog" where
  "RaftNode_Create c E cfg opts e ws = (\<lambda>s.
     if cc_node_id (cfg_cluster cfg) = [] then (Err (ConfigError ''cluster.node_id''), s)
     else case WAL_Open c (sc_raft_log_dir (cfg_storage cfg)) 1 (SegmentSizeBytes (cfg_storage cfg)) ws of
         (Err x, _) \<Rightarrow> (Err x, s)
       | (Ok w, _) \<Rightarrow>
           andThen (RaftMeta_Load c (path_join (sc_raft_log_dir (cfg_storage cfg)) ''meta.bin'')) (\<lambda>m.
           andThen (SnapshotStore_Initialize \<lparr>ss_snapshot_dir = sc_snapshot_dir (cfg_storage cfg)\<rparr>) (\<lambda>_ s.
             case (case op_vector_index opts of Some vi \<Rightarrow> Ok vi | None \<Rightarrow> VectorIndex_Create E (cfg_vector cfg)) of
               Err x \<Rightarrow> (Err x, s)
             | Ok vi \<Rightarrow> (Ok (RegisterConfiguredPeers (RaftNode_new cfg (op_self_addr opts) vi
                 (case op_dedup_table opts of Some t \<Rightarrow> t
                    | None \<Rightarrow> DedupTable_new (unat (cl_dedup_window_size (cfg_client cfg))))
                 (op_restored_snapshot_index opts) (op_restored_snapshot_term opts) w m e s)), s))) s)"

definition RaftNode_Start :: "('w, 'e) services \<Rightarrow> ('w, 'e, unit) nprog" where
  "RaftNode_Start S = (\<lambda>n.
     if rn_running n then (Ok (), n)
     else let n = n\<lparr>rn_running := True\<rparr> in
       if peers n \<noteq> [] then (Ok (), n)
       else case andThen (BecomeLeader S) (\<lambda>_.
              andThen (modify (\<lambda>n. n\<lparr>rn_lease := Lease_Renew (rn_now n)
                (uint (rc_lease_duration_ms (raft_cfg n))) (rn_lease n)\<rparr>)) (\<lambda>_. MaybeCommit S)) n of
           (Err e, n) \<Rightarrow> (Err e, n\<lparr>rn_running := False\<rparr>)
         | (Ok _, n) \<Rightarrow> (Ok (), n))"

definition RaftNode_Stop :: "('w, 'e) node \<Rightarrow> ('w, 'e) node" where
  "RaftNode_Stop n = n\<lparr>rn_running := False\<rparr>"

text \<open>What \<^verbatim>\<open>main\<close> does before it serves requests: the node, constructed and started.\<close>

definition bootstrap_node ::
    "codec \<Rightarrow> 'e engine \<Rightarrow> ('t, 'n) toml \<Rightarrow> path \<Rightarrow> env \<Rightarrow> string \<Rightarrow> os \<Rightarrow> (os, (wal, 'e) node) prog" where
  "bootstrap_node c E T config_path e utc ws = (\<lambda>s. case LoadAndNormalizeConfig T config_path of
       Err x \<Rightarrow> (Err x, s)
     | Ok cfg \<Rightarrow>
         let st = \<lparr>ss_snapshot_dir = sc_snapshot_dir (cfg_storage cfg)\<rparr> in
         andThen (SnapshotStore_Initialize st) (\<lambda>_.
         andThen (RestoreVectorIndex E cfg st) (\<lambda>(vi, restored).
         andThen (RestoreDedupTable c cfg (restored \<noteq> None)) (\<lambda>t.
         andThen (RaftNode_Create c E cfg \<lparr>op_self_addr = cc_node_id (cfg_cluster cfg), op_vector_index = Some vi,
             op_dedup_table = Some t,
             op_restored_snapshot_index = (case restored of Some m \<Rightarrow> sm_raft_index m | None \<Rightarrow> 0),
             op_restored_snapshot_term = (case restored of Some m \<Rightarrow> sm_raft_term m | None \<Rightarrow> 0)\<rparr> e ws) (\<lambda>n s.
           case RaftNode_Start \<lparr>sv_log = wal_ops c, sv_codec = c, sv_engine = E, sv_utc = utc\<rparr> n of
             (Err x, n) \<Rightarrow> (Err x, rn_os n) | (Ok _, n) \<Rightarrow> (Ok n, rn_os n))))) s)"

end
