(* ===== verification/Cluster.thy ===== *)
theory Cluster
  imports RaftBallot RaftStartup
begin

text \<open>
  A cluster of nodes of \<open>RaftNode\<close> and the messages between them. A step runs one operation of
  one node, in any order; messages may be lost, repeated and reordered, a metadata write may fail
  at any system call, and a node may crash and restart from its metadata file. A remote call is
  two steps, with anything in between. Entries forwarded by mentors and snapshot transfers are
  left out.
\<close>

section \<open>Steps\<close>

record ('w, 'e) cluster =
  cl_nodes :: "string \<Rightarrow> ('w, 'e) node"
  cl_votes :: "RequestVoteRequest set"
  cl_replies :: "(RequestVoteRequest \<times> string \<times> RequestVoteResponse) set"
  cl_beats :: "(string \<times> HeartbeatRequest) set"
  cl_appends :: "(string \<times> AppendEntriesRequest) set"
  cl_elected :: "(nat \<times> string) set"

definition set_node :: "string \<Rightarrow> ('w, 'e) node \<Rightarrow> ('w, 'e) cluster \<Rightarrow> ('w, 'e) cluster" where
  "set_node i n c = c\<lparr>cl_nodes := (cl_nodes c)(i := n)\<rparr>"

definition Ok_set :: "'a result \<Rightarrow> 'a set" where
  "Ok_set r = (case r of Ok x \<Rightarrow> {x} | Err _ \<Rightarrow> {})"

text \<open>
  With \<open>lates = False\<close>, no node processes the end of its own election or heartbeat round when it
  has meanwhile reached the term it learns there. Numbers in messages are 64-bit.
\<close>

inductive cluster_step ::
    "bool \<Rightarrow> ('w, 'e) services \<Rightarrow> string set \<Rightarrow> ('w, 'e) cluster \<Rightarrow> ('w, 'e) cluster \<Rightarrow> bool"
  for lates S members where
  campaign: "i \<in> members \<Longrightarrow> ElectionLoop_fires (cl_nodes c i) \<Longrightarrow> Suc (rn_current_term (cl_nodes c i)) < 2 ^ 64 \<Longrightarrow>
    StartElection_begin S (cl_nodes c i) = (r, n') \<Longrightarrow>
    cluster_step lates S members c (set_node i n' (c\<lparr>cl_votes := cl_votes c \<union> Ok_set r\<rparr>))"
| vote: "j \<in> members \<Longrightarrow> q \<in> cl_votes c \<Longrightarrow> j \<noteq> vq_candidate_id q \<Longrightarrow>
    HandleRequestVote S q (cl_nodes c j) = (r, n') \<Longrightarrow>
    cluster_step lates S members c
      (set_node j n' (c\<lparr>cl_replies := cl_replies c \<union> {(q, j, a) | a. a \<in> Ok_set r}\<rparr>))"
| elect: "i \<in> members \<Longrightarrow> q \<in> cl_votes c \<Longrightarrow> vq_candidate_id q = i \<Longrightarrow>
    rs = map f (peers (cl_nodes c i)) \<Longrightarrow> (\<And>p a. f p = Ok a \<Longrightarrow> (q, p, a) \<in> cl_replies c) \<Longrightarrow>
    highest_vote_term (vq_term q) rs < 2 ^ 64 \<Longrightarrow>
    lates \<or> \<not> late (vq_term q) (highest_vote_term (vq_term q) rs) (cl_nodes c i) \<Longrightarrow>
    StartElection_end S q rs (cl_nodes c i) = (r, n') \<Longrightarrow>
    cluster_step lates S members c (set_node i n' (c\<lparr>cl_elected := cl_elected c \<union>
      (if IsLeader n' \<and> \<not> IsLeader (cl_nodes c i) then {(rn_current_term n', i)} else {})\<rparr>))"
| beat: "i \<in> members \<Longrightarrow> (p, q) \<in> set (BroadcastHeartbeat_begin (cl_nodes c i)) \<Longrightarrow>
    cluster_step lates S members c (c\<lparr>cl_beats := insert (p, q) (cl_beats c)\<rparr>)"
| heartbeat: "(j, q) \<in> cl_beats c \<Longrightarrow> HandleHeartbeat S q (cl_nodes c j) = (r, n') \<Longrightarrow>
    cluster_step lates S members c (set_node j n' c)"
| beat_end: "(t, i) \<in> cl_elected c \<Longrightarrow> heard_term t sent_at rs (cl_nodes c i) < 2 ^ 64 \<Longrightarrow>
    lates \<or> \<not> late t (heard_term t sent_at rs (cl_nodes c i)) (cl_nodes c i) \<Longrightarrow>
    BroadcastHeartbeat_end S t sent_at rs (cl_nodes c i) = (r, n') \<Longrightarrow>
    cluster_step lates S members c (set_node i n' c)"
| replicate: "i \<in> members \<Longrightarrow> p \<in> set (peers (cl_nodes c i)) \<Longrightarrow>
    ReplicatePeerOnce_dispatch S p (cl_nodes c i) = (Ok (Dispatch q), n') \<Longrightarrow>
    cluster_step lates S members c (set_node i n' (c\<lparr>cl_appends := insert (p, q) (cl_appends c)\<rparr>))"
| append: "(j, q) \<in> cl_appends c \<Longrightarrow> HandleAppendEntries S q (cl_nodes c j) = (r, n') \<Longrightarrow>
    cluster_step lates S members c (set_node j n' c)"
| callback: "i \<in> members \<Longrightarrow> \<forall>a. response = Ok a \<longrightarrow> as_term a < 2 ^ 64 \<Longrightarrow>
    cluster_step lates S members c
      (set_node i (AppendEntries_callback S p sent_at q response (cl_nodes c i)) c)"
| propose: "i \<in> members \<Longrightarrow> Propose S e (cl_nodes c i) = (r, n') \<Longrightarrow>
    cluster_step lates S members c (set_node i n' c)"
| apply_entries: "i \<in> members \<Longrightarrow>
    cluster_step lates S members c (set_node i (ApplyCommittedEntries S (cl_nodes c i)) c)"
| tick: "i \<in> members \<Longrightarrow> rn_now (cl_nodes c i) \<le> now \<Longrightarrow>
    cluster_step lates S members c (set_node i ((cl_nodes c i)\<lparr>rn_now := now\<rparr>) c)"
| crash: "i \<in> members \<Longrightarrow> n = cl_nodes c i \<Longrightarrow>
    RaftMeta_Load (sv_codec S) (MetaPath n) ((rn_os n)\<lparr>os_io := io\<rparr>) = (Ok m, s) \<Longrightarrow>
    cluster_step lates S members c (set_node i
      (RegisterConfiguredPeers (RaftNode_new (rn_config n) (rn_self_addr n) vi dedup si st w m e s)) c)"

text \<open>A cluster that starts: every node knows the others, and memory agrees with the disk.\<close>

definition cluster_init :: "('w, 'e) services \<Rightarrow> string set \<Rightarrow> ('w, 'e) cluster \<Rightarrow> bool" where
  "cluster_init S members c \<longleftrightarrow> finite members \<and> cl_votes c = {} \<and> cl_replies c = {} \<and> cl_beats c = {} \<and>
     cl_appends c = {} \<and> cl_elected c = {} \<and>
     (\<forall>i \<in> members. i \<noteq> [] \<and> ascii i \<and> rn_self_id (cl_nodes c i) = i \<and>
        cc_node_id (cfg_cluster (rn_config (cl_nodes c i))) = i \<and> rn_state (cl_nodes c i) = StFollower \<and>
        distinct (peers (cl_nodes c i)) \<and> set (peers (cl_nodes c i)) = members - {i} \<and>
        disk S (cl_nodes c i) \<lparr>rm_current_term = rn_current_term (cl_nodes c i),
          rm_voted_for = rn_voted_for (cl_nodes c i)\<rparr>)"

section \<open>Simulation\<close>

definition grants :: "('w, 'e) cluster \<Rightarrow> (nat \<times> string \<times> string) set" where
  "grants c = {(vq_term q, j, vq_candidate_id q) | q j a. (q, j, a) \<in> cl_replies c \<and> vs_vote_granted a}"

definition sim :: "('w, 'e) services \<Rightarrow> string set \<Rightarrow> ('w, 'e) cluster \<Rightarrow> votes \<Rightarrow> bool" where
  "sim S members c s \<longleftrightarrow>
     (\<forall>i \<in> members. fst (vt s i) = ballot (cl_nodes c i) \<and> disk S (cl_nodes c i) (snd (vt s i))) \<and>
     granted s = grants c \<and> elected s = cl_elected c"

definition wired :: "string set \<Rightarrow> ('w, 'e) cluster \<Rightarrow> bool" where
  "wired members c \<longleftrightarrow> finite members \<and>
     (\<forall>i \<in> members. i \<noteq> [] \<and> ascii i \<and> rn_self_id (cl_nodes c i) = i \<and>
        cc_node_id (cfg_cluster (rn_config (cl_nodes c i))) = i \<and> distinct (peers (cl_nodes c i)) \<and> set (peers (cl_nodes c i)) = members - {i}) \<and>
     (\<forall>q \<in> cl_votes c. vq_candidate_id q \<in> members \<and> 0 < vq_term q \<and> vq_term q < 2 ^ 64) \<and>
     (\<forall>(q, j, a) \<in> cl_replies c. q \<in> cl_votes c \<and> j \<in> members \<and> j \<noteq> vq_candidate_id q) \<and>
     (\<forall>(j, q) \<in> cl_beats c. j \<in> members \<and> (\<exists>l. l \<noteq> j \<and> (hr_term q, l) \<in> cl_elected c)) \<and>
     (\<forall>(j, q) \<in> cl_appends c. j \<in> members \<and> (\<exists>l. l \<noteq> j \<and> (ar_term q, l) \<in> cl_elected c)) \<and>
     (\<forall>(t, l) \<in> cl_elected c. l \<in> members \<and> t < 2 ^ 64)"

definition implements :: "('w, 'e) services \<Rightarrow> string set \<Rightarrow> ('w, 'e) cluster \<Rightarrow> votes \<Rightarrow> bool" where
  "implements S members c s \<longleftrightarrow> wired members c \<and> sim S members c s \<and> votes_inv (majority members) s"

lemma set_node_simps [simp]:
  "cl_nodes (set_node i n c) = (cl_nodes c)(i := n)" "cl_votes (set_node i n c) = cl_votes c"
  "cl_replies (set_node i n c) = cl_replies c" "cl_beats (set_node i n c) = cl_beats c"
  "cl_appends (set_node i n c) = cl_appends c" "cl_elected (set_node i n c) = cl_elected c"
  by (simp_all add: set_node_def)

lemma wired_node:
  assumes "wired members c" and "ident n' = ident (cl_nodes c i)"
  shows "wired members (set_node i n' c)"
  using assms by (simp add: wired_def ident_def)

lemma moves_ident: "moves S a n n' \<Longrightarrow> ident n' = ident n"
  by (simp add: moves_def)

lemma wired_self: "wired members c \<Longrightarrow> i \<in> members \<Longrightarrow> rn_self_id (cl_nodes c i) = i \<and> i \<noteq> [] \<and> ascii i"
  by (simp add: wired_def)

lemma sim_voter:
  assumes "wired members c" and "sim S members c s" and "i \<in> members" and "moves S a (cl_nodes c i) n'"
  shows "\<exists>x. voter i a (vt s i) x \<and> fst x = ballot n' \<and> disk S n' (snd x)"
proof -
  obtain b m where v: "vt s i = (b, m)" by (cases "vt s i")
  have "b = ballot (cl_nodes c i)" "disk S (cl_nodes c i) m" using assms(2,3) v by (auto simp: sim_def)
  then obtain m' where "disk S n' m'" "voter i a (vt s i) (ballot n', m')"
    using assms(4) wired_self [OF assms(1,3)] v unfolding moves_def by metis
  then show ?thesis by (intro exI [of _ "(ballot n', m')"]) simp
qed

lemma sim_update:
  assumes "sim S members c s" and "fst x = ballot n'" and "disk S n' (snd x)"
  shows "sim S members (set_node i n' c) (s\<lparr>vt := (vt s)(i := x)\<rparr>)"
  using assms by (auto simp: sim_def grants_def)

lemma sim_term: "sim S members c s \<Longrightarrow> i \<in> members \<Longrightarrow> term_of (vt s i) = rn_current_term (cl_nodes c i)"
  by (simp add: sim_def ballot_def)

text \<open>A step of one node that is a move of the voter, without and with a leader as evidence.\<close>

lemma stay_implements:
  assumes "implements S members c s" and "i \<in> members" and "moves S Stay (cl_nodes c i) n'"
  shows "\<exists>s'. implements S members (set_node i n' c) s' \<and> granted s' = granted s \<and> elected s' = elected s"
proof -
  have w: "wired members c" and sm: "sim S members c s" and v: "votes_inv (majority members) s"
    using assms(1) by (simp_all add: implements_def)
  obtain x where x: "voter i Stay (vt s i) x" "fst x = ballot n'" "disk S n' (snd x)"
    using sim_voter [OF w sm assms(2,3)] by blast
  then show ?thesis
    using majorities.election_inv [OF v e_stay [OF x(1)]] sim_update [OF sm x(2,3)] wired_node [OF w moves_ident [OF assms(3)]]
    by (intro exI [of _ "s\<lparr>vt := (vt s)(i := x)\<rparr>"]) (simp add: implements_def)
qed

lemma contact_implements:
  assumes "implements S members c s" and "i \<in> members" and "moves S (contact t (cl_nodes c i)) (cl_nodes c i) n'"
    and "l \<noteq> i" and "(t, l) \<in> cl_elected c"
  shows "\<exists>s'. implements S members (set_node i n' c) s'"
proof (cases "contact t (cl_nodes c i) = Stay")
  case True
  then have "moves S Stay (cl_nodes c i) n'" using assms(3) by simp
  then show ?thesis using stay_implements [OF assms(1,2)] by blast
next
  case False
  then have y: "contact t (cl_nodes c i) = Yield" "t = rn_current_term (cl_nodes c i)"
    by (auto simp: contact_def split: if_splits)
  have w: "wired members c" and sm: "sim S members c s" and v: "votes_inv (majority members) s"
    using assms(1) by (simp_all add: implements_def)
  obtain x where x: "voter i Yield (vt s i) x" "fst x = ballot n'" "disk S n' (snd x)"
    using sim_voter [OF w sm assms(2,3)] y(1) by auto
  have "(term_of (vt s i), l) \<in> elected s"
    using assms(5) y(2) sim_term [OF sm assms(2)] sm by (simp add: sim_def)
  then show ?thesis
    using majorities.election_inv [OF v e_yield [OF x(1) _ assms(4)]] sim_update [OF sm x(2,3)]
      wired_node [OF w moves_ident [OF assms(3)]]
    by (intro exI [of _ "s\<lparr>vt := (vt s)(i := x)\<rparr>"]) (simp add: implements_def)
qed

lemma implements_leader:
  assumes "implements S members c s" and "i \<in> members" and "IsLeader (cl_nodes c i)"
  shows "(rn_current_term (cl_nodes c i), i) \<in> cl_elected c"
proof -
  have sm: "sim S members c s" and v: "votes_inv (majority members) s"
    using assms(1) by (simp_all add: implements_def)
  obtain m where "vt s i = ((rn_current_term (cl_nodes c i), StLeader, rn_voted_for (cl_nodes c i)), m)"
    using sm assms(2,3) by (cases "vt s i") (auto simp: sim_def ballot_def IsLeader_def)
  then have "(rn_current_term (cl_nodes c i), i) \<in> elected s"
    using majorities.votes_inv_parts(1) [OF v, of i] by (simp add: voter_inv_def)
  then show ?thesis using sm by (simp add: sim_def)
qed

section \<open>The steps implement the abstract elections\<close>

lemma implements_messages:
  assumes "implements S members c s" and "wired members c'" and "cl_nodes c' = cl_nodes c"
    and "cl_replies c' = cl_replies c" and "cl_elected c' = cl_elected c"
  shows "implements S members c' s"
  using assms by (simp add: implements_def sim_def grants_def)

lemma campaign_implements:
  assumes g: "implements S members c s" and i: "i \<in> members" and "Suc (rn_current_term (cl_nodes c i)) < 2 ^ 64"
    and b: "StartElection_begin S (cl_nodes c i) = (r, n')"
  shows "\<exists>s'. implements S members (set_node i n' (c\<lparr>cl_votes := cl_votes c \<union> Ok_set r\<rparr>)) s'"
proof -
  have w: "wired members c" and sm: "sim S members c s" and v: "votes_inv (majority members) s"
    using g by (simp_all add: implements_def)
  note self = wired_self [OF w i]
  note e = stand_effect [OF b assms(3)]
  show ?thesis
  proof (cases r)
    case (Inl x)
    then show ?thesis using stay_implements [OF g i, of n'] e self by (auto simp: Ok_set_def)
  next
    case (Inr q)
    then have m: "moves S Stand (cl_nodes c i) n'" and q: "vq_term q = Suc (rn_current_term (cl_nodes c i))"
      "vq_candidate_id q = i" using e self by auto
    obtain x where x: "voter i Stand (vt s i) x" "fst x = ballot n'" "disk S n' (snd x)"
      using sim_voter [OF w sm i m] by blast
    let ?c = "c\<lparr>cl_votes := insert q (cl_votes c)\<rparr>"
    have "wired members ?c" using w q i assms(3) by (auto simp: wired_def)
    then have "wired members (set_node i n' ?c)" by (rule wired_node) (simp add: moves_ident [OF m])
    moreover have "sim S members ?c s" using sm by (simp add: sim_def grants_def)
    ultimately show ?thesis
      using majorities.election_inv [OF v e_stand [OF x(1)]] sim_update [of S members ?c s x n' i] x(2,3) self Inr
      by (intro exI [of _ "s\<lparr>vt := (vt s)(i := x)\<rparr>"]) (simp add: implements_def Ok_set_def)
  qed
qed

lemma grants_insert:
  "grants (set_node j n (c\<lparr>cl_replies := cl_replies c \<union> {(q, j, a) | a. a \<in> Ok_set r}\<rparr>)) =
   grants c \<union> (if \<exists>a. r = Ok a \<and> vs_vote_granted a then {(vq_term q, j, vq_candidate_id q)} else {})"
  by (cases r) (auto simp: grants_def Ok_set_def)

lemma vote_implements:
  assumes g: "implements S members c s" and j: "j \<in> members" and q: "q \<in> cl_votes c" "j \<noteq> vq_candidate_id q"
    and h: "HandleRequestVote S q (cl_nodes c j) = (r, n')"
  shows "\<exists>s'. implements S members
    (set_node j n' (c\<lparr>cl_replies := cl_replies c \<union> {(q, j, a) | a. a \<in> Ok_set r}\<rparr>)) s'"
proof -
  have w: "wired members c" using g by (simp add: implements_def)
  have "vq_candidate_id q \<in> members" and t: "vq_term q < 2 ^ 64" using w q by (auto simp: wired_def)
  then have cand: "ascii (vq_candidate_id q)" "vq_candidate_id q \<noteq> []" using wired_self [OF w] by auto
  let ?yes = "\<exists>a. r = Ok a \<and> vs_vote_granted a"
  obtain n1 where n1: "moves S Stay (cl_nodes c j) n1"
      "if ?yes then moves S (Grant (vq_candidate_id q)) n1 n' \<and> rn_current_term n1 = vq_term q else moves S Stay n1 n'"
    using vote_effect [OF h t cand(1)] by blast
  let ?c1 = "set_node j n1 c"
  obtain s1 where s1: "implements S members ?c1 s1" using stay_implements [OF g j n1(1)] by blast
  let ?c2 = "set_node j n' (c\<lparr>cl_replies := cl_replies c \<union> {(q, j, a) | a. a \<in> Ok_set r}\<rparr>)"
  have w1: "wired members ?c1" and sm1: "sim S members ?c1 s1" and v1: "votes_inv (majority members) s1"
    using s1 by (simp_all add: implements_def)
  have "ident n' = ident (cl_nodes c j)" using n1 moves_ident by (metis (full_types))
  then have "wired members (set_node j n' c)" by (rule wired_node [OF w])
  then have w2: "wired members ?c2" using q j by (auto simp: wired_def)
  show ?thesis
  proof (cases ?yes)
    case False
    then obtain x where x: "voter j Stay (vt s1 j) x" "fst x = ballot n'" "disk S n' (snd x)"
      using sim_voter [OF w1 sm1 j, of Stay n'] n1(2) by auto
    have "sim S members ?c2 (s1\<lparr>vt := (vt s1)(j := x)\<rparr>)"
      using sm1 x(2,3) False unfolding sim_def grants_insert by (auto simp: grants_def)
    then show ?thesis
      using w2 majorities.election_inv [OF v1 e_stay [OF x(1)]] by (auto simp: implements_def)
  next
    case True
    then obtain x where x: "voter j (Grant (vq_candidate_id q)) (vt s1 j) x" "fst x = ballot n'" "disk S n' (snd x)"
      using sim_voter [OF w1 sm1 j, of "Grant (vq_candidate_id q)" n'] n1(2) by auto
    let ?s2 = "s1\<lparr>vt := (vt s1)(j := x), granted := insert (term_of (vt s1 j), j, vq_candidate_id q) (granted s1)\<rparr>"
    have "term_of (vt s1 j) = vq_term q" using sim_term [OF sm1 j] n1(2) True by simp
    then have "sim S members ?c2 ?s2"
      using sm1 x(2,3) True unfolding sim_def grants_insert by (auto simp: grants_def)
    moreover have "votes_inv (majority members) ?s2"
      using majorities.election_inv [OF v1 e_grant [OF x(1)]] q(2) cand(2) wired_self [OF w j] by auto
    ultimately show ?thesis using w2 by (auto simp: implements_def)
  qed
qed

lemma granted_card:
  assumes "distinct ps" and "\<And>p a. f p = Ok a \<Longrightarrow> (q, p, a) \<in> cl_replies c"
  shows "\<exists>G. G \<subseteq> {j. (vq_term q, j, vq_candidate_id q) \<in> grants c} \<and> G \<subseteq> set ps \<and> granted_votes (map f ps) = Suc (card G)"
proof -
  let ?G = "{p \<in> set ps. case f p of Err _ \<Rightarrow> False | Ok v \<Rightarrow> vs_vote_granted v}"
  have "?G \<subseteq> {j. (vq_term q, j, vq_candidate_id q) \<in> grants c}"
  proof (intro subsetI CollectI)
    fix p
    assume "p \<in> ?G"
    then obtain a where "f p = Ok a" "vs_vote_granted a" by (auto split: sum.splits)
    then show "(vq_term q, p, vq_candidate_id q) \<in> grants c" using assms(2) unfolding grants_def by blast
  qed
  moreover have "length (filter (\<lambda>p. case f p of Err _ \<Rightarrow> False | Ok v \<Rightarrow> vs_vote_granted v) ps) = card ?G"
    using distinct_length_filter [OF assms(1)] by (simp add: Collect_conj_eq Int_commute)
  ultimately show ?thesis
    by (intro exI [of _ ?G]) (auto simp: granted_votes_def filter_map comp_def)
qed

lemma stay_not_elected:
  assumes "wired members c" and "sim S members c s" and "i \<in> members" and "moves S Stay (cl_nodes c i) n'" and "IsLeader n'"
  shows "IsLeader (cl_nodes c i)"
proof -
  obtain x where x: "voter i Stay (vt s i) x" "fst x = ballot n'" using sim_voter [OF assms(1-4)] by blast
  have "fst (vt s i) = ballot (cl_nodes c i)" using assms(2,3) by (simp add: sim_def)
  with x assms(5) show ?thesis
    by (auto simp: IsLeader_def ballot_def elim!: voter_StayE)
qed

lemma majority_of_peers:
  assumes "distinct (peers n)" and "set (peers n) = members - {i}" and "finite members" and "i \<in> members"
    and "G \<subseteq> members - {i}" and "QuorumSize n \<le> Suc (card G)"
  shows "majority members (insert i G)"
proof -
  have "length (peers n) = card members - 1"
    using assms by (metis card_Diff_singleton distinct_card)
  moreover have "0 < card members" using assms(3,4) card_gt_0_iff by blast
  moreover have "finite G" "i \<notin> G" using assms(3,5) finite_subset [of G] by auto
  then have "card (insert i G) = Suc (card G)" by simp
  ultimately have "card members < 2 * card (insert i G)"
    using assms(6) unfolding QuorumSize_def by linarith
  then show ?thesis using assms(3-5) by (auto simp: majority_def)
qed

lemma elect_implements:
  assumes g: "implements S members c s" and i: "i \<in> members" and q: "q \<in> cl_votes c" "vq_candidate_id q = i"
    and f: "\<And>p a. f p = Ok a \<Longrightarrow> (q, p, a) \<in> cl_replies c"
    and h: "highest_vote_term (vq_term q) (map f (peers (cl_nodes c i))) < 2 ^ 64"
    and nl: "\<not> late (vq_term q) (highest_vote_term (vq_term q) (map f (peers (cl_nodes c i)))) (cl_nodes c i)"
    and e: "StartElection_end S q (map f (peers (cl_nodes c i))) (cl_nodes c i) = (r, n')"
  shows "\<exists>s'. implements S members (set_node i n' (c\<lparr>cl_elected := cl_elected c \<union>
      (if IsLeader n' \<and> \<not> IsLeader (cl_nodes c i) then {(rn_current_term n', i)} else {})\<rparr>)) s'"
    (is "\<exists>s'. implements S members ?c' s'")
proof -
  have w: "wired members c" and sm: "sim S members c s" and v: "votes_inv (majority members) s"
    using g by (simp_all add: implements_def)
  have t: "0 < vq_term q" "vq_term q < 2 ^ 64" using w q by (auto simp: wired_def)
  have ps: "distinct (peers (cl_nodes c i))" "set (peers (cl_nodes c i)) = members - {i}" "finite members"
    using w i by (auto simp: wired_def)
  from elect_effect [OF e h t(1) nl] show ?thesis
  proof
    assume m: "moves S Stay (cl_nodes c i) n'"
    then have "\<not> (IsLeader n' \<and> \<not> IsLeader (cl_nodes c i))"
      using stay_not_elected [OF w sm i] by blast
    then have "?c' = set_node i n' c" unfolding set_node_def by (subst if_not_P) simp_all
    then show ?thesis using stay_implements [OF g i m] by auto
  next
    assume m: "moves S Lead (cl_nodes c i) n' \<and> rn_current_term (cl_nodes c i) = vq_term q \<and>
      QuorumSize (cl_nodes c i) \<le> granted_votes (map f (peers (cl_nodes c i)))"
    have "\<exists>G. G \<subseteq> {j. (vq_term q, j, vq_candidate_id q) \<in> grants c} \<and> G \<subseteq> set (peers (cl_nodes c i)) \<and>
        granted_votes (map f (peers (cl_nodes c i))) = Suc (card G)"
      by (rule granted_card [OF ps(1)]) (rule f)
    then obtain G where G: "G \<subseteq> {j. (vq_term q, j, i) \<in> grants c}" "G \<subseteq> members - {i}"
        "granted_votes (map f (peers (cl_nodes c i))) = Suc (card G)"
      using ps(2) q(2) by auto
    have "majority members (insert i G)"
      using m G(2,3) majority_of_peers [OF ps i] by simp
    moreover have tm: "term_of (vt s i) = vq_term q" using sim_term [OF sm i] m by simp
    moreover have "insert i G \<subseteq> supporters s (vq_term q) i"
      using G(1) sm by (auto simp: supporters_def sim_def)
    ultimately have Q: "majority members (insert i G)" "insert i G \<subseteq> supporters s (term_of (vt s i)) i" by simp_all
    obtain x where x: "voter i Lead (vt s i) x" "fst x = ballot n'" "disk S n' (snd x)"
      using sim_voter [OF w sm i] m by blast
    then have st: "IsLeader n'" "\<not> IsLeader (cl_nodes c i)" "rn_current_term n' = vq_term q"
      using sm i tm by (auto simp: sim_def ballot_def IsLeader_def elim!: voter_LeadE)
    let ?s' = "s\<lparr>vt := (vt s)(i := x), elected := insert (term_of (vt s i), i) (elected s)\<rparr>"
    have "sim S members ?c' ?s'"
      using sm x(2,3) st tm unfolding sim_def by (auto simp: grants_def)
    moreover have "wired members (set_node i n' c)" using m by (intro wired_node [OF w] moves_ident) blast
    then have "wired members ?c'" using st t(2) i by (auto simp: wired_def)
    ultimately show ?thesis
      using majorities.election_inv [OF v e_lead [where quorum = "majority members", OF x(1) Q]] by (auto simp: implements_def)
  qed
qed

lemma core_apply_command: "apply_command S e n = (r, n') \<Longrightarrow> vote_core n' = vote_core n"
  by (auto simp: apply_command_def onIndex_def split: if_splits option.splits sum.splits prod.splits)

lemma core_apply_entry: "vote_core (apply_entry S i e n) = vote_core n"
proof -
  obtain r n' where c: "apply_command S e n = (r, n')" by (cases "apply_command S e n")
  show ?thesis
    using core_apply_command [OF c]
    by (simp add: apply_entry_def c publish_result_def MaybeTriggerSnapshot_def LaunchSnapshotTask_def
        NotifyCommitListener_def UnregisterCommitListener_def Let_def split: prod.splits option.splits)
qed

lemma core_ApplyCommittedEntries: "vote_core (ApplyCommittedEntries S n) = vote_core n"
proof (induction S n rule: ApplyCommittedEntries.induct)
  case (1 S n)
  obtain r n' where r: "onLog (lo_Read (sv_log S) (rn_applied_index n + 1)) n = (r, n')"
    by (cases "onLog (lo_Read (sv_log S) (rn_applied_index n + 1)) n")
  show ?case
    using 1 r core_onLog [OF r]
    by (subst ApplyCommittedEntries.simps) (auto simp: core_apply_entry split: sum.splits)
qed

lemma dispatch_effect:
  assumes "ReplicatePeerOnce_dispatch S p n = (Ok (Dispatch q), n')"
  shows "vote_core n' = vote_core n \<and> IsLeader n \<and> ar_term q = rn_current_term n"
proof -
  have l: "IsLeader n" using assms by (auto simp: ReplicatePeerOnce_dispatch_def split: if_splits)
  obtain pp where p: "map_of (rn_peer_progress n) p = Some pp"
    using assms l by (auto simp: ReplicatePeerOnce_dispatch_def split: option.splits)
  obtain r1 n1 where a: "onLog (lo_ReadFrom (sv_log S) (pp_next_index pp) (unat (rc_batch_max_entries (raft_cfg n)))) n = (r1, n1)"
    by (cases "onLog (lo_ReadFrom (sv_log S) (pp_next_index pp) (unat (rc_batch_max_entries (raft_cfg n)))) n")
  obtain r2 n2 where b: "TermAtLogicalIndex S (pp_next_index pp - 1) n1 = (r2, n2)"
    by (cases "TermAtLogicalIndex S (pp_next_index pp - 1) n1")
  note k = core_onLog [OF a] core_TermAtLogicalIndex [OF b]
  obtain es t x where "n' = set_progress p x n2" "q = append_request p (rn_self_id n2) (pp_next_index pp - 1) t es n2"
    using assms l p a b
    by (auto simp: ReplicatePeerOnce_dispatch_def andThen_def Let_def split: if_splits sum.splits)
  then show ?thesis
    using l k core_determines(5) [OF k(2)] core_determines(5) [OF k(1)] by (simp add: append_request_def)
qed

lemma restart_effect:
  assumes "RaftMeta_Load (sv_codec S) (MetaPath n) ((rn_os n)\<lparr>os_io := io\<rparr>) = (Ok m, s)"
    and "n' = RegisterConfiguredPeers (RaftNode_new (rn_config n) (rn_self_addr n) vi dedup si st w m e s)"
    and "rn_self_id n = cc_node_id (cfg_cluster (rn_config n))"
  shows "moves S Stay n n'"
proof -
  have f: "rn_config n' = rn_config n" "rn_self_id n' = rn_self_id n" "rn_os n' = s"
      "ballot n' = (rm_current_term m, StFollower, rm_voted_for m)"
    using assms(2,3)
    by (simp_all add: RegisterConfiguredPeers_def onTopology_def RaftNode_new_def ballot_def split: prod.splits)
  have "m' = m \<and> disk S n' m" if "disk S n m'" for m'
  proof -
    have "meta_holds (sv_codec S) (MetaPath n) ((rn_os n)\<lparr>os_io := io\<rparr>) m'"
      using that by (simp add: disk_def meta_holds_def)
    then show ?thesis
      using meta_file.load_outcome [OF _ assms(1)] f by (auto simp: disk_def MetaPath_def)
  qed
  then show ?thesis
    using f voter.restart [of "rn_self_id n" "rn_current_term n" "rn_state n" "rn_voted_for n" m]
    unfolding moves_def ident_def by (auto simp: ballot_def)
qed

section \<open>Election safety\<close>

lemma step_implements:
  assumes g: "implements S members c s" and "cluster_step False S members c c'"
  shows "\<exists>s'. implements S members c' s'"
  using assms(2)
proof cases
  case (campaign i r n')
  then show ?thesis using campaign_implements [OF g] by blast
next
  case (vote j q r n')
  then show ?thesis using vote_implements [OF g] by blast
next
  case (elect i q rs f r n')
  have "\<And>p a. f p = Ok a \<Longrightarrow> (q, p, a) \<in> cl_replies c" using elect by blast
  then show ?thesis using elect_implements [OF g, of i q f r n'] elect by blast
next
  case (beat i p q)
  have w: "wired members c" using g by (simp add: implements_def)
  have "p \<in> members - {i}" "hr_term q = rn_current_term (cl_nodes c i)" "IsLeader (cl_nodes c i)"
    using beat w by (auto simp: BroadcastHeartbeat_begin_def heartbeat_request_def wired_def split: if_splits)
  moreover note implements_leader [OF g beat(2) this(3)]
  ultimately have "wired members c'" using w beat(1) by (auto simp: wired_def)
  then have "implements S members c' s" by (rule implements_messages [OF g]) (simp_all add: beat(1))
  then show ?thesis by blast
next
  case (heartbeat j q r n')
  then have "j \<in> members" and l: "\<exists>l. l \<noteq> j \<and> (hr_term q, l) \<in> cl_elected c" and "hr_term q < 2 ^ 64"
    using g by (auto simp: implements_def wired_def)
  then show ?thesis
    using contact_implements [OF g _ heartbeat_effect [OF heartbeat(3)]] heartbeat(1) by blast
next
  case (beat_end t i sent_at rs r n')
  then have "i \<in> members" using g by (auto simp: implements_def wired_def)
  moreover have "moves S Stay (cl_nodes c i) n'" using broadcast_effect beat_end by blast
  ultimately show ?thesis using stay_implements [OF g] beat_end(1) by blast
next
  case (replicate i p q n')
  note d = dispatch_effect [OF replicate(4)]
  obtain s1 where s1: "implements S members (set_node i n' c) s1"
    using stay_implements [OF g replicate(2) moves_same] d by blast
  have w: "wired members c" using g by (simp add: implements_def)
  have "p \<in> members - {i}" using replicate w by (auto simp: wired_def)
  moreover have "(ar_term q, i) \<in> cl_elected c" using implements_leader [OF g replicate(2)] d by simp
  ultimately have "wired members c'" using s1 replicate(1) by (auto simp: implements_def wired_def)
  then have "implements S members c' s1" by (rule implements_messages [OF s1]) (simp_all add: replicate(1))
  then show ?thesis by blast
next
  case (append j q r n')
  then have "j \<in> members" and l: "\<exists>l. l \<noteq> j \<and> (ar_term q, l) \<in> cl_elected c" and "ar_term q < 2 ^ 64"
    using g by (auto simp: implements_def wired_def)
  then show ?thesis
    using contact_implements [OF g _ append_effect [OF append(3)]] append(1) by blast
next
  case (callback i response p sent_at q)
  then show ?thesis using stay_implements [OF g callback(2) callback_effect] by blast
next
  case (propose i e r n')
  then show ?thesis using stay_implements [OF g propose(2) moves_same [OF core_Propose]] by blast
next
  case (apply_entries i)
  then show ?thesis
    using stay_implements [OF g apply_entries(2) moves_same [OF core_ApplyCommittedEntries]] by blast
next
  case (tick i now)
  then show ?thesis
    using stay_implements [OF g tick(2) moves_same [of "(cl_nodes c i)\<lparr>rn_now := now\<rparr>"]] by auto
next
  case (crash i n io m s1 vi dedup si st w e)
  have "rn_self_id n = cc_node_id (cfg_cluster (rn_config n))"
    using g crash(2,3) by (auto simp: implements_def wired_def)
  then show ?thesis
    using stay_implements [OF g crash(2)] restart_effect [OF crash(4) refl] crash(1,3) by blast
qed

lemma init_implements:
  assumes "cluster_init S members c"
  shows "\<exists>s. implements S members c s"
proof -
  define s where "s = \<lparr>vt = (\<lambda>i. if i \<in> members then (ballot (cl_nodes c i),
      \<lparr>rm_current_term = rn_current_term (cl_nodes c i), rm_voted_for = rn_voted_for (cl_nodes c i)\<rparr>)
    else ((0, StFollower, []), default_RaftMeta)), granted = {}, elected = {}\<rparr>"
  have "sim S members c s"
    using assms by (auto simp: sim_def s_def cluster_init_def grants_def)
  moreover have "wired members c" using assms by (auto simp: wired_def cluster_init_def)
  moreover have "votes_inv (majority members) s"
    using assms by (auto simp: votes_inv_def voter_inv_def s_def ballot_def cluster_init_def)
  ultimately show ?thesis by (auto simp: implements_def)
qed

lemma run_implements:
  assumes "(cluster_step False S members)\<^sup>*\<^sup>* c c'" and "cluster_init S members c"
  shows "\<exists>s. implements S members c' s"
  using assms by (induction rule: rtranclp_induct) (auto dest: init_implements step_implements)


end
