(* ===== verification/TopologyChain.thy ===== *)
theory TopologyChain
  imports Topology
begin

text \<open>
  Correctness of the topology manager: what every operation keeps of the node table, the
  two-level chain that \<open>Rebalance\<close> builds, that no healthy follower is left behind an
  unhealthy mentor, and that the view a leader sends is the view a peer installs.
\<close>

section \<open>The node table without addresses\<close>

text \<open>
  The replication structure is in the identity, role, source and health of a node; addresses
  are a separate concern. \<open>cores\<close> forgets them.
\<close>

type_synonym core = "string \<times> NodeRole \<times> string \<times> bool"

definition core :: "NodeInfo \<Rightarrow> core" where
  "core n = (ni_node_id n, ni_role n, ni_source_node_id n, ni_healthy n)"

definition cores :: "TopologyManager \<Rightarrow> string \<Rightarrow> core option" where
  "cores t k = map_option core (map_of (tm_nodes t) k)"

definition topology_ok :: "TopologyManager \<Rightarrow> bool" where
  "topology_ok t \<longleftrightarrow> dmap (tm_nodes t) \<and> list_all (\<lambda>(k, n). ni_node_id n = k \<and> k \<noteq> []) (tm_nodes t)"

named_theorems topo_simps \<open>how the topology operations change leader, self and cores\<close>

lemma topology_ok_id: "topology_ok t \<Longrightarrow> map_of (tm_nodes t) k = Some n \<Longrightarrow> ni_node_id n = k"
  by (auto simp: topology_ok_def list_all_iff dest!: map_of_SomeD)

lemma topology_ok_cores: "topology_ok t \<Longrightarrow> cores t k = Some (i, r, s, h) \<Longrightarrow> i = k"
  by (auto simp: cores_def core_def topology_ok_id)

lemma on_node_frame [topo_simps, simp]:
  "tm_leader_id (on_node k f t) = tm_leader_id t" "tm_self_id (on_node k f t) = tm_self_id t"
  "tm_registered_addrs (on_node k f t) = tm_registered_addrs t"
  by (simp_all add: on_node_def)

lemma map_entry_keys [simp]: "map fst (AList.map_entry k f xs) = map fst xs"
  by (induction xs) auto

lemma map_of_on_node:
  "map_of (tm_nodes (on_node k f t)) k' =
    (if k' = k then map_option f (map_of (tm_nodes t) k) else map_of (tm_nodes t) k')"
  by (auto simp: on_node_def AList.map_of_map_entry split: option.splits)

lemma on_node_ok [simp]:
  "topology_ok t \<Longrightarrow> (\<And>n. ni_node_id (f n) = ni_node_id n) \<Longrightarrow> topology_ok (on_node k f t)"
proof -
  assume f: "\<And>n. ni_node_id (f n) = ni_node_id n"
  have "list_all (\<lambda>(k, n). ni_node_id n = k \<and> k \<noteq> []) xs \<Longrightarrow>
      list_all (\<lambda>(k, n). ni_node_id n = k \<and> k \<noteq> []) (AList.map_entry k f xs)" for xs
    by (induction xs) (auto simp: f)
  then show "topology_ok t \<Longrightarrow> topology_ok (on_node k f t)"
    by (simp add: topology_ok_def on_node_def)
qed

lemma set_addr_frame [topo_simps, simp]:
  "tm_leader_id (set_addr k t) = tm_leader_id t" "tm_self_id (set_addr k t) = tm_self_id t"
  by (simp_all add: set_addr_def)

lemma cores_set_addr [topo_simps, simp]: "cores (set_addr k t) = cores t"
proof (rule ext)
  fix k'
  show "cores (set_addr k t) k' = cores t k'"
    by (cases "map_of (tm_nodes t) k'") (auto simp: cores_def set_addr_def map_of_on_node core_def)
qed

lemma set_addr_ok [simp]: "topology_ok t \<Longrightarrow> topology_ok (set_addr k t)"
  by (simp add: set_addr_def)

lemma EnsureNode_frame [topo_simps, simp]:
  "tm_leader_id (EnsureNodeLocked k t) = tm_leader_id t" "tm_self_id (EnsureNodeLocked k t) = tm_self_id t"
  by (simp_all add: EnsureNodeLocked_def split: option.splits)

lemma EnsureNode_ok [simp]: "topology_ok t \<Longrightarrow> k \<noteq> [] \<Longrightarrow> topology_ok (EnsureNodeLocked k t)"
proof (cases "map_of (tm_nodes t) k")
  case None
  assume ok: "topology_ok t" "k \<noteq> []"
  have "AList.update k v (tm_nodes t) = tm_nodes t @ [(k, v)]" for v
  proof -
    have "map_of xs k = None \<Longrightarrow> AList.update k v xs = xs @ [(k, v)]" for xs
      by (induction xs) (auto split: if_splits)
    then show ?thesis using None .
  qed
  moreover have "k \<notin> fst ` set (tm_nodes t)" using None by (simp add: map_of_eq_None_iff)
  ultimately show ?thesis using ok None
    by (simp add: EnsureNodeLocked_def topology_ok_def)
next
  case (Some n)
  assume ok: "topology_ok t"
  define f where "f = (\<lambda>n :: NodeInfo. let n = (if ni_node_id n = [] then n\<lparr>ni_node_id := k\<rparr> else n)
         in if ni_addr n = [] then n\<lparr>ni_addr := ResolveAddressLocked k t\<rparr> else n)"
  have keep: "list_all (\<lambda>(k, n). ni_node_id n = k \<and> k \<noteq> []) xs \<Longrightarrow>
      list_all (\<lambda>(k, n). ni_node_id n = k \<and> k \<noteq> []) (AList.map_entry k f xs)" for xs
    by (induction xs) (auto simp: f_def Let_def)
  have "EnsureNodeLocked k t = on_node k f t" using Some by (simp add: EnsureNodeLocked_def f_def)
  then show ?thesis using ok keep by (simp add: on_node_def topology_ok_def)
qed

lemma cores_EnsureNode [topo_simps]:
  assumes "topology_ok t"
  shows "cores (EnsureNodeLocked k t) k' =
    (if k' = k then Some (case cores t k of None \<Rightarrow> (k, kFollower, [], True) | Some c \<Rightarrow> c) else cores t k')"
  by (cases "map_of (tm_nodes t) k")
    (auto simp: EnsureNodeLocked_def cores_def map_of_on_node core_def Let_def update_conv' topology_ok_id [OF assms])

definition core_upd :: "(NodeInfo \<Rightarrow> NodeInfo) \<Rightarrow> (core \<Rightarrow> core) \<Rightarrow> bool" where
  "core_upd f g \<longleftrightarrow> (\<forall>n. core (f n) = g (core n))"

lemma cores_on_node:
  "core_upd f g \<Longrightarrow> cores (on_node k f t) k' = (if k' = k then map_option g (cores t k) else cores t k')"
  by (cases "map_of (tm_nodes t) k") (auto simp: cores_def map_of_on_node core_upd_def)

lemma core_upds:
  "core_upd (\<lambda>n. n\<lparr>ni_healthy := h\<rparr>) (\<lambda>(i, r, s, _). (i, r, s, h))"
  "core_upd (\<lambda>n. n\<lparr>ni_role := r'\<rparr>) (\<lambda>(i, _, s, h). (i, r', s, h))"
  "core_upd (\<lambda>n. n\<lparr>ni_source_node_id := s'\<rparr>) (\<lambda>(i, r, _, h). (i, r, s', h))"
  "core_upd (\<lambda>n. n\<lparr>ni_role := r', ni_source_node_id := s'\<rparr>) (\<lambda>(i, _, _, h). (i, r', s', h))"
  "core_upd (\<lambda>n. n\<lparr>ni_healthy := h', ni_role := r'\<rparr>) (\<lambda>(i, _, s, _). (i, r', s, h'))"
  "core_upd (\<lambda>n. n\<lparr>ni_role := r', ni_source_node_id := s', ni_healthy := h'\<rparr>) (\<lambda>(i, _, _, _). (i, r', s', h'))"
  "core_upd (\<lambda>n. n\<lparr>ni_healthy := h', ni_role := r', ni_source_node_id := s'\<rparr>) (\<lambda>(i, _, _, _). (i, r', s', h'))"
  by (simp_all add: core_upd_def core_def)

lemmas cores_on_nodes [topo_simps] = core_upds [THEN cores_on_node]

lemma EnsureLeader_frame [topo_simps, simp]:
  "tm_leader_id (EnsureLeaderLocked t) = tm_leader_id t" "tm_self_id (EnsureLeaderLocked t) = tm_self_id t"
  by (simp_all add: EnsureLeaderLocked_def)

lemma EnsureLeader_ok [simp]: "topology_ok t \<Longrightarrow> topology_ok (EnsureLeaderLocked t)"
  by (simp add: EnsureLeaderLocked_def)

lemma cores_EnsureLeader [topo_simps]:
  assumes "topology_ok t" and "tm_leader_id t \<noteq> []"
  shows "cores (EnsureLeaderLocked t) k =
    (if k = tm_leader_id t then Some (k, kLeader, [], True) else cores t k)"
  using assms topology_ok_cores [OF assms(1), of "tm_leader_id t"]
  by (auto simp: EnsureLeaderLocked_def topo_simps split: option.splits)

section \<open>Rebalance\<close>

lemma map_of_map_values: "map_of (map (\<lambda>(k, v). (k, f k v)) xs) k = map_option (f k) (map_of xs k)"
  by (induction xs) auto

lemma map_values_ok:
  assumes "topology_ok t" and "\<And>k n. ni_node_id (f k n) = ni_node_id n"
  shows "topology_ok (t\<lparr>tm_nodes := map (\<lambda>(k, n). (k, f k n)) (tm_nodes t)\<rparr>)"
proof -
  have "fst \<circ> (\<lambda>(k, n). (k, f k n)) = fst" by auto
  moreover have "list_all (\<lambda>(k, n). ni_node_id n = k \<and> k \<noteq> []) (map (\<lambda>(k, n). (k, f k n)) (tm_nodes t))"
    using assms by (auto simp: topology_ok_def list_all_iff)
  ultimately show ?thesis using assms(1) by (simp add: topology_ok_def)
qed

lemma reset_nodes_ok [simp]: "topology_ok t \<Longrightarrow> topology_ok (reset_nodes t)"
  unfolding reset_nodes_def by (rule map_values_ok) simp_all

lemma reset_nodes_frame [topo_simps, simp]:
  "tm_leader_id (reset_nodes t) = tm_leader_id t" "tm_self_id (reset_nodes t) = tm_self_id t"
  by (simp_all add: reset_nodes_def)

lemma cores_reset_nodes [topo_simps]:
  assumes "topology_ok t"
  shows "cores (reset_nodes t) k = (case cores t k of None \<Rightarrow> None
    | Some _ \<Rightarrow> Some (if k = tm_leader_id t then (k, kLeader, [], True) else (k, kFollower, [], False)))"
  by (cases "map_of (tm_nodes t) k")
    (auto simp: reset_nodes_def cores_def map_of_map_values core_def topology_ok_id [OF assms])

lemma collect_candidates_spec:
  assumes "topology_ok t" and "distinct cs" and "collect_candidates hs cs t = (cs', t')"
    and "\<forall>k \<in> set cs. cores t k = Some (k, kFollower, [], True)"
    and "\<forall>k r s h. cores t k = Some (k, r, s, h) \<and> k \<noteq> tm_leader_id t \<longrightarrow> r = kFollower \<and> s = []"
  shows "topology_ok t' \<and> distinct cs' \<and> set cs' = set cs \<union> (set hs - {[], tm_leader_id t}) \<and>
    tm_leader_id t' = tm_leader_id t \<and> tm_self_id t' = tm_self_id t \<and>
    (\<forall>k. cores t' k = (if k \<in> set cs' then Some (k, kFollower, [], True) else cores t k))"
  using assms
proof (induction hs cs t rule: collect_candidates.induct)
  case (2 x hs cs t)
  show ?case
  proof (cases "x = [] \<or> x = tm_leader_id t \<or> x \<in> set cs")
    case True
    then have "collect_candidates hs cs t = (cs', t')" using 2(5) by auto
    then show ?thesis using True 2(1) [OF True] 2(3,4,6,7) by auto
  next
    case False
    define t1 where "t1 = on_node x (\<lambda>n. n\<lparr>ni_healthy := True\<rparr>) (set_addr x (EnsureNodeLocked x t))"
    have t1: "topology_ok t1" "tm_leader_id t1 = tm_leader_id t" "tm_self_id t1 = tm_self_id t"
      using 2(3) False by (simp_all add: t1_def)
    have "cores t1 x = Some (x, kFollower, [], True)"
    proof (cases "cores t x")
      case (Some c)
      obtain r s h where "c = (x, r, s, h)" using topology_ok_cores [OF 2(3)] Some by (cases c) auto
      then have "cores t x = Some (x, r, s, h) \<and> r = kFollower \<and> s = []" using 2(7) False Some by blast
      then show ?thesis using 2(3) by (simp add: t1_def topo_simps)
    qed (use 2(3) in \<open>simp add: t1_def topo_simps\<close>)
    moreover have "cores t1 k = cores t k" if "k \<noteq> x" for k
      using that 2(3) by (simp add: t1_def topo_simps)
    ultimately have c1: "\<And>k. cores t1 k = (if k = x then Some (x, kFollower, [], True) else cores t k)" by simp
    have run: "collect_candidates hs (cs @ [x]) t1 = (cs', t')" using 2(5) False by (simp add: t1_def)
    have "topology_ok t' \<and> distinct cs' \<and> set cs' = set (cs @ [x]) \<union> (set hs - {[], tm_leader_id t1}) \<and>
        tm_leader_id t' = tm_leader_id t1 \<and> tm_self_id t' = tm_self_id t1 \<and>
        (\<forall>k. cores t' k = (if k \<in> set cs' then Some (k, kFollower, [], True) else cores t1 k))"
    proof (rule 2(2) [OF False, folded t1_def])
      show "\<forall>k\<in>set (cs @ [x]). cores t1 k = Some (k, kFollower, [], True)" using 2(6) by (simp add: c1)
      show "\<forall>k r s h. cores t1 k = Some (k, r, s, h) \<and> k \<noteq> tm_leader_id t1 \<longrightarrow> r = kFollower \<and> s = []"
        using 2(7) by (auto simp: c1 t1)
    qed (use run t1 2(4) False in simp_all)
    then show ?thesis using t1 False by (auto simp: c1)
  qed
qed auto

lemma assign_roles_spec:
  assumes "topology_ok t" and "distinct xs" and "\<forall>k \<in> set xs. \<exists>r s. cores t k = Some (k, r, s, True)"
    and "i + length xs \<le> 2 * mc" and "length ms = min i mc"
  shows "topology_ok (assign_roles mc i ms xs t) \<and> tm_leader_id (assign_roles mc i ms xs t) = tm_leader_id t \<and>
    tm_self_id (assign_roles mc i ms xs t) = tm_self_id t \<and>
    (\<forall>k. k \<notin> set xs \<longrightarrow> cores (assign_roles mc i ms xs t) k = cores t k) \<and>
    (\<forall>j < length xs. cores (assign_roles mc i ms xs t) (xs ! j) =
       Some (if i + j < mc then (xs ! j, kMentor, tm_leader_id t, True)
             else (xs ! j, kFollower, (ms @ xs) ! (i + j - mc), True)))"
  using assms
proof (induction mc i ms xs t rule: assign_roles.induct)
  case (2 mc i ms x xs t)
  obtain r s where x: "cores t x = Some (x, r, s, True)" using 2(5) by auto
  then obtain n where n: "map_of (tm_nodes t) x = Some n" "ni_node_id n = x" by (auto simp: cores_def core_def)
  define ms' where "ms' = (if i < mc then ms @ [x] else ms)"
  define c where "c = (if i < mc then (x, kMentor, tm_leader_id t, True) else (x, kFollower, ms ! (i - mc), True))"
  define t1 where "t1 = on_node x (\<lambda>n. if i < mc then n\<lparr>ni_role := kMentor, ni_source_node_id := tm_leader_id t\<rparr>
     else n\<lparr>ni_role := kFollower, ni_source_node_id := ms ! (i - mc)\<rparr>) t"
  have step: "assign_roles mc i ms (x # xs) t = assign_roles mc (Suc i) ms' xs t1"
    by (simp add: n ms'_def t1_def)
  have t1: "topology_ok t1" "tm_leader_id t1 = tm_leader_id t" "tm_self_id t1 = tm_self_id t"
    "cores t1 k = (if k = x then Some c else cores t k)" for k
    using 2(3) x by (auto simp: t1_def c_def topo_simps)
  have IH: "topology_ok (assign_roles mc (Suc i) ms' xs t1) \<and>
      tm_leader_id (assign_roles mc (Suc i) ms' xs t1) = tm_leader_id t1 \<and>
      tm_self_id (assign_roles mc (Suc i) ms' xs t1) = tm_self_id t1 \<and>
      (\<forall>k. k \<notin> set xs \<longrightarrow> cores (assign_roles mc (Suc i) ms' xs t1) k = cores t1 k) \<and>
      (\<forall>j < length xs. cores (assign_roles mc (Suc i) ms' xs t1) (xs ! j) =
         Some (if Suc i + j < mc then (xs ! j, kMentor, tm_leader_id t1, True)
               else (xs ! j, kFollower, (ms' @ xs) ! (Suc i + j - mc), True)))"
  proof (cases "i < mc")
    case True
    have "length (ms @ [x]) = min (Suc i) mc" using 2(7) True by simp
    then show ?thesis
      using 2(1) [OF True] True 2(4,5,6) t1 n by (simp add: ms'_def t1_def)
  next
    case False
    then show ?thesis
      using 2(2) [OF False] 2(4-7) t1 by (simp add: ms'_def t1_def)
  qed
  have "cores (assign_roles mc (Suc i) ms' xs t1) ((x # xs) ! j) =
      Some (if i + j < mc then ((x # xs) ! j, kMentor, tm_leader_id t, True)
            else ((x # xs) ! j, kFollower, (ms @ x # xs) ! (i + j - mc), True))"
    if j: "j < length (x # xs)" for j
  proof (cases j)
    case 0
    have "ms ! (i - mc) = (ms @ x # xs) ! (i - mc)" if "\<not> i < mc"
    proof -
      have "i - mc < length ms" using that 2(6,7) by simp
      then show ?thesis by (simp add: nth_append)
    qed
    then show ?thesis using IH 2(4) t1(4) 0 by (simp add: c_def)
  next
    case (Suc j')
    have "(ms' @ xs) ! (Suc i + j' - mc) = (ms @ x # xs) ! (i + j - mc)" if "\<not> i + j < mc"
      using that 2(6,7) j Suc by (auto simp: ms'_def nth_append)
    then show ?thesis using IH j Suc t1(2) by simp
  qed
  then show ?case using IH 2(4) t1 unfolding step by (simp del: assign_roles.simps)
qed simp

text \<open>The nodes that \<open>Rebalance\<close> places, in the order in which it places them.\<close>

definition chain_members :: "string \<Rightarrow> string list \<Rightarrow> string list" where
  "chain_members leader healthy = sorted_list_of_set (set healthy - {[], leader})"

definition acting_leader :: "TopologyManager \<Rightarrow> string" where
  "acting_leader t = (if tm_leader_id t = [] then tm_self_id t else tm_leader_id t)"

lemma Rebalance_cores:
  fixes t :: TopologyManager and hs :: "string list"
  assumes "topology_ok t" and "acting_leader t \<noteq> []"
  defines "l \<equiv> acting_leader t"
  defines "cs \<equiv> chain_members l hs"
  defines "mc \<equiv> (length cs + 1) div 2"
  obtains t' where "Topology_Rebalance hs t = (Ok (), t')" and "topology_ok t'" and "tm_leader_id t' = l"
    and "\<And>k. k \<notin> set cs \<Longrightarrow> cores t' k = (if k = l then Some (l, kLeader, [], True)
       else if cores t k = None then None else Some (k, kFollower, [], False))"
    and "\<And>j. j < length cs \<Longrightarrow> cores t' (cs ! j) = Some (if j < mc then (cs ! j, kMentor, l, True)
       else (cs ! j, kFollower, cs ! (j - mc), True))"
proof -
  define t0 where "t0 = (if tm_leader_id t = [] then t\<lparr>tm_leader_id := tm_self_id t\<rparr> else t)"
  define t1 where "t1 = reset_nodes (EnsureLeaderLocked t0)"
  obtain cs' t2 where coll: "collect_candidates hs [] t1 = (cs', t2)" by fastforce
  have t0: "topology_ok t0" "tm_leader_id t0 = l" "cores t0 = cores t"
    using assms(1) by (auto simp: t0_def l_def acting_leader_def topology_ok_def cores_def fun_eq_iff)
  have t1: "topology_ok t1" "tm_leader_id t1 = l"
    "cores t1 k = (if k = l then Some (l, kLeader, [], True)
       else if cores t k = None then None else Some (k, kFollower, [], False))" for k
    using t0 assms(2) by (auto simp: t1_def topo_simps l_def split: option.splits)
  have t2: "topology_ok t2 \<and> distinct cs' \<and> set cs' = set [] \<union> (set hs - {[], tm_leader_id t1}) \<and>
      tm_leader_id t2 = tm_leader_id t1 \<and> tm_self_id t2 = tm_self_id t1 \<and>
      (\<forall>k. cores t2 k = (if k \<in> set cs' then Some (k, kFollower, [], True) else cores t1 k))"
    by (rule collect_candidates_spec [OF t1(1) _ coll]) (auto simp: t1 split: if_splits)
  have cs: "sort cs' = cs"
    unfolding cs_def chain_members_def
    using t2 t1(2) sorted_list_of_set_sort_remdups [of cs'] by (simp add: distinct_remdups_id)
  let ?t' = "assign_roles mc 0 [] cs t2"
  have t3: "topology_ok ?t' \<and> tm_leader_id ?t' = tm_leader_id t2 \<and> tm_self_id ?t' = tm_self_id t2 \<and>
      (\<forall>k. k \<notin> set cs \<longrightarrow> cores ?t' k = cores t2 k) \<and>
      (\<forall>j < length cs. cores ?t' (cs ! j) =
        Some (if 0 + j < mc then (cs ! j, kMentor, tm_leader_id t2, True)
              else (cs ! j, kFollower, ([] @ cs) ! (0 + j - mc), True)))"
    by (rule assign_roles_spec) (use t2 in \<open>auto simp: cs [symmetric] mc_def\<close>)
  have mem: "set cs = set cs'" by (simp add: cs [symmetric])
  show ?thesis
  proof (rule that)
    have "\<not> (tm_leader_id t = [] \<and> tm_self_id t = [])" using assms(2) by (auto simp: acting_leader_def)
    then show "Topology_Rebalance hs t = (Ok (), ?t')"
      by (simp add: Topology_Rebalance_def Let_def t0_def [symmetric] t1_def [symmetric] coll cs mc_def
          cs [THEN arg_cong [of _ _ length], simplified])
  qed (use t1 t2 t3 mem in auto)
qed

text \<open>Healthy followers of a node, found by scanning the table.\<close>

lemma FindFollower_Some:
  assumes "topology_ok t" and "FindFollowerIdOfLocked m t = Some k"
  shows "cores t k = Some (k, kFollower, m, True)"
proof -
  obtain n where "(k, n) \<in> set (tm_nodes t)" and n: "ni_healthy n" "ni_role n = kFollower" "ni_source_node_id n = m"
    using assms(2) by (auto simp: FindFollowerIdOfLocked_def find_Some_iff dest: nth_mem)
  then have "map_of (tm_nodes t) k = Some n" using assms(1) by (simp add: topology_ok_def)
  then show ?thesis using n topology_ok_id [OF assms(1)] by (simp add: cores_def core_def)
qed

lemma FindFollower_None:
  assumes "FindFollowerIdOfLocked m t = None"
  shows "cores t k \<noteq> Some (k, kFollower, m, True)"
  using assms
  by (auto simp: FindFollowerIdOfLocked_def find_None_iff cores_def core_def dest: map_of_SomeD)

lemma FindFollower_unique:
  assumes "topology_ok t" and "\<And>k. cores t k = Some (k, kFollower, m, True) \<longleftrightarrow> f = Some k"
  shows "FindFollowerIdOfLocked m t = f"
proof (cases "FindFollowerIdOfLocked m t")
  case None
  then show ?thesis using FindFollower_None [OF None] assms(2) by (cases f) auto
next
  case (Some k)
  then show ?thesis using FindFollower_Some [OF assms(1) Some] assms(2) by simp
qed

lemma cores_query:
  assumes "topology_ok t"
  shows "Topology_GetRole k t = (case cores t k of None \<Rightarrow> kFollower | Some (_, r, _, _) \<Rightarrow> r)"
    and "Topology_GetSource k t = (case cores t k of None \<Rightarrow> [] | Some (_, _, s, _) \<Rightarrow> s)"
    and "map_option core (Topology_GetNode k t) = cores t k"
    and "map_option ni_node_id (Topology_GetFollowerOf k t) = FindFollowerIdOfLocked k t"
proof -
  show "map_option ni_node_id (Topology_GetFollowerOf k t) = FindFollowerIdOfLocked k t"
    using FindFollower_Some [OF assms] topology_ok_id [OF assms]
    by (fastforce simp: Topology_GetFollowerOf_def cores_def split: option.splits)
qed (auto simp: Topology_GetRole_def Topology_GetSource_def Topology_GetNode_def cores_def core_def split: option.splits)

text \<open>
  C18: \<open>Rebalance\<close> builds the two-level chain out of the healthy nodes, whatever order and
  repetitions the list of healthy nodes has. With the members sorted, the first half (rounded
  up) are mentors fed by the leader; member \<open>mc + j\<close> is the one follower of mentor \<open>j\<close>, and no
  mentor has another; every other node of the table is unhealthy.
\<close>

theorem rebalance_chain:
  assumes "topology_ok t" and "acting_leader t \<noteq> []"
    and "l = acting_leader t" and "cs = chain_members l healthy" and "mc = (length cs + 1) div 2"
  shows "\<exists>t'. Topology_Rebalance healthy t = (Ok (), t') \<and> topology_ok t' \<and>
    tm_leader_id t' = l \<and> Topology_GetRole l t' = kLeader \<and>
    (\<forall>j < mc. Topology_GetRole (cs ! j) t' = kMentor \<and> Topology_GetSource (cs ! j) t' = l \<and>
       map_option ni_node_id (Topology_GetFollowerOf (cs ! j) t') =
         (if mc + j < length cs then Some (cs ! (mc + j)) else None)) \<and>
    (\<forall>j. mc \<le> j \<and> j < length cs \<longrightarrow>
       Topology_GetRole (cs ! j) t' = kFollower \<and> Topology_GetSource (cs ! j) t' = cs ! (j - mc)) \<and>
    (\<forall>k n. Topology_GetNode k t' = Some n \<longrightarrow> ni_healthy n = (k = l \<or> k \<in> set cs))"
proof -
  have d: "distinct cs" and l: "l \<notin> set cs" by (simp_all add: assms(4) chain_members_def)
  obtain t' where run: "Topology_Rebalance healthy t = (Ok (), t')" and ok: "topology_ok t'" "tm_leader_id t' = l"
    and out: "\<And>k. k \<notin> set cs \<Longrightarrow> cores t' k = (if k = l then Some (l, kLeader, [], True)
       else if cores t k = None then None else Some (k, kFollower, [], False))"
    and mem: "\<And>j. j < length cs \<Longrightarrow> cores t' (cs ! j) = Some (if j < mc then (cs ! j, kMentor, l, True)
       else (cs ! j, kFollower, cs ! (j - mc), True))"
    using Rebalance_cores [OF assms(1,2), of healthy] unfolding assms(3-5) by metis
  have mc: "j < length cs" if "j < mc" for j using that by (simp add: assms(5))
  have follower: "FindFollowerIdOfLocked (cs ! j) t' = (if mc + j < length cs then Some (cs ! (mc + j)) else None)"
    if j: "j < mc" for j
  proof (rule FindFollower_unique [OF ok(1)])
    fix k
    show "cores t' k = Some (k, kFollower, cs ! j, True) \<longleftrightarrow>
        (if mc + j < length cs then Some (cs ! (mc + j)) else None) = Some k"
    proof (cases "k \<in> set cs")
      case True
      then obtain i where i: "i < length cs" "k = cs ! i" by (auto simp: in_set_conv_nth)
      have idx: "cs ! a = cs ! b \<longleftrightarrow> a = b" if "a < length cs" "b < length cs" for a b
        using that d by (simp add: nth_eq_iff_index_eq)
      show ?thesis using i mem [of i] idx [of "i - mc" j] idx [of "mc + j" i] mc [OF j] by auto
    next
      case False
      then have "k \<noteq> cs ! (mc + j)" if "mc + j < length cs" using that by auto
      then show ?thesis using out [OF False] by auto
    qed
  qed
  have health: "ni_healthy n = (k = l \<or> k \<in> set cs)" if n: "Topology_GetNode k t' = Some n" for k n
  proof -
    have c: "cores t' k = Some (core n)" using n cores_query(3) [OF ok(1), of k] by simp
    show ?thesis
    proof (cases "k \<in> set cs")
      case True
      then obtain i where "i < length cs" "k = cs ! i" by (auto simp: in_set_conv_nth)
      then show ?thesis using c mem [of i] True by (auto simp: core_def split: if_splits)
    next
      case False
      then show ?thesis using c out [OF False] by (auto simp: core_def split: if_splits)
    qed
  qed
  have "Topology_GetRole l t' = kLeader" using out [OF l] by (simp add: cores_query [OF ok(1)])
  moreover have "Topology_GetRole (cs ! j) t' = kMentor \<and> Topology_GetSource (cs ! j) t' = l \<and>
       map_option ni_node_id (Topology_GetFollowerOf (cs ! j) t') =
         (if mc + j < length cs then Some (cs ! (mc + j)) else None)" if "j < mc" for j
    using that mem [OF mc [OF that]] follower [OF that] by (simp add: cores_query [OF ok(1)])
  moreover have "Topology_GetRole (cs ! j) t' = kFollower \<and> Topology_GetSource (cs ! j) t' = cs ! (j - mc)"
    if "mc \<le> j \<and> j < length cs" for j
    using that mem [of j] by (simp add: cores_query [OF ok(1)])
  ultimately show ?thesis using run ok health by blast
qed

theorem rebalance_chain_witness:
  "\<exists>t'. Topology_Rebalance [''n3'', ''n2'', ''n1'', ''n2''] (TopologyManager_new ''n1'' ''h:1'') = (Ok (), t') \<and>
    Topology_GetRole ''n2'' t' = kMentor \<and> Topology_GetSource ''n3'' t' = ''n2''"
proof -
  let ?t = "TopologyManager_new ''n1'' ''h:1''"
  have ok: "topology_ok ?t" and l: "acting_leader ?t = ''n1''"
    by (simp_all add: TopologyManager_new_def Topology_RegisterNode_def register_def EnsureNodeLocked_def
        set_addr_def on_node_def topology_ok_def acting_leader_def)
  have cs: "chain_members ''n1'' [''n3'', ''n2'', ''n1'', ''n2''] = [''n2'', ''n3'']"
    by (simp add: chain_members_def insert_Diff_if)
  show ?thesis
    using rebalance_chain [OF ok _ refl refl refl, of "[''n3'', ''n2'', ''n1'', ''n2'']"] unfolding l cs by fastforce
qed

section \<open>The table stays well formed\<close>

lemma register_core [topo_simps, simp]:
  "cores (register k a t) = cores t" "tm_leader_id (register k a t) = tm_leader_id t"
  "tm_self_id (register k a t) = tm_self_id t" "topology_ok (register k a t) = topology_ok t"
  by (simp_all add: register_def cores_def topology_ok_def fun_eq_iff)

lemma topology_field_updates [simp]:
  "topology_ok (t\<lparr>tm_leader_id := l\<rparr>) = topology_ok t" "topology_ok (t\<lparr>tm_self_addr := a\<rparr>) = topology_ok t"
  "topology_ok (t\<lparr>tm_self_id := i\<rparr>) = topology_ok t"
  "cores (t\<lparr>tm_leader_id := l\<rparr>) = cores t" "cores (t\<lparr>tm_self_addr := a\<rparr>) = cores t"
  "cores (t\<lparr>tm_self_id := i\<rparr>) = cores t"
  by (simp_all add: topology_ok_def cores_def fun_eq_iff)

lemma reassign_one_ok [simp]:
  "topology_ok t \<Longrightarrow> topology_ok (reassign_one k t)"
  "tm_leader_id (reassign_one k t) = tm_leader_id t" "tm_self_id (reassign_one k t) = tm_self_id t"
  by (simp_all add: reassign_one_def)

lemma fold_reassign_ok:
  "topology_ok t \<Longrightarrow> topology_ok (fold reassign_one fs t)"
  by (induction fs arbitrary: t) simp_all

lemma Reassign_ok [simp]: "topology_ok t \<Longrightarrow> topology_ok (ReassignFollowersLocked a b t)"
  by (simp add: ReassignFollowersLocked_def fold_reassign_ok)

lemma Normalize_ok [simp]: "topology_ok t \<Longrightarrow> topology_ok (NormalizeMentorSourcesLocked t)"
  unfolding NormalizeMentorSourcesLocked_def Let_def
  by (simp del: topology_field_updates) (intro impI map_values_ok; simp)

lemma RegisterNode_ok [simp]: "topology_ok t \<Longrightarrow> topology_ok (Topology_RegisterNode k a t)"
  by (simp add: Topology_RegisterNode_def)

lemma RegisterNodes_ok [simp]: "topology_ok t \<Longrightarrow> topology_ok (Topology_RegisterNodes ns t)"
  unfolding Topology_RegisterNodes_def by (induction ns arbitrary: t) (simp_all add: case_prod_unfold)

lemma SetSelf_ok [simp]: "topology_ok t \<Longrightarrow> topology_ok (Topology_SetSelf i a t)"
  by (simp add: Topology_SetSelf_def Let_def)

lemma SetLeader_ok [simp]: "topology_ok t \<Longrightarrow> topology_ok (Topology_SetLeader l a t)"
  by (auto simp: Topology_SetLeader_def Let_def intro!: EnsureLeader_ok)

lemma Rebalance_ok [simp]: "topology_ok t \<Longrightarrow> topology_ok (snd (Topology_Rebalance hs t))"
proof (cases "acting_leader t = []")
  case True
  then show "topology_ok t \<Longrightarrow> topology_ok (snd (Topology_Rebalance hs t))"
    by (auto simp: Topology_Rebalance_def acting_leader_def split: if_splits)
next
  case False
  assume "topology_ok t"
  then show ?thesis by (rule Rebalance_cores [OF _ False, of hs]) simp
qed

lemma apply_source_ok [simp]: "topology_ok t \<Longrightarrow> topology_ok (apply_source k t)"
  by (simp add: apply_source_def Let_def)

lemma apply_follower_ok [simp]: "topology_ok t \<Longrightarrow> topology_ok (apply_follower k f t)"
  by (simp add: apply_follower_def Let_def split: option.split)

lemma FromProto_ok [simp]: "topology_ok t \<Longrightarrow> topology_ok (snd (Topology_FromProto k p a t))"
  by (auto simp: Topology_FromProto_def Let_def split: sum.split
      intro!: Normalize_ok apply_follower_ok apply_source_ok on_node_ok set_addr_ok EnsureNode_ok)

text \<open>The operations of the manager as data, so that their sequences can be spoken of.\<close>

datatype topology_op =
    SetSelf string string | SetLeader string string | RegisterNode string string
  | RegisterNodes "(string \<times> string) list" | Rebalance "string list" | PromoteToMentor string
  | DemoteToFollower string | SwapFollowers string string | MarkUnhealthy string | MarkHealthy string
  | FromProto string TopologyInfo string

fun topology_step :: "topology_op \<Rightarrow> TopologyManager \<Rightarrow> TopologyManager" where
  "topology_step (SetSelf i a) t = Topology_SetSelf i a t"
| "topology_step (SetLeader l a) t = Topology_SetLeader l a t"
| "topology_step (RegisterNode k a) t = Topology_RegisterNode k a t"
| "topology_step (RegisterNodes ns) t = Topology_RegisterNodes ns t"
| "topology_step (Rebalance hs) t = snd (Topology_Rebalance hs t)"
| "topology_step (PromoteToMentor k) t = Topology_PromoteToMentor k t"
| "topology_step (DemoteToFollower k) t = Topology_DemoteToFollower k t"
| "topology_step (SwapFollowers a b) t = Topology_SwapFollowers a b t"
| "topology_step (MarkUnhealthy k) t = Topology_MarkUnhealthy k t"
| "topology_step (MarkHealthy k) t = Topology_MarkHealthy k t"
| "topology_step (FromProto k p a) t = snd (Topology_FromProto k p a t)"

lemma topology_step_ok: "topology_ok t \<Longrightarrow> topology_ok (topology_step op t)"
  by (cases op)
    (auto simp: Topology_PromoteToMentor_def Topology_DemoteToFollower_def Topology_SwapFollowers_def
      Topology_MarkUnhealthy_def Topology_MarkHealthy_def Let_def split: option.split)

lemma TopologyManager_new_ok [simp]: "topology_ok (TopologyManager_new i a)"
proof -
  have "topology_ok \<lparr>tm_self_id = i, tm_self_addr = a, tm_leader_id = [],
               tm_registered_addrs = [], tm_nodes = []\<rparr>" by (simp add: topology_ok_def)
  then show ?thesis unfolding TopologyManager_new_def Let_def by (cases "i = []") (simp_all del: topology_ok_def)
qed

lemma topology_run_ok: "topology_ok t \<Longrightarrow> topology_ok (fold topology_step ops t)"
  by (induction ops arbitrary: t) (simp_all add: topology_step_ok)

section \<open>Failing over a mentor\<close>

lemma SelectSource_in:
  assumes "s = SelectSourceForFollowerLocked f t"
  shows "s \<in> set (SortedMentorIdsLocked t) \<or> (s = tm_leader_id t \<and> s \<noteq> f) \<or> s = []"
  using assms by (auto simp: SelectSourceForFollowerLocked_def find_Some_iff split: option.splits if_splits)

lemma SortedMentors_cores:
  assumes "topology_ok t"
  shows "m \<in> set (SortedMentorIdsLocked t) \<longleftrightarrow> (\<exists>s. cores t m = Some (m, kMentor, s, True))"
proof
  assume "m \<in> set (SortedMentorIdsLocked t)"
  then obtain n where "(m, n) \<in> set (tm_nodes t)" "ni_healthy n" "ni_role n = kMentor"
    by (auto simp: SortedMentorIdsLocked_def)
  then show "\<exists>s. cores t m = Some (m, kMentor, s, True)"
    using assms topology_ok_id [OF assms] by (simp add: topology_ok_def cores_def core_def)
next
  assume "\<exists>s. cores t m = Some (m, kMentor, s, True)"
  then obtain n where "(m, n) \<in> set (tm_nodes t)" "ni_healthy n" "ni_role n = kMentor"
    by (auto simp: cores_def core_def dest: map_of_SomeD)
  then show "m \<in> set (SortedMentorIdsLocked t)" by (force simp: SortedMentorIdsLocked_def)
qed

lemma cores_reassign_one:
  "cores (reassign_one f t) k = (if k = f
     then map_option (\<lambda>(i, r, _, h). (i, r, SelectSourceForFollowerLocked f t, h)) (cores t f) else cores t k)"
  by (simp add: reassign_one_def topo_simps)

text \<open>Sources a follower may be moved to: a healthy mentor, the leader, or none at all.\<close>

definition good_source :: "string \<Rightarrow> TopologyManager \<Rightarrow> string \<Rightarrow> bool" where
  "good_source bad t s \<longleftrightarrow> s \<noteq> bad \<and>
     (s = [] \<or> s = tm_leader_id t \<or> (\<exists>src. cores t s = Some (s, kMentor, src, True)))"

lemma fold_reassign:
  assumes "topology_ok t" and "bad \<noteq> []" and "bad \<noteq> tm_leader_id t"
    and "\<forall>s h. cores t bad = Some (bad, kMentor, s, h) \<longrightarrow> False"
    and "\<forall>f \<in> set fs. \<exists>s. cores t f = Some (f, kFollower, s, True)"
  shows "\<forall>k. case cores (fold reassign_one fs t) k of
      None \<Rightarrow> cores t k = None
    | Some (i, r, s, h) \<Rightarrow> \<exists>s0. cores t k = Some (i, r, s0, h) \<and> (if k \<in> set fs then good_source bad t s else s = s0)"
  using assms
proof (induction fs arbitrary: t)
  case Nil
  then show ?case by (auto split: option.splits)
next
  case (Cons f fs)
  let ?t1 = "reassign_one f t" and ?src = "SelectSourceForFollowerLocked f t"
  obtain s0 where f: "cores t f = Some (f, kFollower, s0, True)" using Cons.prems(5) by auto
  have c1: "cores ?t1 k = (if k = f then Some (f, kFollower, ?src, True) else cores t k)" for k
    using f by (simp add: cores_reassign_one)
  have ment: "cores ?t1 m = Some (m, kMentor, s, h) \<longleftrightarrow> cores t m = Some (m, kMentor, s, h)" for m s h
    using f by (simp add: c1)
  have gs: "good_source bad ?t1 s \<longleftrightarrow> good_source bad t s" for s
    by (simp add: good_source_def ment)
  have src: "good_source bad t ?src"
    using SelectSource_in [OF refl, of f t] Cons.prems(1-4)
    by (auto simp: good_source_def SortedMentors_cores)
  have IH: "\<forall>k. case cores (fold reassign_one fs ?t1) k of
      None \<Rightarrow> cores ?t1 k = None
    | Some (i, r, s, h) \<Rightarrow> \<exists>s0. cores ?t1 k = Some (i, r, s0, h) \<and>
        (if k \<in> set fs then good_source bad ?t1 s else s = s0)"
    by (rule Cons.IH) (use Cons.prems in \<open>auto simp: ment c1\<close>)
  show ?case
  proof
    fix k
    show "case cores (fold reassign_one (f # fs) t) k of None \<Rightarrow> cores t k = None
      | Some (i, r, s, h) \<Rightarrow> \<exists>s0. cores t k = Some (i, r, s0, h) \<and>
          (if k \<in> set (f # fs) then good_source bad t s else s = s0)"
      using IH [rule_format, of k] f src by (auto simp: c1 gs split: option.splits if_splits)
  qed
qed

text \<open>
  C24: marking a node unhealthy never leaves a healthy follower behind it. Every follower it
  fed is moved to a healthy mentor, to the leader or to no source; nobody else is moved.
\<close>

theorem mark_unhealthy_detaches:
  assumes "topology_ok t" and "bad \<noteq> []" and "bad \<noteq> tm_leader_id t"
  defines "t' \<equiv> Topology_MarkUnhealthy bad t"
  shows "Topology_GetFollowerOf bad t' = None \<and> bad \<notin> set (SortedMentorIdsLocked t') \<and>
    (\<forall>k n. Topology_GetNode k t' = Some n \<and> k \<noteq> bad \<and> ni_source_node_id n \<noteq> Topology_GetSource k t \<longrightarrow>
       Topology_GetSource k t = bad \<and>
       (ni_source_node_id n \<in> set (SortedMentorIdsLocked t') \<union> {tm_leader_id t, []}))"
proof -
  define t1 where "t1 = on_node bad (\<lambda>n. n\<lparr>ni_healthy := False, ni_role := kFollower, ni_source_node_id := []\<rparr>)
    (EnsureNodeLocked bad t)"
  define fs where "fs = sort (map fst (filter (\<lambda>(k, n). ni_healthy n \<and> ni_role n = kFollower \<and>
     ni_source_node_id n = bad \<and> k \<noteq> []) (tm_nodes t1)))"
  have t1: "topology_ok t1" "tm_leader_id t1 = tm_leader_id t" using assms(1,2) by (simp_all add: t1_def)
  have c1: "cores t1 k = (if k = bad then Some (bad, kFollower, [], False) else cores t k)" for k
    using assms(1) topology_ok_cores [OF assms(1), of bad] by (auto simp: t1_def topo_simps split: option.splits)
  have run: "t' = fold reassign_one fs t1"
    using assms(2,3) by (simp add: t'_def Let_def Topology_MarkUnhealthy_def ReassignFollowersLocked_def t1_def fs_def)
  have fs: "f \<in> set fs \<longleftrightarrow> cores t1 f = Some (f, kFollower, bad, True)" for f
  proof
    assume "f \<in> set fs"
    then obtain n where "(f, n) \<in> set (tm_nodes t1)" "ni_healthy n" "ni_role n = kFollower" "ni_source_node_id n = bad"
      by (auto simp: fs_def)
    then show "cores t1 f = Some (f, kFollower, bad, True)"
      using t1(1) topology_ok_id [OF t1(1)] by (simp add: topology_ok_def cores_def core_def)
  next
    assume c: "cores t1 f = Some (f, kFollower, bad, True)"
    then obtain n where n: "(f, n) \<in> set (tm_nodes t1)" "ni_healthy n" "ni_role n = kFollower" "ni_source_node_id n = bad"
      by (auto simp: cores_def core_def dest: map_of_SomeD)
    then have "f \<noteq> []" using t1(1) by (auto simp: topology_ok_def list_all_iff)
    then show "f \<in> set fs" using n by (force simp: fs_def)
  qed
  have ok: "topology_ok t'" unfolding run by (rule fold_reassign_ok [OF t1(1)])
  have all: "case cores t' k of None \<Rightarrow> cores t1 k = None
    | Some (i, r, s, h) \<Rightarrow> \<exists>s0. cores t1 k = Some (i, r, s0, h) \<and> (if k \<in> set fs then good_source bad t1 s else s = s0)" for k
    unfolding run by (rule fold_reassign [THEN spec]) (use t1 assms(2,3) in \<open>simp_all add: c1 fs\<close>)
  have ment: "cores t' m = Some (m, kMentor, s, True) \<longleftrightarrow> cores t1 m = Some (m, kMentor, s, True)" for m s
    using all [of m] fs [of m] by (auto split: option.splits)
  have "FindFollowerIdOfLocked bad t' = None"
  proof (rule FindFollower_unique [OF ok])
    fix k
    show "cores t' k = Some (k, kFollower, bad, True) \<longleftrightarrow> None = Some k"
      using all [of k] fs [of k] by (auto simp: good_source_def split: if_splits)
  qed
  moreover have "bad \<notin> set (SortedMentorIdsLocked t')" by (simp add: SortedMentors_cores [OF ok] ment c1)
  moreover have "Topology_GetSource k t = bad \<and>
      ni_source_node_id n \<in> set (SortedMentorIdsLocked t') \<union> {tm_leader_id t, []}"
    if n: "Topology_GetNode k t' = Some n" "k \<noteq> bad" "ni_source_node_id n \<noteq> Topology_GetSource k t" for k n
  proof -
    have c: "cores t' k = Some (core n)" using n(1) cores_query(3) [OF ok, of k] by simp
    have "k \<in> set fs" using all [of k] c n(2,3) by (auto simp: core_def c1 cores_query [OF assms(1)] split: if_splits)
    moreover have "good_source bad t1 (ni_source_node_id n)" using all [of k] c calculation by (simp add: core_def)
    ultimately show ?thesis using fs [of k] n(2) t1(2)
      by (auto simp: c1 good_source_def cores_query [OF assms(1)] SortedMentors_cores [OF ok] ment)
  qed
  ultimately show ?thesis by (auto simp: Topology_GetFollowerOf_def)
qed

theorem mark_unhealthy_detaches_witness:
  "Topology_GetFollowerOf ''n2'' (Topology_MarkUnhealthy ''n2'' (fold topology_step
     [SetLeader ''n1'' [], Rebalance [''n2'', ''n3'']] (TopologyManager_new ''n1'' ''h:1''))) = None"
proof -
  let ?t = "fold topology_step [SetLeader ''n1'' [], Rebalance [''n2'', ''n3'']] (TopologyManager_new ''n1'' ''h:1'')"
  have ok: "topology_ok ?t" by (rule topology_run_ok) simp
  have "tm_leader_id ?t = ''n1''"
    by (rule Rebalance_cores [of "Topology_SetLeader ''n1'' [] (TopologyManager_new ''n1'' ''h:1'')" "[''n2'', ''n3'']"])
      (simp_all add: acting_leader_def Topology_SetLeader_def)
  then show ?thesis using mark_unhealthy_detaches [OF ok, of "''n2''"] by simp
qed

section \<open>Views\<close>

lemma cores_Normalize:
  assumes "topology_ok t" and "tm_leader_id t \<noteq> []"
  shows "cores (NormalizeMentorSourcesLocked t) k =
    (if k = tm_leader_id t then Some (k, kLeader, [], True)
     else map_option (\<lambda>(i, r, s, h). (i, r, if r = kMentor then tm_leader_id t else s, h)) (cores t k))"
proof -
  let ?t1 = "EnsureLeaderLocked t"
  have n: "cores (NormalizeMentorSourcesLocked t) k = map_option (\<lambda>(i, r, s, h).
      if k = tm_leader_id t then (i, kLeader, [], h)
      else (i, r, if r = kMentor then tm_leader_id t else s, h)) (cores ?t1 k)"
    using assms(2)
    by (cases "map_of (tm_nodes ?t1) k")
      (auto simp: NormalizeMentorSourcesLocked_def Let_def cores_def map_of_map_values core_def)
  show ?thesis unfolding n using assms by (simp add: cores_EnsureLeader)
qed

lemma Normalize_no_leader: "tm_leader_id t = [] \<Longrightarrow> NormalizeMentorSourcesLocked t = t"
  by (simp add: NormalizeMentorSourcesLocked_def)

text \<open>The first half of \<open>FromProto\<close>: the node takes the role and the source of the view.\<close>

lemma FromProto_start:
  assumes "topology_ok r" and "x \<noteq> []"
  obtains r3 where "topology_ok r3" and "tm_leader_id r3 = tm_leader_id r"
    and "\<And>k. cores r3 k = (if k = x then Some (x, role, src, True) else cores r k)"
    and "\<And>p. ti_role p = RoleToString role \<Longrightarrow> ti_source_node_id p = src \<Longrightarrow>
      Topology_FromProto x p a r = (Ok (), NormalizeMentorSourcesLocked
        (apply_follower x (ti_follower_node_id p) (apply_source x r3)))"
proof -
  define r1 where "r1 = (if a \<noteq> [] then (let t = register x a r
      in if x = tm_self_id t then t\<lparr>tm_self_addr := a\<rparr> else t) else r)"
  define r3 where "r3 = on_node x (\<lambda>n. n\<lparr>ni_role := role, ni_source_node_id := src, ni_healthy := True\<rparr>)
     (set_addr x (EnsureNodeLocked x r1))"
  have r1: "topology_ok r1" "tm_leader_id r1 = tm_leader_id r" "cores r1 = cores r"
    using assms by (simp_all add: r1_def Let_def)
  have parse: "ParseRole (RoleToString role) = Ok role" by (cases role) (simp_all add: ParseRole_def RoleToString_def)
  show ?thesis
  proof (rule that [of r3])
    show "cores r3 k = (if k = x then Some (x, role, src, True) else cores r k)" for k
      using r1 topology_ok_cores [OF r1(1), of x] by (auto simp: r3_def topo_simps split: option.splits)
    show "Topology_FromProto x p a r = (Ok (), NormalizeMentorSourcesLocked
        (apply_follower x (ti_follower_node_id p) (apply_source x r3)))"
      if "ti_role p = RoleToString role" "ti_source_node_id p = src" for p
      unfolding Topology_FromProto_def r3_def r1_def using that assms(2) by (simp add: parse Let_def)
  qed (use r1 assms(2) in \<open>simp_all add: r3_def\<close>)
qed

lemma FromProto_mentor:
  assumes "topology_ok r" and "x \<noteq> []" and "l \<notin> {[], x, f}" and "f \<noteq> x"
    and "p = \<lparr>ti_role = RoleToString kMentor, ti_source_node_id = l, ti_follower_node_id = f\<rparr>"
  obtains r' where "Topology_FromProto x p a r = (Ok (), r')" and "topology_ok r'"
    and "cores r' x = Some (x, kMentor, l, True)"
    and "f \<noteq> [] \<Longrightarrow> cores r' f = Some (f, kFollower, x, True)"
proof -
  obtain r3 where r3: "topology_ok r3" "tm_leader_id r3 = tm_leader_id r"
    "\<And>k. cores r3 k = (if k = x then Some (x, kMentor, l, True) else cores r k)"
    "Topology_FromProto x p a r = (Ok (), NormalizeMentorSourcesLocked (apply_follower x f (apply_source x r3)))"
    using FromProto_start [OF assms(1,2), of kMentor l a] assms(5) by (metis TopologyInfo.simps(1,2,3))
  have q3: "Topology_GetRole x r3 = kMentor" "Topology_GetSource x r3 = l" by (simp_all add: cores_query r3)
  define r4 where "r4 = apply_source x r3"
  have r4: "topology_ok r4" using r3(1) by (simp add: r4_def)
  have l4: "tm_leader_id r4 = l"
    and c4: "\<And>k. cores r4 k = (if k = l then Some (l, kLeader, [], True) else cores r3 k)"
  proof -
    define s1 where "s1 = on_node l (\<lambda>n. n\<lparr>ni_healthy := True\<rparr>) (set_addr l (EnsureNodeLocked l r3))"
    have s1: "topology_ok s1" using r3(1) assms(3) by (simp add: s1_def)
    have c: "cores s1 k = (if k = l then map_option (\<lambda>(i, r, s, _). (i, r, s, True))
        (cores (EnsureNodeLocked l r3) l) else cores r3 k)" for k
      using r3(1) by (simp add: s1_def topo_simps)
    have "x \<noteq> l" using assms(3) by blast
    then have "Topology_GetRole x s1 = kMentor" by (simp add: cores_query [OF s1] c r3)
    then have r4: "r4 = on_node l (\<lambda>n. n\<lparr>ni_role := kLeader, ni_source_node_id := []\<rparr>) (s1\<lparr>tm_leader_id := l\<rparr>)"
      using assms(3) q3 by (simp add: r4_def apply_source_def Let_def s1_def)
    show "tm_leader_id r4 = l" by (simp add: r4)
    show "cores r4 k = (if k = l then Some (l, kLeader, [], True) else cores r3 k)" for k
      using topology_ok_cores [OF r3(1), of l] r3(1)
      by (auto simp: r4 cores_on_nodes c cores_EnsureNode split: option.splits)
  qed
  define r5 where "r5 = apply_follower x f r4"
  have r5: "topology_ok r5" using r4 by (simp add: r5_def)
  have l5: "tm_leader_id r5 = l" and x5: "cores r5 x = Some (x, kMentor, l, True)"
    and f5: "f \<noteq> [] \<Longrightarrow> cores r5 f = Some (f, kFollower, x, True)"
  proof -
    define s1 where "s1 = (case FindFollowerIdOfLocked x r4 of None \<Rightarrow> r4
      | Some k \<Rightarrow> if k \<noteq> f then on_node k (\<lambda>n. n\<lparr>ni_role := kFollower, ni_source_node_id := []\<rparr>) r4 else r4)"
    have x4: "cores r4 x = Some (x, kMentor, l, True)" using assms(3) by (auto simp: c4 r3)
    then have "FindFollowerIdOfLocked x r4 \<noteq> Some x" using FindFollower_Some [OF r4, of x x] by auto
    then have s1: "topology_ok s1" "tm_leader_id s1 = l" "cores s1 x = Some (x, kMentor, l, True)"
      using r4 l4 x4 by (auto simp: s1_def cores_on_nodes split: option.split)
    have r5: "r5 = (if f = [] then s1 else on_node f (\<lambda>n. n\<lparr>ni_role := kFollower, ni_source_node_id := x,
        ni_healthy := True\<rparr>) (set_addr f (EnsureNodeLocked f s1)))"
      using x4 by (simp add: r5_def apply_follower_def Let_def s1_def cores_query [OF r4])
    show "tm_leader_id r5 = l" using s1 by (simp add: r5)
    show "cores r5 x = Some (x, kMentor, l, True)" using s1 assms(4) by (simp add: r5 topo_simps)
    show "f \<noteq> [] \<Longrightarrow> cores r5 f = Some (f, kFollower, x, True)"
      using s1 topology_ok_cores [OF s1(1), of f] by (auto simp: r5 topo_simps split: option.split)
  qed
  show ?thesis
  proof (rule that)
    show "Topology_FromProto x p a r = (Ok (), NormalizeMentorSourcesLocked r5)" by (simp add: r3(4) r5_def r4_def)
  qed (use r5 l5 x5 f5 assms(3) in \<open>auto simp: cores_Normalize\<close>)
qed

lemma FromProto_follower:
  assumes "topology_ok r" and "x \<noteq> []" and "m \<notin> {[], x}" and "x \<noteq> tm_leader_id r"
    and "p = \<lparr>ti_role = RoleToString kFollower, ti_source_node_id = m, ti_follower_node_id = f\<rparr>"
  obtains r' where "Topology_FromProto x p a r = (Ok (), r')" and "topology_ok r'"
    and "cores r' x = Some (x, kFollower, m, True)"
proof -
  obtain r3 where r3: "topology_ok r3" "tm_leader_id r3 = tm_leader_id r"
    "\<And>k. cores r3 k = (if k = x then Some (x, kFollower, m, True) else cores r k)"
    "Topology_FromProto x p a r = (Ok (), NormalizeMentorSourcesLocked (apply_follower x f (apply_source x r3)))"
    using FromProto_start [OF assms(1,2), of kFollower m a] assms(5) by (metis TopologyInfo.simps(1,2,3))
  define s1 where "s1 = on_node m (\<lambda>n. n\<lparr>ni_healthy := True\<rparr>) (set_addr m (EnsureNodeLocked m r3))"
  have s1: "topology_ok s1" "tm_leader_id s1 = tm_leader_id r" using r3(1,2) assms(3) by (simp_all add: s1_def)
  have x1: "cores s1 x = Some (x, kFollower, m, True)" using r3(1,3) assms(3) by (simp add: s1_def topo_simps)
  then have q: "Topology_GetRole x s1 = kFollower" by (simp add: cores_query s1)
  have "apply_source x r3 = s1"
    using assms(3) q r3 by (simp add: apply_source_def cores_query Let_def flip: s1_def)
  then have run: "Topology_FromProto x p a r = (Ok (), NormalizeMentorSourcesLocked s1)"
    using q by (simp add: r3(4) apply_follower_def)
  show ?thesis
  proof (rule that [OF run])
    show "cores (NormalizeMentorSourcesLocked s1) x = Some (x, kFollower, m, True)"
      using s1 x1 assms(4) by (cases "tm_leader_id r = []") (simp_all add: cores_Normalize Normalize_no_leader)
  qed (use s1 in simp)
qed



end
