(* ===== verification/ElectionRuns.thy ===== *)
theory ElectionRuns
  imports Cluster TopologyChain SampleCodec
begin

text \<open>
  Runs of clusters whose disks work and whose logs are still empty: which votes are granted and who
  becomes leader. They show that election safety is about real elections, and that without its
  condition two nodes are elected in one term.
\<close>

section \<open>A node with a working disk and an empty log\<close>

definition idle :: "'w \<Rightarrow> string list \<Rightarrow> ('w, 'e) node \<Rightarrow> bool" where
  "idle w ps n \<longleftrightarrow> quiet (rn_os n) \<and> rn_wal n = w \<and> rn_last_snapshot_index n = 0 \<and> peers n = ps"

definition prof :: "('w, 'e) node \<Rightarrow> string \<times> nat \<times> RaftState \<times> string" where
  "prof n = (rn_self_id n, rn_current_term n, rn_state n, rn_voted_for n)"

definition noop :: "nat \<Rightarrow> LogEntry" where
  "noop t = default_LogEntry\<lparr>le_type := kNoop, le_cmd_type := kUpsert, le_payload := [], le_index := 1, le_term := t\<rparr>"

definition empty_log :: "('w, 'e) services \<Rightarrow> 'w \<Rightarrow> bool" where
  "empty_log S w \<longleftrightarrow> codec_ok (sv_codec S) \<and> lo_LastIndex (sv_log S) w = 0 \<and>
     (\<forall>t < 2 ^ 64. \<exists>w'. lo_Append (sv_log S) (noop t) w = (Ok (), w') \<and> lo_Flush (sv_log S) w' = (Ok (), w'))"

lemma idle_updates [simp]:
  "idle w ps (onTopology f n) = idle w ps n" "idle w ps (NoteLeaderContactLocked n) = idle w ps n"
  "idle w ps (ResetElectionDeadlineLocked n) = idle w ps n"
  "idle w ps (n\<lparr>rn_now := now\<rparr>) = idle w ps n" "idle w ps (n\<lparr>rn_peer_progress := pp\<rparr>) = idle w ps n"
  "idle w ps (n\<lparr>rn_current_term := t\<rparr>) = idle w ps n" "idle w ps (n\<lparr>rn_voted_for := v\<rparr>) = idle w ps n"
  "idle w ps (n\<lparr>rn_leader_id := l\<rparr>) = idle w ps n" "idle w ps (n\<lparr>rn_state := st\<rparr>) = idle w ps n"
  "idle w ps (n\<lparr>rn_lease := le\<rparr>) = idle w ps n" "idle w ps (n\<lparr>rn_meta := m\<rparr>) = idle w ps n"
  by (simp_all add: idle_def onTopology_def NoteLeaderContactLocked_def ResetElectionDeadlineLocked_def split: prod.splits)

lemma prof_updates [simp]:
  "prof (onTopology f n) = prof n" "prof (NoteLeaderContactLocked n) = prof n" "prof (ResetElectionDeadlineLocked n) = prof n"
  "prof (n\<lparr>rn_now := now\<rparr>) = prof n" "prof (n\<lparr>rn_peer_progress := pp\<rparr>) = prof n"
  by (simp_all add: prof_def onTopology_def NoteLeaderContactLocked_def ResetElectionDeadlineLocked_def split: prod.splits)

lemma idle_persist:
  assumes "idle w ps n" and "codec_ok (sv_codec S)" and "t < 2 ^ 64" and "ascii v"
  shows "\<exists>s m. PersistMetaLocked S t v n = (Ok (), n\<lparr>rn_os := s, rn_meta := m\<rparr>) \<and> quiet s"
proof -
  let ?m = "\<lparr>rm_current_term = t, rm_voted_for = v\<rparr>"
  obtain b where "ser_RaftMeta (sv_codec S) (RaftMeta_toProto ?m) = Some b"
    using codec_meta [OF assms(2), of "RaftMeta_toProto ?m"] assms(3,4) by (auto simp: RaftMeta_toProto_def)
  then obtain s where "RaftMeta_Save (sv_codec S) ?m (MetaPath n) (rn_os n) = (Ok (), s)" "quiet s"
    using Save_quiet [of "rn_os n" "sv_codec S" ?m b "MetaPath n"] assms(1) by (auto simp: idle_def)
  then show ?thesis by (auto simp: PersistMetaLocked_def onDisk_def Let_def)
qed

lemma idle_follow:
  assumes "idle w ps n" and "codec_ok (sv_codec S)" and "t < 2 ^ 64" and "rn_current_term n \<le> t"
  shows "\<exists>n'. BecomeFollower S t l n = (Ok (), n') \<and> idle w ps n' \<and> prof n' = (rn_self_id n, t, StFollower, [])"
proof -
  obtain s m where p: "PersistMetaLocked S t [] n = (Ok (), n\<lparr>rn_os := s, rn_meta := m\<rparr>)" "quiet s"
    using idle_persist [OF assms(1-3) ascii_Nil] by blast
  have "idle w ps (n\<lparr>rn_os := s, rn_meta := m\<rparr>)" using assms(1) p(2) by (simp add: idle_def)
  then show ?thesis
    using p(1) assms(4) by (simp add: BecomeFollower_def andThen_def, simp add: prof_def)
qed

lemma idle_log: "idle w ps n \<Longrightarrow> empty_log S w \<Longrightarrow> LogicalLastIndex S n = 0"
  by (simp add: LogicalLastIndex_def idle_def empty_log_def)

lemma idle_up_to_date: "idle w ps n \<Longrightarrow> empty_log S w \<Longrightarrow> IsCandidateLogUpToDateLocked S i 0 n = (True, n)"
  using idle_log [of w ps n S] by (simp add: IsCandidateLogUpToDateLocked_def LastLogTermLocked_def Let_def)

lemma idle_stand:
  assumes "idle w ps n" and "empty_log S w" and "Suc (rn_current_term n) < 2 ^ 64" and "ascii (rn_self_id n)"
  shows "\<exists>n'. StartElection_begin S n = (Ok \<lparr>vq_term = Suc (rn_current_term n), vq_candidate_id = rn_self_id n,
      vq_last_log_index = 0, vq_last_log_term = 0\<rparr>, n') \<and> idle w ps n' \<and>
    prof n' = (rn_self_id n, Suc (rn_current_term n), StCandidate, rn_self_id n)"
proof -
  have c: "codec_ok (sv_codec S)" using assms(2) by (simp add: empty_log_def)
  obtain s m where p: "PersistMetaLocked S (Suc (rn_current_term n)) (rn_self_id n) n = (Ok (), n\<lparr>rn_os := s, rn_meta := m\<rparr>)" "quiet s"
    using idle_persist [OF assms(1) c assms(3,4)] by blast
  have i: "idle w ps (n\<lparr>rn_os := s, rn_meta := m\<rparr>)" using assms(1) p(2) by (simp add: idle_def)
  define n' where "n' = (ResetElectionDeadlineLocked (n\<lparr>rn_os := s, rn_meta := m, rn_current_term := Suc (rn_current_term n),
    rn_voted_for := rn_self_id n, rn_leader_id := [], rn_state := StCandidate, rn_lease := Lease_Invalidate (rn_lease n)\<rparr>))\<lparr>rn_peer_progress := []\<rparr>"
  have b: "BecomeCandidate S n = (Ok (), n')" using p(1) by (simp add: BecomeCandidate_def andThen_def n'_def)
  have "idle w ps n'" using i by (simp add: n'_def)
  moreover have "prof n' = (rn_self_id n, Suc (rn_current_term n), StCandidate, rn_self_id n)"
    unfolding n'_def prof_updates by (simp add: prof_def)
  ultimately show ?thesis
    using b idle_log [OF _ assms(2)]
    by (auto simp: StartElection_begin_def andThen_def LastLogTermLocked_def prof_def)
qed

lemma idle_cast:
  assumes "idle w ps n" and "empty_log S w" and "vq_last_log_term q = 0" and "vq_term q < 2 ^ 64" and "ascii (vq_candidate_id q)"
    and "vq_term q = rn_current_term n" and "rn_voted_for n = [] \<or> rn_voted_for n = vq_candidate_id q"
  shows "\<exists>n'. cast_vote S q n = (Ok \<lparr>vs_term = vq_term q, vs_vote_granted = True\<rparr>, n') \<and> idle w ps n' \<and>
    prof n' = (rn_self_id n, vq_term q, StFollower, vq_candidate_id q)"
proof -
  have c: "codec_ok (sv_codec S)" using assms(2) by (simp add: empty_log_def)
  obtain s m where p: "PersistMetaLocked S (vq_term q) (vq_candidate_id q) n = (Ok (), n\<lparr>rn_os := s, rn_meta := m\<rparr>)" "quiet s"
    using idle_persist [OF assms(1) c assms(4,5)] by blast
  have i: "idle w ps (n\<lparr>rn_os := s, rn_meta := m\<rparr>)" using assms(1) p(2) by (simp add: idle_def)
  have "cast_vote S q n = (Ok \<lparr>vs_term = vq_term q, vs_vote_granted = True\<rparr>,
      NoteLeaderContactLocked (n\<lparr>rn_os := s, rn_meta := m, rn_voted_for := vq_candidate_id q, rn_state := StFollower\<rparr>))"
    using p(1) assms(3,6,7) idle_up_to_date [OF assms(1,2)] by (auto simp: cast_vote_def Let_def andThen_def)
  then show ?thesis using i assms(6) by (simp, simp add: prof_def)
qed

lemma idle_vote:
  assumes "idle w ps n" and "empty_log S w" and "vq_last_log_term q = 0" and "vq_term q < 2 ^ 64" and "ascii (vq_candidate_id q)"
    and "rn_current_term n \<le> vq_term q"
    and "vq_term q = rn_current_term n \<longrightarrow> rn_voted_for n = [] \<or> rn_voted_for n = vq_candidate_id q"
  shows "\<exists>n'. HandleRequestVote S q n = (Ok \<lparr>vs_term = vq_term q, vs_vote_granted = True\<rparr>, n') \<and> idle w ps n' \<and>
    prof n' = (rn_self_id n, vq_term q, StFollower, vq_candidate_id q)"
proof (cases "vq_term q > rn_current_term n")
  case True
  have c: "codec_ok (sv_codec S)" using assms(2) by (simp add: empty_log_def)
  obtain n1 where n1: "BecomeFollower S (vq_term q) [] n = (Ok (), n1)" "idle w ps n1"
      "prof n1 = (rn_self_id n, vq_term q, StFollower, [])"
    using idle_follow [OF assms(1) c assms(4), of "[]"] True by auto
  then show ?thesis
    using idle_cast [OF n1(2) assms(2-5)] True
    by (auto simp: HandleRequestVote_def andThen_def whenP_def prof_def)
next
  case False
  then show ?thesis
    using idle_cast [OF assms(1-5)] assms(6,7)
    by (auto simp: HandleRequestVote_def andThen_def whenP_def ret_def)
qed

lemma leader_id_SetLeader [simp]: "tm_leader_id (Topology_SetLeader l a t) = l"
  by (simp add: Topology_SetLeader_def Let_def)

lemma Rebalance_Ok:
  assumes "tm_leader_id t \<noteq> []"
  shows "\<exists>t'. Topology_Rebalance hs t = (Ok (), t')"
proof -
  obtain cs t1 where "collect_candidates hs [] (reset_nodes (EnsureLeaderLocked t)) = (cs, t1)"
    by (cases "collect_candidates hs [] (reset_nodes (EnsureLeaderLocked t))")
  then show ?thesis using assms by (simp add: Topology_Rebalance_def Let_def)
qed

lemma idle_lead:
  assumes "idle w ps n" and "empty_log S w" and "rn_current_term n < 2 ^ 64" and "0 < rn_current_term n" and "rn_self_id n \<noteq> []"
  shows "\<exists>n'. BecomeLeader S n = (Ok (), n') \<and> prof n' = (rn_self_id n, rn_current_term n, StLeader, rn_voted_for n)"
proof -
  let ?n0 = "onTopology (Topology_SetLeader (rn_self_id n) (rn_self_addr n)) (n\<lparr>rn_leader_id := rn_self_id n\<rparr>)"
  obtain tp where "Topology_Rebalance (peers ?n0) (rn_topology ?n0) = (Ok (), tp)"
    using Rebalance_Ok [of "rn_topology ?n0" "peers ?n0"] assms(5) by (auto simp: onTopology_def)
  then have a: "onRebalance (peers ?n0) ?n0 = (Ok (), ?n0\<lparr>rn_topology := tp\<rparr>)" by (simp add: onRebalance_def)
  let ?n1 = "?n0\<lparr>rn_topology := tp\<rparr>"
  obtain w' where w': "lo_Append (sv_log S) (noop (rn_current_term n)) w = (Ok (), w')" "lo_Flush (sv_log S) w' = (Ok (), w')"
    using assms(2,3) by (auto simp: empty_log_def)
  have "rn_wal ?n1 = w" "LogicalLastIndex S ?n1 = 0" "rn_current_term ?n1 = rn_current_term n"
    using assms(1,2) by (simp_all add: idle_def empty_log_def LogicalLastIndex_def onTopology_def)
  then have b: "AppendNoopEntryLocked S ?n1 = (Ok 1, ?n1\<lparr>rn_wal := w', rn_flushed_index := 1\<rparr>)"
    using w' by (simp add: AppendNoopEntryLocked_def AppendEntryLocked_def Let_def andThen_def onLog_def noop_def)
  show ?thesis
    using a b assms(4)
    by (simp add: BecomeLeader_def claim_first_term_def andThen_def modify_def, simp add: prof_def onTopology_def
        RequestReplication_def RequestImmediateHeartbeat_def ResetPeerProgressLocked_def)
qed

section \<open>Runs\<close>

text \<open>What a run keeps: other nodes, and every message and election so far.\<close>

definition keeps_others :: "string \<Rightarrow> ('w, 'e) cluster \<Rightarrow> ('w, 'e) cluster \<Rightarrow> bool" where
  "keeps_others i c c' \<longleftrightarrow> (\<forall>k. k \<noteq> i \<longrightarrow> cl_nodes c' k = cl_nodes c k) \<and> cl_votes c \<subseteq> cl_votes c' \<and>
     cl_replies c \<subseteq> cl_replies c' \<and> cl_elected c \<subseteq> cl_elected c'"

lemma campaign_run:
  assumes "i \<in> M" and "idle w ps (cl_nodes c i)" and "empty_log S w" and "prof (cl_nodes c i) = (i, t, st, v)"
    and "st \<noteq> StLeader" and "Suc t < 2 ^ 64" and "ascii i"
  shows "\<exists>c'. (cluster_step lates S M)\<^sup>*\<^sup>* c c' \<and> keeps_others i c c' \<and> idle w ps (cl_nodes c' i) \<and>
    prof (cl_nodes c' i) = (i, Suc t, StCandidate, i) \<and>
    \<lparr>vq_term = Suc t, vq_candidate_id = i, vq_last_log_index = 0, vq_last_log_term = 0\<rparr> \<in> cl_votes c'"
proof -
  define n where "n = (cl_nodes c i)\<lparr>rn_now := rn_now (cl_nodes c i) + rn_election_deadline (cl_nodes c i)\<rparr>"
  have n: "idle w ps n" "prof n = (i, t, st, v)" "ElectionLoop_fires n"
    using assms by (simp_all add: n_def ElectionLoop_fires_def IsLeader_def prof_def)
  then have f: "rn_self_id n = i" "rn_current_term n = t" by (simp_all add: prof_def)
  let ?q = "\<lparr>vq_term = Suc t, vq_candidate_id = i, vq_last_log_index = 0, vq_last_log_term = 0\<rparr>"
  obtain n' where n': "StartElection_begin S n = (Ok ?q, n')" "idle w ps n'" "prof n' = (i, Suc t, StCandidate, i)"
    using idle_stand [OF n(1) assms(3)] f assms(6,7) by auto
  let ?c1 = "set_node i n c"
  let ?c2 = "set_node i n' (?c1\<lparr>cl_votes := cl_votes ?c1 \<union> Ok_set (Ok ?q)\<rparr>)"
  have "cluster_step lates S M c ?c1"
    unfolding n_def by (rule cluster_step.tick [OF assms(1)]) simp
  moreover have "cluster_step lates S M ?c1 ?c2"
    by (rule cluster_step.campaign [OF assms(1)]) (use n' n(3) f assms(6) in simp_all)
  ultimately show ?thesis
    using n' by (intro exI [of _ ?c2]) (auto simp: keeps_others_def Ok_set_def intro: rtranclp.rtrancl_into_rtrancl)
qed

lemma vote_run:
  assumes "j \<in> M" and "idle w ps (cl_nodes c j)" and "empty_log S w" and "prof (cl_nodes c j) = (j, t, st, v)"
    and "q \<in> cl_votes c" and "q = \<lparr>vq_term = t', vq_candidate_id = i, vq_last_log_index = 0, vq_last_log_term = 0\<rparr>"
    and "t \<le> t'" and "t' = t \<longrightarrow> v = [] \<or> v = i" and "t' < 2 ^ 64" and "ascii i" and "j \<noteq> i"
  shows "\<exists>c'. (cluster_step lates S M)\<^sup>*\<^sup>* c c' \<and> keeps_others j c c' \<and> idle w ps (cl_nodes c' j) \<and>
    prof (cl_nodes c' j) = (j, t', StFollower, i) \<and>
    (q, j, \<lparr>vs_term = t', vs_vote_granted = True\<rparr>) \<in> cl_replies c'"
proof -
  have f: "rn_current_term (cl_nodes c j) = t" "rn_voted_for (cl_nodes c j) = v" "rn_self_id (cl_nodes c j) = j"
    using assms(4) by (simp_all add: prof_def)
  let ?a = "\<lparr>vs_term = t', vs_vote_granted = True\<rparr>"
  obtain n' where n': "HandleRequestVote S q (cl_nodes c j) = (Ok ?a, n')" "idle w ps n'" "prof n' = (j, t', StFollower, i)"
    using idle_vote [OF assms(2,3), of q] assms(6-10) f by auto
  let ?c' = "set_node j n' (c\<lparr>cl_replies := cl_replies c \<union> {(q, j, a) | a. a \<in> Ok_set (Ok ?a)}\<rparr>)"
  have "cluster_step lates S M c ?c'"
    by (rule cluster_step.vote [OF assms(1,5)]) (use n' assms(6,11) in simp_all)
  then show ?thesis using n' by (intro exI [of _ ?c']) (auto simp: keeps_others_def Ok_set_def)
qed

lemma refuse_run:
  assumes "j \<in> M" and "prof (cl_nodes c j) = (j, t, st, v)" and "q \<in> cl_votes c" and "vq_term q < t" and "j \<noteq> vq_candidate_id q"
  shows "\<exists>c'. (cluster_step lates S M)\<^sup>*\<^sup>* c c' \<and> keeps_others j c c' \<and> cl_nodes c' j = cl_nodes c j \<and>
    (q, j, \<lparr>vs_term = t, vs_vote_granted = False\<rparr>) \<in> cl_replies c'"
proof -
  let ?a = "\<lparr>vs_term = t, vs_vote_granted = False\<rparr>"
  have "HandleRequestVote S q (cl_nodes c j) = (Ok ?a, cl_nodes c j)"
    using assms(2,4) by (simp add: HandleRequestVote_def prof_def)
  let ?c' = "set_node j (cl_nodes c j) (c\<lparr>cl_replies := cl_replies c \<union> {(q, j, a) | a. a \<in> Ok_set (Ok ?a)}\<rparr>)"
  have "cluster_step lates S M c ?c'"
    by (rule cluster_step.vote [OF assms(1,3,5)]) fact
  then show ?thesis by (intro exI [of _ ?c']) (auto simp: keeps_others_def Ok_set_def)
qed

lemma win_run:
  assumes "i \<in> M" and "idle w [x, y] (cl_nodes c i)" and "empty_log S w" and "prof (cl_nodes c i) = (i, t, StCandidate, i)"
    and "q \<in> cl_votes c" and "vq_term q = t" and "vq_candidate_id q = i" and "0 < t" "t < 2 ^ 64" and "i \<noteq> []"
    and "x \<noteq> y" and "p \<in> {x, y}" and "(q, p, \<lparr>vs_term = t, vs_vote_granted = True\<rparr>) \<in> cl_replies c"
  shows "\<exists>c'. (cluster_step lates S M)\<^sup>*\<^sup>* c c' \<and> keeps_others i c c' \<and> IsLeader (cl_nodes c' i) \<and>
    rn_current_term (cl_nodes c' i) = t \<and> (t, i) \<in> cl_elected c'"
proof -
  let ?n = "cl_nodes c i"
  let ?f = "\<lambda>k. if k = p then Ok \<lparr>vs_term = t, vs_vote_granted = True\<rparr> else Err (RpcFailed [])"
  let ?rs = "map ?f [x, y]"
  have n: "rn_current_term ?n = t" "rn_state ?n = StCandidate" "rn_self_id ?n = i" "peers ?n = [x, y]"
    using assms(2,4) by (simp_all add: prof_def idle_def)
  have h: "highest_vote_term (vq_term q) ?rs = vq_term q"
    using assms(6,11,12) by (auto simp: highest_vote_term_def)
  have g: "granted_votes ?rs = 2" using assms(11,12) by (auto simp: granted_votes_def)
  obtain n1 where n1: "BecomeLeader S ?n = (Ok (), n1)" "prof n1 = (i, t, StLeader, i)"
    using idle_lead [OF assms(2,3)] n assms(4,8-10) by (auto simp: prof_def)
  obtain r n2 where n2: "MaybeCommit S n1 = (r, n2)" by (cases "MaybeCommit S n1")
  have p2: "prof n2 = prof n1" using core_MaybeCommit [OF n2] by (simp add: prof_def vote_core_def)
  have e: "StartElection_end S q ?rs ?n = (r, n2)"
    using h g n n1(1) n2 assms(6) by (simp add: StartElection_end_def andThen_def QuorumSize_def)
  let ?c' = "set_node i n2 (c\<lparr>cl_elected := cl_elected c \<union>
      (if IsLeader n2 \<and> \<not> IsLeader ?n then {(rn_current_term n2, i)} else {})\<rparr>)"
  have "cluster_step lates S M c ?c'"
  proof (rule cluster_step.elect [OF assms(1,5,7)])
    show "?rs = map ?f (peers ?n)" by (simp add: n(4))
    show "(q, k, a) \<in> cl_replies c" if "?f k = Ok a" for k a
      using that assms(13) by (auto split: if_splits)
  qed (use h assms(6,9) e in \<open>simp_all add: late_def\<close>)
  moreover have "IsLeader n2" "rn_current_term n2 = t" "\<not> IsLeader ?n"
    using p2 n1(2) n(2) by (simp_all add: prof_def IsLeader_def)
  ultimately show ?thesis by (intro exI [of _ ?c']) (auto simp: keeps_others_def)
qed

lemma late_run:
  assumes "i \<in> M" and "idle w [x, y] (cl_nodes c i)" and "empty_log S w" and "prof (cl_nodes c i) = (i, t, StFollower, v)"
    and "q \<in> cl_votes c" and "vq_term q < t" and "vq_candidate_id q = i" and "t < 2 ^ 64"
    and "p \<in> {x, y}" and "(q, p, \<lparr>vs_term = t, vs_vote_granted = False\<rparr>) \<in> cl_replies c"
  shows "\<exists>c'. (cluster_step True S M)\<^sup>*\<^sup>* c c' \<and> keeps_others i c c' \<and> idle w [x, y] (cl_nodes c' i) \<and>
    prof (cl_nodes c' i) = (i, t, StFollower, [])"
proof -
  let ?n = "cl_nodes c i"
  let ?f = "\<lambda>k. if k = p then Ok \<lparr>vs_term = t, vs_vote_granted = False\<rparr> else Err (RpcFailed [])"
  let ?rs = "map ?f [x, y]"
  have n: "rn_current_term ?n = t" "rn_state ?n = StFollower" "rn_self_id ?n = i" "peers ?n = [x, y]"
    using assms(2,4) by (simp_all add: prof_def idle_def)
  have h: "highest_vote_term (vq_term q) ?rs = t"
    using assms(6,9) by (auto simp: highest_vote_term_def)
  have c: "codec_ok (sv_codec S)" using assms(3) by (simp add: empty_log_def)
  obtain n1 where n1: "BecomeFollower S t [] ?n = (Ok (), n1)" "idle w [x, y] n1" "prof n1 = (i, t, StFollower, [])"
    using idle_follow [OF assms(2) c assms(8), of "[]"] n by auto
  have e: "StartElection_end S q ?rs ?n = (Ok (), n1)"
    using h n1(1) assms(6) by (simp add: StartElection_end_def)
  let ?c' = "set_node i n1 (c\<lparr>cl_elected := cl_elected c \<union>
      (if IsLeader n1 \<and> \<not> IsLeader ?n then {(rn_current_term n1, i)} else {})\<rparr>)"
  have "cluster_step True S M c ?c'"
  proof (rule cluster_step.elect [OF assms(1,5,7)])
    show "?rs = map ?f (peers ?n)" by (simp add: n(4))
    show "(q, k, a) \<in> cl_replies c" if "?f k = Ok a" for k a
      using that assms(10) by (auto split: if_splits)
  qed (use h assms(8) e in simp_all)
  then show ?thesis using n1 by (intro exI [of _ ?c']) (auto simp: keeps_others_def)
qed

section \<open>Three nodes\<close>

definition demo_services :: "(wal, string option) services" where
  "demo_services = \<lparr>sv_log = wal_ops sample_codec, sv_codec = sample_codec, sv_engine = slot_engine, sv_utc = []\<rparr>"

definition demo_config :: "string \<Rightarrow> string list \<Rightarrow> Config" where
  "demo_config i ps = \<lparr>cfg_cluster = \<lparr>cc_node_id = i, cc_peers = ps\<rparr>, cfg_raft = default_RaftConfig,
     cfg_vector = slot_config, cfg_index_maintenance = default_IndexMaintenanceConfig,
     cfg_client = default_ClientConfig, cfg_grpc_port = default_grpc_port, cfg_storage = default_StorageConfig,
     cfg_logging_level = default_logging_level\<rparr>"

definition demo_node :: "wal \<Rightarrow> string \<Rightarrow> string list \<Rightarrow> (wal, string option) node" where
  "demo_node w i ps = RegisterConfiguredPeers (RaftNode_new (demo_config i ps) i slot_index (DedupTable_new 10) 0 0
     w default_RaftMeta \<lparr>ev_now = 0, ev_draws = []\<rparr> \<lparr>os_files = [], os_io = []\<rparr>)"

definition demo_members :: "string list" where
  "demo_members = [''a'', ''b'', ''c'']"

definition demo_cluster :: "wal \<Rightarrow> (wal, string option) cluster" where
  "demo_cluster w = \<lparr>cl_nodes = (\<lambda>i. demo_node w i (filter (\<lambda>j. j \<noteq> i) demo_members)), cl_votes = {}, cl_replies = {},
     cl_beats = {}, cl_appends = {}, cl_elected = {}\<rparr>"

lemma demo_log: "\<exists>w. empty_log demo_services w"
proof -
  obtain w where w: "wal_holds sample_codec w []" "w_start w = 1" "w_last_index w = 0"
    using WAL_Open_fresh [OF sample_codec_ok, of "\<lparr>os_files = [], os_io = []\<rparr>" "''wal''" 1 1]
    by (auto simp: list_segments_def dir_files_def)
  have "\<exists>w'. lo_Append (wal_ops sample_codec) (noop t) w = (Ok (), w') \<and> lo_Flush (wal_ops sample_codec) w' = (Ok (), w')"
    if "t < 2 ^ 64" for t
    using wal_store.append [OF w(1), of "noop t"] wal_store.flush that w(2)
    by (fastforce simp: noop_def entry_ok_def default_LogEntry_def follows_def IsKnownEntryType_def IsKnownCmdType_def
        kNoop_def kUpsert_def)
  then show ?thesis
    using w(3) sample_codec_ok by (auto simp: empty_log_def demo_services_def wal_ops_def WAL_LastIndex_def)
qed

lemma demo_start:
  "idle w (filter (\<lambda>j. j \<noteq> i) demo_members) (cl_nodes (demo_cluster w) i)"
  "prof (cl_nodes (demo_cluster w) i) = (i, 0, StFollower, [])"
  by (simp_all add: demo_cluster_def demo_node_def RegisterConfiguredPeers_def RaftNode_new_def onTopology_def
      idle_def prof_def demo_config_def default_RaftMeta_def split: prod.splits)

lemma demo_init: "cluster_init demo_services (set demo_members) (demo_cluster w)"
proof -
  have d: "disk demo_services (cl_nodes (demo_cluster w) i) default_RaftMeta" for i
    using sample_codec_ok
    by (simp add: disk_def meta_holds_def demo_services_def demo_cluster_def demo_node_def RegisterConfiguredPeers_def
        RaftNode_new_def onTopology_def split: prod.splits)
  have f: "rn_self_id (cl_nodes (demo_cluster w) i) = i" "rn_state (cl_nodes (demo_cluster w) i) = StFollower"
    "rn_current_term (cl_nodes (demo_cluster w) i) = 0" "rn_voted_for (cl_nodes (demo_cluster w) i) = []"
    "peers (cl_nodes (demo_cluster w) i) = filter (\<lambda>j. j \<noteq> i) demo_members"
    "cc_node_id (cfg_cluster (rn_config (cl_nodes (demo_cluster w) i))) = i" for i
    using demo_start [of w i]
    by (simp_all add: prof_def idle_def demo_cluster_def demo_node_def RegisterConfiguredPeers_def RaftNode_new_def
        onTopology_def demo_config_def split: prod.splits)
  have "cl_votes (demo_cluster w) = {}" "cl_replies (demo_cluster w) = {}" "cl_beats (demo_cluster w) = {}"
    "cl_appends (demo_cluster w) = {}" "cl_elected (demo_cluster w) = {}" by (simp_all add: demo_cluster_def)
  moreover have "\<forall>i \<in> set demo_members. i \<noteq> [] \<and> ascii i" by (simp add: demo_members_def ascii_def)
  moreover have "distinct demo_members" by (simp add: demo_members_def)
  ultimately show ?thesis
    using d unfolding cluster_init_def f by (auto simp: default_RaftMeta_def)
qed

lemma demo_nodes:
  "idle w [''b'', ''c''] (cl_nodes (demo_cluster w) ''a'')" "idle w [''a'', ''c''] (cl_nodes (demo_cluster w) ''b'')"
  "idle w [''a'', ''b''] (cl_nodes (demo_cluster w) ''c'')"
  using demo_start(1) [of w "''a''"] demo_start(1) [of w "''b''"] demo_start(1) [of w "''c''"]
  by (simp_all add: demo_members_def)

lemma demo_in: "''a'' \<in> set demo_members" "''b'' \<in> set demo_members" "''c'' \<in> set demo_members"
  by (simp_all add: demo_members_def)

lemma demo_ascii: "ascii ''a''" "ascii ''b''" "ascii ''c''"
  by (simp_all add: ascii_def)

lemma keeps_node: "keeps_others i c c' \<Longrightarrow> k \<noteq> i \<Longrightarrow> cl_nodes c' k = cl_nodes c k"
  by (simp add: keeps_others_def)

lemma keeps_sets:
  "keeps_others i c c' \<Longrightarrow> q \<in> cl_votes c \<Longrightarrow> q \<in> cl_votes c'"
  "keeps_others i c c' \<Longrightarrow> m \<in> cl_replies c \<Longrightarrow> m \<in> cl_replies c'"
  by (auto simp: keeps_others_def)

abbreviation ballot_request :: "nat \<Rightarrow> string \<Rightarrow> RequestVoteRequest" where
  "ballot_request t i \<equiv> \<lparr>vq_term = t, vq_candidate_id = i, vq_last_log_index = 0, vq_last_log_term = 0\<rparr>"


lemma keeps_trans: "keeps_others i c c' \<Longrightarrow> keeps_others i c' c'' \<Longrightarrow> keeps_others i c c''"
  by (auto simp: keeps_others_def)

lemma stand_twice_run:
  assumes "i \<in> M" and "idle w ps (cl_nodes c i)" and "empty_log S w" and "prof (cl_nodes c i) = (i, 0, StFollower, [])"
    and "ascii i"
  shows "\<exists>c'. (cluster_step lates S M)\<^sup>*\<^sup>* c c' \<and> keeps_others i c c' \<and> idle w ps (cl_nodes c' i) \<and>
    prof (cl_nodes c' i) = (i, 2, StCandidate, i) \<and> ballot_request 2 i \<in> cl_votes c'"
proof -
  obtain c1 where c1: "(cluster_step lates S M)\<^sup>*\<^sup>* c c1" "keeps_others i c c1" "idle w ps (cl_nodes c1 i)"
      "prof (cl_nodes c1 i) = (i, 1, StCandidate, i)"
    using campaign_run [OF assms(1-4) _ _ assms(5), of lates] by auto
  obtain c2 where "(cluster_step lates S M)\<^sup>*\<^sup>* c1 c2" "keeps_others i c1 c2" "idle w ps (cl_nodes c2 i)"
      "prof (cl_nodes c2 i) = (i, 2, StCandidate, i)" "ballot_request 2 i \<in> cl_votes c2"
    using campaign_run [OF assms(1) c1(3) assms(3) c1(4) _ _ assms(5), of lates] by (auto simp del: One_nat_def)
  then show ?thesis using c1 keeps_trans rtranclp_trans [of "cluster_step lates S M"] by metis
qed

text \<open>Node a stands in term 1, its rivals b and c stand in term 2.\<close>

lemma rivals_run:
  assumes w: "empty_log demo_services w"
  shows "\<exists>c. (cluster_step lates demo_services (set demo_members))\<^sup>*\<^sup>* (demo_cluster w) c \<and>
    idle w [''b'', ''c''] (cl_nodes c ''a'') \<and> prof (cl_nodes c ''a'') = (''a'', 1, StCandidate, ''a'') \<and>
    idle w [''a'', ''c''] (cl_nodes c ''b'') \<and> prof (cl_nodes c ''b'') = (''b'', 2, StCandidate, ''b'') \<and>
    idle w [''a'', ''b''] (cl_nodes c ''c'') \<and> prof (cl_nodes c ''c'') = (''c'', 2, StCandidate, ''c'') \<and>
    ballot_request 1 ''a'' \<in> cl_votes c \<and> ballot_request 2 ''b'' \<in> cl_votes c \<and> ballot_request 2 ''c'' \<in> cl_votes c"
proof -
  let ?R = "(cluster_step lates demo_services (set demo_members))\<^sup>*\<^sup>*"
  let ?c = "demo_cluster w"
  obtain c1 where c1: "?R ?c c1" "keeps_others ''a'' ?c c1" "idle w [''b'', ''c''] (cl_nodes c1 ''a'')"
      "prof (cl_nodes c1 ''a'') = (''a'', 1, StCandidate, ''a'')" "ballot_request 1 ''a'' \<in> cl_votes c1"
    using campaign_run [OF demo_in(1) demo_nodes(1) w demo_start(2) _ _ demo_ascii(1), of lates] by auto
  note k1 = keeps_node [OF c1(2)]
  obtain c2 where c2: "?R c1 c2" "keeps_others ''b'' c1 c2" "idle w [''a'', ''c''] (cl_nodes c2 ''b'')"
      "prof (cl_nodes c2 ''b'') = (''b'', 2, StCandidate, ''b'')" "ballot_request 2 ''b'' \<in> cl_votes c2"
    using stand_twice_run [OF demo_in(2) _ w _ demo_ascii(2), of "[''a'', ''c'']" c1 lates]
      demo_nodes(2) demo_start(2) k1 [of "''b''"] by auto
  note k2 = keeps_node [OF c2(2)]
  obtain c3 where c3: "?R c2 c3" "keeps_others ''c'' c2 c3" "idle w [''a'', ''b''] (cl_nodes c3 ''c'')"
      "prof (cl_nodes c3 ''c'') = (''c'', 2, StCandidate, ''c'')" "ballot_request 2 ''c'' \<in> cl_votes c3"
    using stand_twice_run [OF demo_in(3) _ w _ demo_ascii(3), of "[''a'', ''b'']" c2 lates]
      demo_nodes(3) demo_start(2) k1 [of "''c''"] k2 [of "''c''"] by auto
  have "?R ?c c3" using c1(1) c2(1) c3(1) by (meson rtranclp_trans)
  moreover have "cl_nodes c3 ''a'' = cl_nodes c1 ''a''" "cl_nodes c3 ''b'' = cl_nodes c2 ''b''"
    using keeps_node [OF c3(2)] k2 by simp_all
  moreover have "ballot_request 1 ''a'' \<in> cl_votes c3" "ballot_request 2 ''b'' \<in> cl_votes c3"
    using keeps_sets(1) [OF c3(2)] keeps_sets(1) [OF c2(2)] c1(5) c2(5) by blast+
  ultimately show ?thesis using c1(3,4) c2(3,4) c3(3-5) by metis
qed

text \<open>
  C32: the condition of election safety is needed. The code steps down to the term it learns even
  when it has reached that term meanwhile and voted in it; stepping down clears the vote. From a
  freshly started cluster of three nodes with working disks there is a run, of handlers that
  execute one at a time and without any crash, that ends with two leaders in the same term.
\<close>

theorem late_step_down_elects_twice:
  "\<exists>c c'. cluster_init demo_services (set demo_members) c \<and>
    (cluster_step True demo_services (set demo_members))\<^sup>*\<^sup>* c c' \<and>
    IsLeader (cl_nodes c' ''b'') \<and> IsLeader (cl_nodes c' ''c'') \<and>
    rn_current_term (cl_nodes c' ''b'') = 2 \<and> rn_current_term (cl_nodes c' ''c'') = 2"
proof -
  let ?R = "(cluster_step True demo_services (set demo_members))\<^sup>*\<^sup>*"
  obtain w where w: "empty_log demo_services w" using demo_log by blast
  let ?c = "demo_cluster w"
  obtain c5 where c5: "?R ?c c5" "idle w [''b'', ''c''] (cl_nodes c5 ''a'')"
      "prof (cl_nodes c5 ''a'') = (''a'', 1, StCandidate, ''a'')" "idle w [''a'', ''c''] (cl_nodes c5 ''b'')"
      "prof (cl_nodes c5 ''b'') = (''b'', 2, StCandidate, ''b'')" "idle w [''a'', ''b''] (cl_nodes c5 ''c'')"
      "prof (cl_nodes c5 ''c'') = (''c'', 2, StCandidate, ''c'')"
    and f5: "ballot_request 1 ''a'' \<in> cl_votes c5" "ballot_request 2 ''b'' \<in> cl_votes c5" "ballot_request 2 ''c'' \<in> cl_votes c5"
    using rivals_run [OF w] by blast
  \<comment> \<open>b answers a with its term; a votes for b, which wins\<close>
  obtain c6 where c6: "?R c5 c6" "keeps_others ''b'' c5 c6" "cl_nodes c6 ''b'' = cl_nodes c5 ''b''"
      "(ballot_request 1 ''a'', ''b'', \<lparr>vs_term = 2, vs_vote_granted = False\<rparr>) \<in> cl_replies c6"
    using refuse_run [OF demo_in(2) c5(5) f5(1), of True] by auto
  obtain c7 where c7: "?R c6 c7" "keeps_others ''a'' c6 c7" "idle w [''b'', ''c''] (cl_nodes c7 ''a'')"
      "prof (cl_nodes c7 ''a'') = (''a'', 2, StFollower, ''b'')"
      "(ballot_request 2 ''b'', ''a'', \<lparr>vs_term = 2, vs_vote_granted = True\<rparr>) \<in> cl_replies c7"
    using vote_run [OF demo_in(1) _ w _ keeps_sets(1) [OF c6(2) f5(2)] refl, of "[''b'', ''c'']" 1 StCandidate "''a''" True]
      keeps_node [OF c6(2), of "''a''"] c5(2,3) demo_ascii by auto
  have f7: "cl_nodes c7 ''b'' = cl_nodes c5 ''b''" "cl_nodes c7 ''c'' = cl_nodes c5 ''c''"
    "ballot_request 1 ''a'' \<in> cl_votes c7" "ballot_request 2 ''b'' \<in> cl_votes c7" "ballot_request 2 ''c'' \<in> cl_votes c7"
    "(ballot_request 1 ''a'', ''b'', \<lparr>vs_term = 2, vs_vote_granted = False\<rparr>) \<in> cl_replies c7"
    using keeps_node [OF c7(2)] keeps_node [OF c6(2)] c6(3) f5
      keeps_sets(1) [OF c6(2)] keeps_sets(1) [OF c7(2)] keeps_sets(2) [OF c7(2) c6(4)] by simp_all
  obtain c8 where c8: "?R c7 c8" "keeps_others ''b'' c7 c8" "IsLeader (cl_nodes c8 ''b'')"
      "rn_current_term (cl_nodes c8 ''b'') = 2"
    using win_run [OF demo_in(2) _ w _ f7(4), of "''a''" "''c''" 2 "''a''" True] c5(4,5) f7(1) c7(5) by auto
  have f8: "cl_nodes c8 ''a'' = cl_nodes c7 ''a''" "cl_nodes c8 ''c'' = cl_nodes c5 ''c''"
    using keeps_node [OF c8(2)] f7(2) by simp_all
  \<comment> \<open>a ends its own election, forgets its vote and votes for c, which wins as well\<close>
  obtain c9 where c9: "?R c8 c9" "keeps_others ''a'' c8 c9" "idle w [''b'', ''c''] (cl_nodes c9 ''a'')"
      "prof (cl_nodes c9 ''a'') = (''a'', 2, StFollower, [])"
    using late_run [OF demo_in(1) _ w _ keeps_sets(1) [OF c8(2) f7(3)], of "''b''" "''c''" 2 "''b''" "''b''"]
      c7(3,4) f8(1) keeps_sets(2) [OF c8(2) f7(6)] by auto
  obtain c10 where c10: "?R c9 c10" "keeps_others ''a'' c9 c10"
      "(ballot_request 2 ''c'', ''a'', \<lparr>vs_term = 2, vs_vote_granted = True\<rparr>) \<in> cl_replies c10"
    using vote_run [OF demo_in(1) c9(3) w c9(4) keeps_sets(1) [OF c9(2) keeps_sets(1) [OF c8(2) f7(5)]] refl, of True]
      demo_ascii by auto
  have f10: "cl_nodes c10 ''c'' = cl_nodes c5 ''c''" "cl_nodes c10 ''b'' = cl_nodes c8 ''b''"
      "ballot_request 2 ''c'' \<in> cl_votes c10"
    using keeps_node [OF c10(2)] keeps_node [OF c9(2)] f8(2)
      keeps_sets(1) [OF c10(2) keeps_sets(1) [OF c9(2) keeps_sets(1) [OF c8(2) f7(5)]]] by simp_all
  obtain c11 where c11: "?R c10 c11" "keeps_others ''c'' c10 c11" "IsLeader (cl_nodes c11 ''c'')"
      "rn_current_term (cl_nodes c11 ''c'') = 2"
    using win_run [OF demo_in(3) _ w _ f10(3), of "''a''" "''b''" 2 "''a''" True] c5(6,7) f10(1) c10(3) by auto
  have "cl_nodes c11 ''b'' = cl_nodes c8 ''b''" using keeps_node [OF c11(2)] f10(2) by simp
  moreover have "?R ?c c11"
    using c5(1) c6(1) c7(1) c8(1) c9(1) c10(1) c11(1) by (meson rtranclp_trans)
  ultimately show ?thesis using demo_init c8(3,4) c11(3,4) by metis
qed

end
