(* ===== verification/ReplicationRuns.thy ===== *)
theory ReplicationRuns
  imports RaftLog ElectionRuns
begin

text \<open>
  Properties of replication for nodes that keep their log in the write-ahead log, and runs of a
  leader and a follower that show what the exchange of one batch does.
\<close>

abbreviation node_log :: "codec \<Rightarrow> (wal, 'e) node \<Rightarrow> LogEntry list \<Rightarrow> bool" where
  "node_log c \<equiv> covers (wal_holds c) w_start (wal_ops c)"

section \<open>One exchange\<close>

lemma topology_accepted:
  assumes "rn_self_id n \<noteq> []" and "ti_role i = [] \<or> ti_role i = RoleToString ro"
  shows "\<exists>n'. accept_topology i n = (Ok (), n')"
proof -
  have "ParseRole (RoleToString ro) = Ok ro" by (cases ro) (simp_all add: RoleToString_def ParseRole_def)
  then show ?thesis using assms by (auto simp: accept_topology_def Topology_FromProto_def Let_def)
qed

lemma topology_or_empty_role: "ti_role (topology_or_empty p n) = [] \<or> (\<exists>ro. ti_role (topology_or_empty p n) = RoleToString ro)"
  by (auto simp: topology_or_empty_def BuildTopologyForPeer_def Topology_ToProto_def empty_TopologyInfo_def
      split: option.splits sum.splits)

lemma append_accepts:
  assumes S: "sv_log S = wal_ops c" and cov: "node_log c n es" and f: "rn_state n = StFollower" "rn_current_term n = ar_term q"
    and i: "rn_self_id n \<noteq> []" "ti_role (ar_topology q) = [] \<or> (\<exists>ro. ti_role (ar_topology q) = RoleToString ro)" and d: "direct q"
    and hp: "has_prev (rn_last_snapshot_index n) (rn_last_snapshot_term n) es (ar_prev_log_index q) (ar_prev_log_term q)"
    and new: "succeeds (ar_prev_log_index q) (map from_proto (ar_entries q))"
      "\<forall>e \<in> set (map from_proto (ar_entries q)). entry_ok e"
  shows "\<exists>a n'. HandleAppendEntries S q n = (Ok a, n') \<and> as_success a \<and> as_term a = ar_term q"
proof -
  obtain n1 where a: "accept_leader S (ar_term q) (ar_leader_id q) n = (Ok (), n1)"
    using f by (simp add: accept_leader_def)
  have c1: "vote_core n1 = vote_core n" using a f by (auto simp: accept_leader_def)
  then have id1: "rn_self_id n1 \<noteq> []" using i(1) by (simp add: vote_core_def)
  obtain n2 where b: "accept_topology (ar_topology q) n1 = (Ok (), n2)"
    using topology_accepted [OF id1] i(2) by blast
  have k: "log_core n2 = log_core n" using log_core_accept_topology [OF b] log_core_accept_leader [OF a] by simp
  note kf = log_core_fields [OF k]
  have cov2: "node_log c n2 es" using wal_store.covers_core [OF k] cov by simp
  have hp2: "has_prev (rn_last_snapshot_index n2) (rn_last_snapshot_term n2) es (ar_prev_log_index q) (ar_prev_log_term q)"
    using hp kf by simp
  have cp: "check_prev S q n2 = (None, n2)" using wal_store.check_prev_spec [OF S cov2, of q] hp2 by auto
  obtain w' where w': "onLog (store_entries (sv_log S) (rn_last_snapshot_index n2) (map from_proto (ar_entries q))) n2 =
      (Ok (), n2\<lparr>rn_wal := w'\<rparr>)" using wal_store.store_batch [OF S cov2 hp2 new] by blast
  have t: "rn_current_term n2 = ar_term q" using core_accept_topology [OF b] c1 f(2) by (simp add: vote_core_def)
  have "sender_authorized q n2" using d by (auto simp: sender_authorized_def direct_def Let_def)
  then show ?thesis
    using a b cp w' f(2) t
    by (simp add: HandleAppendEntries_def andThen_def Let_def append_reply_def queue_forward_def advance_commit_def)
qed

lemma demo_node_fields [simp]:
  "rn_wal (demo_node w i ps) = w" "rn_last_snapshot_index (demo_node w i ps) = 0" "rn_self_id (demo_node w i ps) = i"
  "rn_state (demo_node w i ps) = StFollower" "rn_commit_index (demo_node w i ps) = 0"
  "rn_config (demo_node w i ps) = demo_config i ps"
  by (simp_all add: demo_node_def RegisterConfiguredPeers_def RaftNode_new_def onTopology_def demo_config_def split: prod.splits)

definition demo_leader :: "wal \<Rightarrow> u32 \<Rightarrow> (wal, string option) node" where
  "demo_leader w b = (demo_node w ''a'' [''b'', ''c''])\<lparr>
     rn_config := (demo_config ''a'' [''b'', ''c''])\<lparr>cfg_raft := default_RaftConfig\<lparr>rc_batch_max_entries := b\<rparr>\<rparr>,
     rn_state := StLeader, rn_current_term := 2, rn_flushed_index := 2,
     rn_peer_progress := [(''b'', default_PeerProgress), (''c'', default_PeerProgress)]\<rparr>"

definition demo_follower :: "wal \<Rightarrow> (wal, string option) node" where
  "demo_follower w = (demo_node w ''b'' [''a'', ''c''])\<lparr>rn_current_term := 2\<rparr>"

definition new_log :: "LogEntry list" where
  "new_log = [sample_entry 1 1, sample_entry 2 2]"

definition old_log :: "LogEntry list" where
  "old_log = [sample_entry 1 1, sample_entry 2 1]"

lemma demo_services_log: "sv_log demo_services = wal_ops sample_codec"
  by (simp add: demo_services_def)

lemma two_entries:
  assumes "s < 2 ^ 64" and "t < 2 ^ 64"
  shows "\<exists>w. wal_holds sample_codec w [sample_entry 1 s, sample_entry 2 t] \<and> w_last_index w = 2"
  using wal_build [OF sample_codec_ok, of "[sample_entry 1 s, sample_entry 2 t]"] assms
  by (auto simp: sample_entry_ok upt_rec)

lemma demo_logs:
  "\<exists>w. \<forall>b. node_log sample_codec (demo_leader w b) new_log" "\<exists>w. node_log sample_codec (demo_follower w) old_log"
  using two_entries [of 1 2] two_entries [of 1 1]
  by (auto simp: covers_def spans_def new_log_def old_log_def demo_leader_def demo_follower_def)

lemma demo_dispatch:
  assumes "node_log sample_codec (demo_leader w b) new_log" and "b \<noteq> 0"
  shows "\<exists>q n'. ReplicatePeerOnce_dispatch demo_services ''b'' (demo_leader w b) = (Ok (Dispatch q), n') \<and>
    ar_prev_log_index q = 0 \<and> ar_prev_log_term q = 0 \<and> ar_entries q = map to_proto (take (unat b) new_log) \<and>
    ar_term q = 2 \<and> direct q \<and> ar_topology q = topology_or_empty ''b'' (demo_leader w b) \<and>
    n' = set_progress ''b'' (default_PeerProgress\<lparr>pp_in_flight := 1, pp_last_send_time := rn_now (demo_leader w b),
      pp_next_index := 1 + length (ar_entries q)\<rparr>) (demo_leader w b)"
proof -
  let ?n = "demo_leader w b"
  have h: "wal_holds sample_codec (rn_wal ?n) new_log" using assms(1) by (simp add: covers_def)
  have b: "0 < unat b" using assms(2) by (simp add: unat_gt_0)
  have f: "log_from new_log 1 = new_log" by (simp add: new_log_def log_from_def)
  have r: "onLog (lo_ReadFrom (sv_log demo_services) 1 (unat b)) ?n = (Ok (take (unat b) new_log), ?n)"
    using wal_store.read_from [OF h, of 1 "unat b"] b f
    by (simp add: onLog_def demo_services_log new_log_def del: wal_ops_simps)
  have n: "IsLeader ?n" "map_of (rn_peer_progress ?n) ''b'' = Some default_PeerProgress" "rn_last_snapshot_index ?n = 0"
      "rc_batch_max_entries (raft_cfg ?n) = b" "rc_pipeline_window_size (raft_cfg ?n) = 16" "rn_current_term ?n = 2"
    by (simp_all add: demo_leader_def IsLeader_def demo_config_def default_RaftConfig_def)
  have e: "take (unat b) new_log \<noteq> []" using b by (simp add: new_log_def)
  show ?thesis
    using n r e by (simp add: ReplicatePeerOnce_dispatch_def andThen_def Let_def window_of_def default_PeerProgress_def
        TermAtLogicalIndex_def append_request_def direct_def progress_of_def)
qed

text \<open>The leader sends up to \<open>b\<close> entries of its log to the follower, who takes them.\<close>

definition exchange ::
    "u32 \<Rightarrow> wal \<Rightarrow> wal \<Rightarrow> AppendEntriesRequest \<Rightarrow> (wal, string option) node \<Rightarrow> AppendEntriesResponse \<Rightarrow>
     (wal, string option) node \<Rightarrow> bool" where
  "exchange b wa wb q l' a f' \<longleftrightarrow>
     node_log sample_codec (demo_leader wa b) new_log \<and> node_log sample_codec (demo_follower wb) old_log \<and>
     ReplicatePeerOnce_dispatch demo_services ''b'' (demo_leader wa b) = (Ok (Dispatch q), l') \<and>
     HandleAppendEntries demo_services q (demo_follower wb) = (Ok a, f') \<and> as_success a \<and> as_term a = 2 \<and>
     ar_prev_log_index q = 0 \<and> ar_entries q = map to_proto (take (unat b) new_log) \<and>
     succeeds (ar_prev_log_index q) (map from_proto (ar_entries q)) \<and>
     (\<forall>e \<in> set (map from_proto (ar_entries q)). entry_ok e) \<and>
     l' = set_progress ''b'' (default_PeerProgress\<lparr>pp_in_flight := 1, pp_last_send_time := rn_now (demo_leader wa b),
      pp_next_index := 1 + length (ar_entries q)\<rparr>) (demo_leader wa b)"

lemma demo_exchange:
  assumes "b \<noteq> 0"
  shows "\<exists>wa wb q l' a f'. exchange b wa wb q l' a f'"
proof -
  obtain wa wb where l: "node_log sample_codec (demo_leader wa b) new_log" and f: "node_log sample_codec (demo_follower wb) old_log"
    using demo_logs by blast
  obtain q l' where d: "ReplicatePeerOnce_dispatch demo_services ''b'' (demo_leader wa b) = (Ok (Dispatch q), l')"
    and q: "ar_prev_log_index q = 0" "ar_prev_log_term q = 0" "ar_entries q = map to_proto (take (unat b) new_log)" "ar_term q = 2"
      "direct q" "ar_topology q = topology_or_empty ''b'' (demo_leader wa b)"
    and l': "l' = set_progress ''b'' (default_PeerProgress\<lparr>pp_in_flight := 1, pp_last_send_time := rn_now (demo_leader wa b),
      pp_next_index := 1 + length (ar_entries q)\<rparr>) (demo_leader wa b)"
    using demo_dispatch [OF l assms] by auto
  have "0 < pp_next_index (progress_of ''b'' (demo_leader wa b))"
    by (simp add: progress_of_def demo_leader_def default_PeerProgress_def)
  from wal_store.dispatch_run [OF demo_services_log l this d]
  have new: "succeeds (ar_prev_log_index q) (map from_proto (ar_entries q))" "\<forall>e \<in> set (map from_proto (ar_entries q)). entry_ok e"
    unfolding run_of_def by blast+
  have n: "rn_self_id (demo_follower wb) \<noteq> []" "rn_state (demo_follower wb) = StFollower" "rn_current_term (demo_follower wb) = ar_term q"
    "has_prev (rn_last_snapshot_index (demo_follower wb)) (rn_last_snapshot_term (demo_follower wb)) old_log (ar_prev_log_index q) (ar_prev_log_term q)"
    using q by (simp_all add: demo_follower_def has_prev_def)
  obtain a f' where "HandleAppendEntries demo_services q (demo_follower wb) = (Ok a, f')" "as_success a" "as_term a = 2"
    using append_accepts [OF demo_services_log f n(2,3,1) _ q(5) n(4) new] topology_or_empty_role [of "''b''" "demo_leader wa b"] q(4,6)
    by auto
  then show ?thesis unfolding exchange_def using l f d q new l' by blast
qed

section \<open>Properties\<close>

text \<open>
  C3: storing the entries of a leader refines merging on the abstract log. A node whose log
  (with its snapshot) reaches back to the beginning answers a batch of consecutive entries
  either with an error or a refusal, and then its log and its commit index are as before, or
  with success. Success means that the entry before the batch is there with the leader's term,
  that the log is afterwards the merge of the old one with the batch (entries that agree are
  kept, the first conflicting entry and all after it are replaced, missing ones are
  appended), that the commit index is the larger of the old one and the leader's bounded by
  the end of the log, and that the index reported is the end of the log. A current leader's
  own batch is refused only when the entry before it is missing or has another term.
\<close>

theorem append_entries_refines_merge:
  assumes "sv_log S = wal_ops c" and "node_log c n es"
    and "succeeds (ar_prev_log_index q) (map from_proto (ar_entries q))"
    and "\<forall>e \<in> set (map from_proto (ar_entries q)). entry_ok e"
    and "HandleAppendEntries S q n = (r, n')"
  shows "case r of
      Err _ \<Rightarrow> unchanged n n'
    | Ok a \<Rightarrow>
        if as_success a
        then has_prev (rn_last_snapshot_index n) (rn_last_snapshot_term n) es (ar_prev_log_index q) (ar_prev_log_term q) \<and>
          node_log c n' (merge es (map from_proto (ar_entries q))) \<and>
          rn_commit_index n' = max (rn_commit_index n) (min (ar_leader_commit q) (LogicalLastIndex S n')) \<and>
          as_match_index a = LogicalLastIndex S n'
        else unchanged n n' \<and> (direct q \<and> rn_current_term n \<le> ar_term q \<longrightarrow>
          \<not> has_prev (rn_last_snapshot_index n) (rn_last_snapshot_term n) es (ar_prev_log_index q) (ar_prev_log_term q))"
  using wal_store.append_outcome [OF assms] assms(1) by (auto simp: stored_def split: sum.splits)

theorem append_entries_refines_merge_witness:
  "\<exists>w q a n'. node_log sample_codec (demo_follower w) old_log \<and>
    HandleAppendEntries demo_services q (demo_follower w) = (Ok a, n') \<and> as_success a \<and>
    node_log sample_codec n' new_log \<and> as_match_index a = LogicalLastIndex demo_services n'"
proof -
  obtain wa wb q l' a f' where "exchange 64 wa wb q l' a f'" using demo_exchange [of 64] by auto
  note e = this [unfolded exchange_def]
  have "merge old_log (map from_proto (ar_entries q)) = new_log"
    using e by (simp add: comp_def old_log_def new_log_def log_read_def log_below_def)
  then have "node_log sample_codec f' new_log \<and> as_match_index a = LogicalLastIndex demo_services f'"
    using append_entries_refines_merge [OF demo_services_log, of "demo_follower wb" old_log q "Ok a" f'] e by auto
  then show ?thesis using e by blast
qed

text \<open>
  C2: replication keeps log matching. Take a leader and a follower that keep their whole logs,
  matching each other (an entry of one index and term is in both only with everything before
  it being the same), and let the follower answer with success a batch that the leader built
  from its log. Then the follower's new log is the leader's up to the end of the batch, it
  matches the leader's log, and it matches every third log that matched both before.
\<close>

theorem replication_keeps_log_matching:
  assumes "sv_log S = wal_ops c" and "node_log c leader ls" and "node_log c follower es"
    and "rn_last_snapshot_index leader = 0" and "rn_last_snapshot_index follower = 0" and "matching es ls"
    and "0 < pp_next_index (progress_of peer leader)"
    and "ReplicatePeerOnce_dispatch S peer leader = (Ok (Dispatch q), leader')"
    and "HandleAppendEntries S q follower = (Ok a, follower')" and "as_success a"
  shows "\<exists>es'. node_log c follower' es' \<and> agree (ar_prev_log_index q + length (ar_entries q)) es' ls \<and>
    matching es' ls \<and> (\<forall>zs. matching es zs \<and> matching ls zs \<longrightarrow> matching es' zs)"
proof -
  let ?new = "map from_proto (ar_entries q)" and ?p = "ar_prev_log_index q"
  note d = wal_store.dispatch_run [OF assms(1,2,7,8)]
  have run: "run_of ls ?p ?new" and ok: "\<forall>e \<in> set ?new. entry_ok e" and pl: "has_prev 0 (rn_last_snapshot_term leader) ls ?p (ar_prev_log_term q)"
    using d assms(4) by simp_all
  have s: "succeeds ?p ?new" using run by (simp add: run_of_def)
  have st: "stored (wal_holds c) w_start S q es follower follower'"
    using wal_store.append_outcome [OF assms(1,3) s ok assms(9)] assms(10) by simp
  have pf: "has_prev 0 (rn_last_snapshot_term follower) es ?p (ar_prev_log_term q)" using st assms(5) by (simp add: stored_def)
  have h: "wal_holds c (rn_wal leader) ls" "wal_holds c (rn_wal follower) es" "spans 0 es"
    using assms(2,3,5) by (simp_all add: covers_def)
  have zero: "log_read ls 0 = None" "log_read es 0 = None"
    using wal_store.holds_entry_ok [OF h(1)] wal_store.holds_entry_ok [OF h(2)] by (auto simp: log_read_None entry_ok_def)
  have "agree ?p es ls"
  proof (cases "?p = 0")
    case False
    then obtain x y where "log_read es ?p = Some x" "log_read ls ?p = Some y" "le_term x = le_term y"
      using pl pf by (auto simp: has_prev_def)
    then show ?thesis by (rule matchingD [OF assms(6)])
  qed (use zero in \<open>simp add: agree_def\<close>)
  moreover have "reaches es ?p"
    by (rule spans_reaches [OF wal_store.holds_contiguous [OF h(2)] h(3)]) (use pf in \<open>simp_all add: has_prev_def\<close>)
  ultimately show ?thesis
    using merge_agree [OF _ run assms(6)] merge_matching [OF _ run assms(6)] st assms(1,6) matching_refl [of ls]
    by (intro exI [of _ "merge es ?new"]) (auto simp: stored_def)
qed

lemma matching_old_new: "matching old_log new_log"
proof -
  have "j \<le> 1 \<Longrightarrow> log_read old_log j = log_read new_log j" for j by (simp add: old_log_def new_log_def log_read_def)
  then show ?thesis by (auto simp: matching_def old_log_def new_log_def log_read_def split: if_splits)
qed

theorem replication_keeps_log_matching_witness:
  "\<exists>wa wb q l' a f' es'. matching old_log new_log \<and>
    ReplicatePeerOnce_dispatch demo_services ''b'' (demo_leader wa 64) = (Ok (Dispatch q), l') \<and>
    HandleAppendEntries demo_services q (demo_follower wb) = (Ok a, f') \<and>
    node_log sample_codec (demo_follower wb) old_log \<and> node_log sample_codec f' es' \<and> agree 2 es' new_log"
proof -
  obtain wa wb q l' a f' where "exchange 64 wa wb q l' a f'" using demo_exchange [of 64] by auto
  note e = this [unfolded exchange_def]
  have n: "ar_prev_log_index q + length (ar_entries q) = 2" using e by (simp add: new_log_def)
  have "0 < pp_next_index (progress_of ''b'' (demo_leader wa 64))" "rn_last_snapshot_index (demo_leader wa 64) = 0"
    "rn_last_snapshot_index (demo_follower wb) = 0"
    by (simp_all add: progress_of_def demo_leader_def demo_follower_def default_PeerProgress_def)
  then have "\<exists>es'. node_log sample_codec f' es' \<and> agree 2 es' new_log"
    using replication_keeps_log_matching [OF demo_services_log, of "demo_leader wa 64" new_log "demo_follower wb" old_log
        "''b''" q l' a f'] e matching_old_new n by auto
  then show ?thesis using e matching_old_new by blast
qed

text \<open>The leader of the runs commits on a report of index 2.\<close>

lemma ack_commits:
  assumes cov: "node_log sample_codec (demo_leader wa 1) new_log" and a: "as_term a = 2" "as_success a" "as_match_index a = 2"
    and l': "l' = set_progress ''b'' pp (demo_leader wa 1)"
  shows "rn_commit_index (AppendEntries_callback demo_services ''b'' sent q (Ok a) l') = 2"
proof -
  let ?n = "UpdatePeerAck demo_services ''b'' 2 sent l'"
  let ?pp = "acked (rn_now l') ''b'' 2 sent pp"
  have n: "rn_wal ?n = wa" "rn_last_snapshot_index ?n = 0" "rn_state ?n = StLeader" "rn_current_term ?n = 2"
      "rn_flushed_index ?n = 2" "rn_commit_index ?n = 0" "peers ?n = [''b'', ''c'']"
      "rn_peer_progress ?n = [(''b'', ?pp), (''c'', default_PeerProgress)]"
    by (simp_all add: UpdatePeerAck_def Let_def l' set_progress_def onTopology_def demo_leader_def demo_config_def progress_of_def)
  have cov': "node_log sample_codec ?n new_log" using cov n(1,2) by (simp add: covers_def demo_leader_def)
  have last: "LogicalLastIndex demo_services ?n = Suc (Suc 0)"
    using wal_store.covers_last [OF demo_services_log cov'] by (simp add: log_last_def new_log_def numeral_2_eq_2)
  have t: "TermAtLogicalIndex demo_services (Suc (Suc 0)) ?n = (Ok 2, ?n)"
    using wal_store.covers_term_at [OF demo_services_log cov', of 2] n(2)
    by (simp add: new_log_def log_read_def flip: numeral_2_eq_2)
  have "pp_match_index ?pp \<ge> 2" by (simp add: acked_def add_latency_def ResetPeerRollbackStateLocked_def)
  then have "matched_count ?n (Suc (Suc 0)) = 2" using n(5,8) by (simp add: matched_count_def default_PeerProgress_def)
  then have "commit_scan demo_services 0 (Suc (Suc 0)) ?n = (Ok 2, ?n)" using t n(4,7) by (simp add: QuorumSize_def)
  then have "rn_commit_index (snd (MaybeCommit demo_services ?n)) = 2"
    using last n(3,6) by (simp add: MaybeCommit_def IsLeader_def andThen_def RequestImmediateHeartbeat_def)
  then show ?thesis
    using a n by (simp add: AppendEntries_callback_def l' IsLeader_def RequestReplication_def set_progress_def demo_leader_def)
qed

text \<open>
  C33: the index a follower reports can be beyond what it shares with the leader, and the leader
  then commits an entry that no other node has. The leader of term 2 has entry 2 of term 2, the
  follower has entry 2 of term 1 (the two logs match, as they may after an election); the
  leader's batch holds only entry 1. The follower reports index 2, the end of its log, and the
  leader, with the report, commits index 2 although the follower's entry there is another one
  and the third node has confirmed nothing.
\<close>

theorem match_index_overclaims:
  "\<exists>wa wb q l' a f'. matching old_log new_log \<and>
    node_log sample_codec (demo_leader wa 1) new_log \<and> node_log sample_codec (demo_follower wb) old_log \<and>
    ReplicatePeerOnce_dispatch demo_services ''b'' (demo_leader wa 1) = (Ok (Dispatch q), l') \<and>
    HandleAppendEntries demo_services q (demo_follower wb) = (Ok a, f') \<and>
    node_log sample_codec f' old_log \<and> log_read old_log 2 \<noteq> log_read new_log 2 \<and>
    pp_match_index (progress_of ''c'' l') = 0 \<and>
    rn_commit_index (AppendEntries_callback demo_services ''b'' 0 q (Ok a) l') = 2"
proof -
  obtain wa wb q l' a f' where "exchange 1 wa wb q l' a f'" using demo_exchange [of 1] by auto
  note e = this [unfolded exchange_def]
  have m: "merge old_log (map from_proto (ar_entries q)) = old_log"
    using e by (simp add: comp_def old_log_def new_log_def log_read_def)
  note o = wal_store.append_outcome [OF demo_services_log, of "demo_follower wb" old_log q "Ok a" f']
  have f: "node_log sample_codec f' old_log" "as_match_index a = LogicalLastIndex demo_services f'"
    using o e m by (auto simp: stored_def demo_services_log)
  have "LogicalLastIndex demo_services f' = 2"
    using wal_store.covers_last [OF demo_services_log f(1)] by (simp add: log_last_def old_log_def)
  then have a: "as_match_index a = 2" "as_term a = 2" "as_success a" using f(2) e by simp_all
  have "rn_commit_index (AppendEntries_callback demo_services ''b'' 0 q (Ok a) l') = 2"
    by (rule ack_commits) (use e a in simp_all)
  moreover have "pp_match_index (progress_of ''c'' l') = 0"
    using e by (simp add: progress_of_def set_progress_def demo_leader_def default_PeerProgress_def)
  moreover have "log_read old_log 2 \<noteq> log_read new_log 2"
    by (simp add: old_log_def new_log_def log_read_def sample_entry_def)
  ultimately show ?thesis using e f(1) matching_old_new by blast
qed

end
