(* ===== verification/RaftCommit.thy ===== *)
theory RaftCommit
  imports ReplicationRuns
begin

text \<open>
  Commitment, the progress kept for the peers, and the lease: what the leader concludes from the
  answers of its peers.
\<close>

section \<open>Commitment\<close>

text \<open>The entries of the current term above the commit index that a quorum has stored.\<close>

definition committable :: "('w, 'e) node \<Rightarrow> LogEntry list \<Rightarrow> nat set" where
  "committable n es = le_index ` {e \<in> set es. le_term e = rn_current_term n \<and> rn_commit_index n < le_index e \<and>
     QuorumSize n \<le> matched_count n (le_index e)}"

lemma committable_iff:
  assumes "contiguous es"
  shows "i \<in> committable n es \<longleftrightarrow> rn_commit_index n < i \<and> QuorumSize n \<le> matched_count n i \<and>
    (\<exists>e. log_read es i = Some e \<and> le_term e = rn_current_term n)"
  using log_read_mem [OF assms] log_read_index log_read_in unfolding committable_def by (fastforce simp: image_iff)

lemma Max_insert_upto:
  assumes "finite A"
  shows "Max (insert c (A \<inter> {..Suc k})) = (if Suc k \<in> A \<and> c \<le> Suc k then Suc k else Max (insert c (A \<inter> {..k})))"
proof (cases "Suc k \<in> A")
  case True
  then have i: "A \<inter> {..Suc k} = insert (Suc k) (A \<inter> {..k})" by (auto simp: le_Suc_eq)
  define M where "M = Max (insert c (A \<inter> {..k}))"
  have "M \<le> max c k" unfolding M_def using assms by (subst Max_le_iff) (auto simp: max_def)
  moreover have "c \<le> M" unfolding M_def using assms by simp
  moreover have "Max (insert c (A \<inter> {..Suc k})) = max (Suc k) M"
    unfolding i insert_commute [of c] M_def using assms by (subst Max_insert) simp_all
  ultimately show ?thesis unfolding M_def [symmetric] using True
    by (simp only: if_True simp_thms split: if_split) linarith
next
  case False
  then have "A \<inter> {..Suc k} = A \<inter> {..k}" by (auto simp: le_Suc_eq)
  then show ?thesis using False by simp
qed

lemma finite_committable [simp]: "finite (committable n es)"
  by (simp add: committable_def)

lemma commit_scan_Max:
  assumes S: "sv_log S = wal_ops c" and cov: "node_log c n es" and si: "rn_last_snapshot_index n \<le> rn_commit_index n"
    and k: "k \<le> log_last (rn_last_snapshot_index n) es"
  shows "commit_scan S (rn_commit_index n) k n =
    (Ok (Max (insert (rn_commit_index n) (committable n es \<inter> {..k}))), n)"
  using k
proof (induction k)
  case 0
  have "committable n es \<inter> {..0} = {}" by (auto simp: committable_def)
  then show ?case by simp
next
  case (Suc k)
  have c: "contiguous es" using cov wal_store.holds_contiguous by (auto simp: covers_def)
  show ?case
  proof (cases "Suc k > rn_commit_index n")
    case False
    then have "committable n es \<inter> {..Suc k} = {}" by (auto simp: committable_iff [OF c])
    then show ?thesis using False by simp
  next
    case True
    have ne: "es \<noteq> []" using Suc.prems True si by (auto simp: log_last_def split: if_splits)
    then obtain e where e: "log_read es (Suc k) = Some e"
      using log_read_nth [OF c, of "Suc k"] Suc.prems True si cov by (auto simp: covers_def spans_def log_last_def)
    have t: "TermAtLogicalIndex S (Suc k) n = (Ok (le_term e), n)"
      using wal_store.covers_term_at [OF S cov, of "Suc k"] True si e by simp
    have "Suc k \<in> committable n es \<longleftrightarrow> le_term e = rn_current_term n \<and> QuorumSize n \<le> matched_count n (Suc k)"
      using True e by (auto simp: committable_iff [OF c])
    then show ?thesis
      using Suc True t Max_insert_upto [OF finite_committable, of "rn_commit_index n" n es k] by simp
  qed
qed

text \<open>
  C5: the descending scan of \<open>MaybeCommit\<close> computes the greatest index the rules of Raft allow.
  On a leader whose log reaches back to its snapshot, and whose snapshot is committed,
  \<open>MaybeCommit\<close> succeeds and the commit index becomes the greatest index of an entry of the
  current term that a quorum has stored (the leader's own flushed log counts as one vote), or
  stays as it is when there is no such entry above it; the log is not touched.
\<close>

theorem maybe_commit_greatest:
  assumes "sv_log S = wal_ops c" and "node_log c n es" and "IsLeader n"
    and "rn_last_snapshot_index n \<le> rn_commit_index n"
  shows "\<exists>n'. MaybeCommit S n = (Ok (), n') \<and> rn_wal n' = rn_wal n \<and>
    rn_commit_index n' = Max (insert (rn_commit_index n) (committable n es))"
proof -
  have c: "contiguous es" using assms(2) wal_store.holds_contiguous by (auto simp: covers_def)
  have "i \<le> log_last (rn_last_snapshot_index n) es" if "i \<in> committable n es" for i
    using that last_index_max [OF c] by (auto simp: committable_def log_last_def)
  then have "committable n es \<inter> {..log_last (rn_last_snapshot_index n) es} = committable n es" by auto
  then have s: "commit_scan S (rn_commit_index n) (LogicalLastIndex S n) n =
      (Ok (Max (insert (rn_commit_index n) (committable n es))), n)"
    using commit_scan_Max [OF assms(1,2,4) order_refl] wal_store.covers_last [OF assms(1,2)] by simp
  define M where "M = Max (insert (rn_commit_index n) (committable n es))"
  have "rn_commit_index n \<le> M" unfolding M_def by (rule Max_ge) simp_all
  then show ?thesis
    using s [folded M_def] assms(3) unfolding M_def [symmetric]
    by (auto simp: MaybeCommit_def andThen_def RequestImmediateHeartbeat_def)
qed

definition acked_leader :: "wal \<Rightarrow> (wal, string option) node" where
  "acked_leader w = (demo_leader w 1)\<lparr>rn_peer_progress :=
     [(''b'', default_PeerProgress\<lparr>pp_match_index := 2\<rparr>), (''c'', default_PeerProgress)]\<rparr>"

theorem maybe_commit_greatest_witness:
  "\<exists>w n'. MaybeCommit demo_services (acked_leader w) = (Ok (), n') \<and> rn_commit_index (acked_leader w) = 0 \<and>
    rn_commit_index n' = 2"
proof -
  obtain w where w: "node_log sample_codec (demo_leader w 1) new_log" using demo_logs by blast
  let ?n = "acked_leader w"
  have cov: "node_log sample_codec ?n new_log" using w by (simp add: covers_def acked_leader_def)
  have n: "IsLeader ?n" "rn_last_snapshot_index ?n = 0" "rn_commit_index ?n = 0" "rn_current_term ?n = 2" "QuorumSize ?n = 2"
      "matched_count ?n 2 = 2"
    by (simp_all add: acked_leader_def demo_leader_def IsLeader_def QuorumSize_def demo_config_def matched_count_def
        default_PeerProgress_def)
  have "{e \<in> set new_log. le_term e = 2 \<and> 0 < le_index e \<and> 2 \<le> matched_count ?n (le_index e)} = {sample_entry 2 2}"
    using n(6) by (auto simp: new_log_def)
  then have "committable ?n new_log = {2}" unfolding committable_def n by simp
  then show ?thesis using maybe_commit_greatest [OF demo_services_log cov n(1)] n by auto
qed

section \<open>Falling back after refusals\<close>

text \<open>How far the leader falls back after \<open>f\<close> refusals in a row: linear up to \<open>l\<close>, then doubling up to a cap.\<close>

definition retreat :: "nat \<Rightarrow> nat \<Rightarrow> nat" where
  "retreat l f = (if l < f then l + 2 ^ min (f - l - 1) 20 else f)"

definition linear_rounds :: "u32 \<Rightarrow> nat" where
  "linear_rounds w = unat (max 1 (w * 2))"

definition rollback_ok :: "u32 \<Rightarrow> PeerProgress \<Rightarrow> bool" where
  "rollback_ok w p \<longleftrightarrow> (if pp_rollback_anchor_index p = 0 then pp_rollback_failures p = 0
     else pp_next_index p = max 1 (pp_rollback_anchor_index p - retreat (linear_rounds w) (unat (pp_rollback_failures p))))"

lemma retreat_0 [simp]: "retreat l 0 = 0"
  by (simp add: retreat_def)

lemma retreat_Suc:
  assumes "f < l + 21"
  shows "retreat l f < retreat l (Suc f)"
proof -
  consider "Suc f \<le> l" | "f = l" | "l < f" "f < l + 21" using assms by linarith
  then show ?thesis
  proof cases
    case 3
    then have "min (Suc f - l - 1) 20 = f - l" "min (f - l - 1) 20 < f - l" by auto
    then have "(2::nat) ^ min (f - l - 1) 20 < 2 ^ min (Suc f - l - 1) 20" by simp
    then show ?thesis using 3(1) by (simp add: retreat_def)
  qed (simp_all add: retreat_def)
qed

lemma retreat_cap: "l + 21 \<le> f \<Longrightarrow> retreat l (Suc f) = retreat l f"
  by (simp add: retreat_def)

lemma ApplyRollback_next:
  fixes w :: u32 and p :: PeerProgress and a c :: nat
  assumes "unat (pp_rollback_failures p) + 1 < 2 ^ 32"
  defines "anchor \<equiv> (if pp_rollback_anchor_index p = 0 then a else pp_rollback_anchor_index p)"
  defines "p' \<equiv> ApplyPeerRollbackStateLocked w p a c"
  shows "unat (pp_rollback_failures p') = Suc (unat (pp_rollback_failures p))"
    "pp_rollback_anchor_index p' = (if c \<noteq> 0 then min anchor c else anchor)"
    "pp_next_index p' = max 1 (pp_rollback_anchor_index p' - retreat (linear_rounds w) (Suc (unat (pp_rollback_failures p))))"
proof -
  let ?f = "pp_rollback_failures p" and ?l = "max 1 (w * 2)"
  have f: "unat (?f + 1) = Suc (unat ?f)" using assms(1) by (simp add: unat_word_ariths)
  then show "unat (pp_rollback_failures p') = Suc (unat (pp_rollback_failures p))"
    by (simp add: p'_def ApplyPeerRollbackStateLocked_def Let_def)
  show "pp_rollback_anchor_index p' = (if c \<noteq> 0 then min anchor c else anchor)"
    by (auto simp: p'_def anchor_def ApplyPeerRollbackStateLocked_def Let_def)
  have r: "(if ?f + 1 > ?l then unat ?l + 2 ^ unat (min (?f + 1 - ?l - 1) 20) else unat (?f + 1)) =
      retreat (unat ?l) (Suc (unat ?f))"
  proof (cases "?f + 1 > ?l")
    case True
    then have lt: "unat ?l < Suc (unat ?f)" unfolding word_less_nat_alt f .
    have d: "unat (?f + 1 - ?l) = Suc (unat ?f) - unat ?l" using unat_sub [OF less_imp_le [OF True]] unfolding f .
    then have "unat (?f + 1 - ?l - 1) = Suc (unat ?f) - unat ?l - 1"
      using lt by (subst unat_sub) (simp_all add: word_le_nat_alt)
    then have "unat (min (?f + 1 - ?l - 1) 20) = min (Suc (unat ?f) - unat ?l - 1) 20"
      by (simp add: min_def word_le_nat_alt)
    then show ?thesis using True lt by (simp add: retreat_def)
  next
    case False
    then have "\<not> unat ?l < Suc (unat ?f)" unfolding word_less_nat_alt f .
    then show ?thesis unfolding if_not_P [OF False] f by (simp add: retreat_def)
  qed
  show "pp_next_index p' = max 1 (pp_rollback_anchor_index p' - retreat (linear_rounds w) (Suc (unat (pp_rollback_failures p))))"
    unfolding linear_rounds_def r [symmetric] by (auto simp: p'_def ApplyPeerRollbackStateLocked_def Let_def max_def)
qed



end
