(* ===== verification/RaftLease.thy ===== *)
theory RaftLease
  imports RaftCommit
begin

text \<open>
  The read lease of a leader against the election timers of its followers.
\<close>

section \<open>Renewing\<close>

lemma Lease_Renew_unat:
  fixes d :: u32
  shows "Lease_IsValid t (Lease_Renew now (uint d) l) \<longleftrightarrow> 0 < unat d \<and> t < now + unat d"
proof -
  have "uint d = int (unat d)" by simp
  then show ?thesis unfolding Lease_Renew_valid by linarith
qed

definition hb_success :: "nat \<Rightarrow> string \<times> HeartbeatResponse result \<Rightarrow> bool" where
  "hb_success term x \<longleftrightarrow> (case snd x of Err _ \<Rightarrow> False | Ok a \<Rightarrow> hs_success a \<and> hs_term a \<le> term)"

definition hb_newer :: "nat \<Rightarrow> string \<times> HeartbeatResponse result \<Rightarrow> bool" where
  "hb_newer term x \<longleftrightarrow> (case snd x of Err _ \<Rightarrow> False | Ok a \<Rightarrow> term < hs_term a)"

text \<open>What a heartbeat round leaves alone.\<close>

definition lease_core :: "('w, 'e) node \<Rightarrow> Config \<times> LeaseManager \<times> time" where
  "lease_core n = (rn_config n, rn_lease n, rn_now n)"

lemma lease_core_helpers [simp]:
  "lease_core (UpdatePeerFailure p i n) = lease_core n" "lease_core (UpdatePeerHeartbeatAck p t n) = lease_core n"
  by (simp_all add: lease_core_def UpdatePeerFailure_def UpdatePeerHeartbeatAck_def set_progress_def onTopology_def Let_def)

lemma heartbeat_fold:
  assumes "fold (heartbeat_response sent) rs (h, k, n) = (h', k', n')"
  shows "lease_core n' = lease_core n \<and> h \<le> h' \<and> (\<exists>x \<in> set rs. hb_newer h x) = (h < h') \<and>
    (h' = h \<longrightarrow> k' = k + length (filter (hb_success h) rs))"
  using assms
proof (induction rs arbitrary: h k n)
  case (Cons x rs)
  obtain h1 k1 n1 where s: "heartbeat_response sent x (h, k, n) = (h1, k1, n1)"
    by (metis prod_cases3)
  have f: "fold (heartbeat_response sent) rs (h1, k1, n1) = (h', k', n')" using Cons.prems s by simp
  have x: "lease_core n1 = lease_core n" "h \<le> h1" "hb_newer h x = (h < h1)"
    "h1 = h \<longrightarrow> k1 = k + (if hb_success h x then 1 else 0)"
    using s by (auto simp: heartbeat_response_def hb_success_def hb_newer_def split: prod.splits sum.splits if_splits)
  have "(\<exists>y \<in> set rs. hb_newer h y) \<Longrightarrow> h < h'" and up: "h1 \<le> h'"
    using Cons.IH [OF f] x(2) by (fastforce simp: hb_newer_def split: sum.splits)+
  then show ?case using Cons.IH [OF f] x by (cases "h1 = h") auto
qed simp

lemma Follower_lease:
  assumes "BecomeFollower S t l n = (r, n')"
  shows "rn_lease n' = rn_lease n \<or> \<not> Lease_IsValid now (rn_lease n')"
  using assms
  by (auto simp: BecomeFollower_def andThen_def PersistMetaLocked_def onDisk_def onTopology_def NoteLeaderContactLocked_def
      ResetElectionDeadlineLocked_def Let_def split: if_splits sum.splits prod.splits)

text \<open>
  C37: a lease is renewed only by a quorum. When a round of heartbeats makes a lease valid at a
  time at which it was not, no answer carried a newer term, the nodes that answered with
  success in this round (the leader counts as one) are a quorum, and the lease ends the
  configured duration after the round was evaluated.
\<close>

theorem lease_renewed_by_quorum:
  assumes "BroadcastHeartbeat_end S term sent responses n = (r, n')"
    and "Lease_IsValid t (rn_lease n')" and "\<not> Lease_IsValid t (rn_lease n)"
  shows "r = Ok () \<and> (\<forall>x \<in> set responses. \<not> hb_newer term x) \<and>
    QuorumSize n \<le> 1 + length (filter (hb_success term) responses) \<and>
    t < rn_now n + unat (rc_lease_duration_ms (raft_cfg n))"
proof -
  obtain h k n1 where f: "fold (heartbeat_response sent) responses (term, 1, n) = (h, k, n1)" by (metis prod_cases3)
  note g = heartbeat_fold [OF f]
  have c: "rn_config n1 = rn_config n" "rn_lease n1 = rn_lease n" "rn_now n1 = rn_now n"
    using g by (simp_all add: lease_core_def)
  have q: "QuorumSize n1 = QuorumSize n" using c(1) by (simp add: QuorumSize_def)
  show ?thesis
  proof (cases "term < h")
    case True
    then have "BecomeFollower S h [] n1 = (r, n')" using assms(1) f by (simp add: BroadcastHeartbeat_end_def)
    then show ?thesis using Follower_lease [of S h "[]" n1 r n' t] assms(2,3) c(2) by simp
  next
    case False
    then have k: "h = term" "k = 1 + length (filter (hb_success term) responses)" using g by auto
    moreover have "QuorumSize n \<le> k"
      using assms f False q c(2) by (auto simp: BroadcastHeartbeat_end_def split: if_splits)
    moreover have "r = Ok ()" "n' = n1\<lparr>rn_lease := Lease_Renew (rn_now n1) (uint (rc_lease_duration_ms (raft_cfg n1))) (rn_lease n1)\<rparr>"
      using assms(1) f False q \<open>QuorumSize n \<le> k\<close> by (auto simp: BroadcastHeartbeat_end_def)
    ultimately show ?thesis
      using g assms(2) c(1,3) by (auto simp: Lease_Renew_unat)
  qed
qed

section \<open>The lease and the election timers\<close>

lemma RandomElectionTimeout_bounds:
  assumes "unat (rc_election_timeout_min_ms cfg) \<le> unat (rc_election_timeout_max_ms cfg)"
  shows "unat (rc_election_timeout_min_ms cfg) \<le> fst (RandomElectionTimeout cfg ds) \<and>
    fst (RandomElectionTimeout cfg ds) \<le> unat (rc_election_timeout_max_ms cfg)"
proof (cases ds)
  case (Cons x xs)
  let ?lo = "unat (rc_election_timeout_min_ms cfg)" and ?hi = "unat (rc_election_timeout_max_ms cfg)"
  have "x mod (?hi - ?lo + 1) < ?hi - ?lo + 1" by simp
  then have "?lo + x mod (?hi - ?lo + 1) \<le> ?hi" using assms by linarith
  moreover have "fst (RandomElectionTimeout cfg ds) = ?lo + x mod (?hi - ?lo + 1)"
    unfolding Cons RandomElectionTimeout_def Let_def by (simp only: list.case fst_conv)
  ultimately show ?thesis by simp
qed (use assms in \<open>simp add: RandomElectionTimeout_def\<close>)

lemma Note_deadline:
  "rn_election_deadline (NoteLeaderContactLocked n) = rn_now n + fst (RandomElectionTimeout (raft_cfg n) (rn_draws n))"
  "rn_now (NoteLeaderContactLocked n) = rn_now n"
  by (simp_all add: NoteLeaderContactLocked_def ResetElectionDeadlineLocked_def split: prod.splits)

lemma Persist_env:
  "PersistMetaLocked S t v n = (r, n') \<Longrightarrow> rn_config n' = rn_config n \<and> rn_now n' = rn_now n \<and> rn_draws n' = rn_draws n"
  by (auto simp: PersistMetaLocked_def onDisk_def Let_def split: sum.splits prod.splits)

lemma accept_leader_deadline:
  assumes "accept_leader S t l n = (Ok (), n')"
  shows "rn_election_deadline n' = rn_now n + fst (RandomElectionTimeout (raft_cfg n) (rn_draws n)) \<and> rn_now n' = rn_now n"
proof (cases "t > rn_current_term n \<or> rn_state n \<noteq> StFollower")
  case True
  obtain r1 n1 where p: "PersistMetaLocked S t [] n = (r1, n1)" by (cases "PersistMetaLocked S t [] n")
  note e = Persist_env [OF p]
  show ?thesis
    using assms True p e by (auto simp: accept_leader_def BecomeFollower_def andThen_def onTopology_def Note_deadline
        split: if_splits sum.splits)
next
  case False
  then show ?thesis using assms by (auto simp: accept_leader_def onTopology_def Note_deadline)
qed

lemma heartbeat_deadline:
  assumes "HandleHeartbeat S q n = (Ok a, n')" and "hs_success a"
  shows "rn_election_deadline n' = rn_now n + fst (RandomElectionTimeout (raft_cfg n) (rn_draws n)) \<and> rn_now n' = rn_now n"
proof -
  obtain n1 where n1: "accept_leader S (hr_term q) (hr_leader_id q) n = (Ok (), n1)"
    and r: "andThen (accept_topology (hr_topology q)) (\<lambda>_ n. let n = advance_commit S (hr_commit_index q) n in
         (Ok \<lparr>hs_term = rn_current_term n, hs_success = True, hs_node_id = self_name n\<rparr>, n)) n1 = (Ok a, n')"
    using assms by (auto simp: HandleHeartbeat_def andThen_def [of "accept_leader s t l" for s t l] split: if_splits sum.splits prod.splits)
  have "rn_election_deadline n' = rn_election_deadline n1 \<and> rn_now n' = rn_now n1"
    using r by (auto simp: andThen_def accept_topology_def advance_commit_def Let_def split: if_splits sum.splits prod.splits)
  then show ?thesis using accept_leader_deadline [OF n1] by simp
qed


section \<open>Three nodes\<close>

definition calm :: HeartbeatRequest where
  "calm = \<lparr>hr_term = 2, hr_leader_id = ''a'', hr_commit_index = 0, hr_topology = empty_TopologyInfo\<rparr>"

lemma demo_node_now: "rn_now (demo_node w i ps) = 0"
  by (simp add: demo_node_def RegisterConfiguredPeers_def RaftNode_new_def onTopology_def split: prod.splits)

lemma demo_heartbeat:
  "\<exists>a n'. HandleHeartbeat demo_services calm (demo_follower w) = (Ok a, n') \<and> hs_success a \<and> hs_term a = 2 \<and>
    n' = NoteLeaderContactLocked (onTopology (Topology_SetLeader ''a'' []) ((demo_follower w)\<lparr>rn_leader_id := ''a''\<rparr>))"
  by (simp add: HandleHeartbeat_def calm_def demo_follower_def accept_leader_def andThen_def accept_topology_def
      empty_TopologyInfo_def advance_commit_def NoteLeaderContactLocked_def ResetElectionDeadlineLocked_def onTopology_def
      split: prod.splits)

lemma demo_renews:
  assumes "hs_success a" and "hs_term a = 2"
  shows "\<exists>l'. BroadcastHeartbeat_end demo_services 2 0 [(''b'', Ok a)] (demo_leader w 1) = (Ok (), l') \<and>
    Lease_IsValid 249 (rn_lease l') \<and> \<not> Lease_IsValid 249 (rn_lease (demo_leader w 1))"
  using assms
  by (simp add: BroadcastHeartbeat_end_def heartbeat_response_def UpdatePeerHeartbeatAck_def Let_def set_progress_def
      onTopology_def QuorumSize_def demo_leader_def demo_config_def default_RaftConfig_def Lease_Renew_valid demo_node_def
      RaftNode_new_def RegisterConfiguredPeers_def LeaseManager_new_def Lease_IsValid_def [of _ "\<lparr>lm_expire_time = None\<rparr>"]
      split: prod.splits)

theorem lease_renewed_by_quorum_witness:
  "\<exists>w a l'. BroadcastHeartbeat_end demo_services 2 0 [(''b'', Ok a)] (demo_leader w 1) = (Ok (), l') \<and>
    Lease_IsValid 249 (rn_lease l') \<and> QuorumSize (demo_leader w 1) \<le> 1 + length (filter (hb_success 2) [(''b'', Ok a)])"
proof -
  obtain w where "node_log sample_codec (demo_leader w 1) new_log" using demo_logs by blast
  let ?a = "\<lparr>hs_term = 2, hs_success = True, hs_node_id = ''b''\<rparr>"
  obtain l' where l': "BroadcastHeartbeat_end demo_services 2 0 [(''b'', Ok ?a)] (demo_leader w 1) = (Ok (), l')"
      "Lease_IsValid 249 (rn_lease l')" "\<not> Lease_IsValid 249 (rn_lease (demo_leader w 1))"
    using demo_renews [of ?a w] by auto
  then show ?thesis using lease_renewed_by_quorum [OF l'] by blast
qed

lemma demo_timing: "timing_ok (raft_cfg (demo_leader w 64))" "raft_cfg (demo_follower w') = raft_cfg (demo_leader w 64)"
  by (simp_all add: demo_leader_def demo_follower_def demo_config_def default_RaftConfig_def timing_ok_def)


text \<open>
  C39: a valid lease does not keep the followers from electing another leader. In one and the
  same instant the follower accepts a heartbeat of the leader of term 2, whose lease this
  renews (with the leader the follower is a quorum of three), and grants its vote to a candidate
  of term 3: a node that has just heard from the leader votes like any other.
\<close>

theorem lease_does_not_exclude_votes:
  "\<exists>w v a f' q b f'' l'. HandleHeartbeat demo_services calm (demo_follower w) = (Ok a, f') \<and>
    BroadcastHeartbeat_end demo_services 2 0 [(''b'', Ok a)] (demo_leader v 1) = (Ok (), l') \<and>
    Lease_IsValid 249 (rn_lease l') \<and> rn_now f' = 0 \<and>
    HandleRequestVote demo_services q f' = (Ok b, f'') \<and> vq_term q = 3 \<and> vq_candidate_id q = ''c'' \<and> vs_vote_granted b"
proof -
  obtain w where w: "empty_log demo_services w" using demo_log by blast
  obtain a f' where h: "HandleHeartbeat demo_services calm (demo_follower w) = (Ok a, f')" "hs_success a" "hs_term a = 2"
      "f' = NoteLeaderContactLocked (onTopology (Topology_SetLeader ''a'' []) ((demo_follower w)\<lparr>rn_leader_id := ''a''\<rparr>))"
    using demo_heartbeat [of w] by blast
  have "idle w [''a'', ''c''] (demo_node w ''b'' [''a'', ''c''])"
    using demo_nodes(2) [of w] by (simp add: demo_cluster_def demo_members_def)
  then have i: "idle w [''a'', ''c''] f'" unfolding h(4) demo_follower_def by simp
  have t: "rn_current_term f' = 2" "rn_now f' = 0"
    unfolding h(4) by (simp_all add: demo_follower_def NoteLeaderContactLocked_def ResetElectionDeadlineLocked_def
        onTopology_def demo_node_now split: prod.splits)
  let ?q = "ballot_request 3 ''c''"
  obtain f'' where "HandleRequestVote demo_services ?q f' = (Ok \<lparr>vs_term = 3, vs_vote_granted = True\<rparr>, f'')"
    using idle_vote [OF i w, of ?q] demo_ascii(3) t(1) by auto
  then show ?thesis
    using h demo_renews [OF h(2,3), of w] t(2)
    by (intro exI [of _ w] exI [of _ a] exI [of _ f'] exI [of _ ?q]) auto
qed

end
