(* ===== verification/RaftStateMachine.thy ===== *)
theory RaftStateMachine
  imports RaftLease
begin

text \<open>
  The replicated state machine: applying committed entries, and what clients are told.
\<close>

section \<open>Applying entries in order\<close>

lemma apply_entry_log [simp]:
  "rn_wal (apply_entry S i e n) = rn_wal n" "rn_last_snapshot_index (apply_entry S i e n) = rn_last_snapshot_index n"
proof -
  obtain r n1 where c: "apply_command S e n = (r, n1)" by (cases "apply_command S e n")
  have "rn_wal n1 = rn_wal n" "rn_last_snapshot_index n1 = rn_last_snapshot_index n"
    using c by (auto simp: apply_command_def onIndex_def split: if_splits option.splits sum.splits prod.splits)
  then show "rn_wal (apply_entry S i e n) = rn_wal n" "rn_last_snapshot_index (apply_entry S i e n) = rn_last_snapshot_index n"
    by (auto simp: apply_entry_def c publish_result_def NotifyCommitListener_def UnregisterCommitListener_def
        MaybeTriggerSnapshot_def LaunchSnapshotTask_def Let_def split: option.splits prod.splits)
qed

definition pending :: "('w, 'e) node \<Rightarrow> LogEntry list \<Rightarrow> LogEntry list" where
  "pending n es = filter (\<lambda>e. rn_applied_index n < le_index e \<and> le_index e \<le> rn_commit_index n) es"

lemma filter_range_Cons:
  assumes "contiguous es" and "log_read es (Suc a) = Some e" and "Suc a \<le> c"
  shows "filter (\<lambda>e. a < le_index e \<and> le_index e \<le> c) es = e # filter (\<lambda>e. Suc a < le_index e \<and> le_index e \<le> c) es"
proof -
  obtain xs ys where es: "es = xs @ e # ys" using log_read_in [OF assms(2)] by (meson split_list)
  have i: "le_index e = Suc a" by (rule log_read_index [OF assms(2)])
  have s: "\<forall>x \<in> set xs. le_index x < Suc a" "\<forall>y \<in> set ys. Suc a < le_index y"
    using contiguous_sorted [OF assms(1)] unfolding es by (auto simp: sorted_wrt_append i)
  have "filter (\<lambda>e. a < le_index e \<and> le_index e \<le> c) xs = []" "filter (\<lambda>e. Suc a < le_index e \<and> le_index e \<le> c) xs = []"
    using s(1) by (force simp: filter_empty_conv)+
  moreover have "filter (\<lambda>e. a < le_index e \<and> le_index e \<le> c) ys = filter (\<lambda>e. Suc a < le_index e \<and> le_index e \<le> c) ys"
    using s(2) by (intro filter_cong) auto
  ultimately show ?thesis using i assms(3) by (simp add: es)
qed

lemma apply_fold:
  assumes S: "sv_log S = wal_ops c" and "node_log c n es" and "rn_last_snapshot_index n \<le> rn_applied_index n"
    and "rn_commit_index n \<le> log_last (rn_last_snapshot_index n) es"
  shows "ApplyCommittedEntries S n = fold (\<lambda>e. apply_entry S (le_index e) e) (pending n es) n \<and>
    rn_applied_index (ApplyCommittedEntries S n) = max (rn_applied_index n) (rn_commit_index n)"
  using assms(2-)
proof (induction "rn_commit_index n - rn_applied_index n" arbitrary: n)
  case 0
  then have le: "\<not> rn_applied_index n < rn_commit_index n" by simp
  then have "pending n es = []" by (auto simp: pending_def filter_empty_conv)
  then show ?case using le by (subst (1 2) ApplyCommittedEntries.simps) simp
next
  case (Suc k)
  let ?a = "rn_applied_index n"
  have lt: "?a < rn_commit_index n" using Suc(2) by simp
  have h: "wal_holds c (rn_wal n) es" and c: "contiguous es"
    using Suc.prems(1) wal_store.holds_contiguous by (auto simp: covers_def)
  have ne: "es \<noteq> []" using lt Suc.prems(2,3) by (auto simp: log_last_def split: if_splits)
  then obtain e where e: "log_read es (Suc ?a) = Some e"
    using log_read_nth [OF c, of "Suc ?a"] Suc.prems lt by (auto simp: covers_def spans_def log_last_def)
  have i: "le_index e = Suc ?a" by (rule log_read_index [OF e])
  have rd: "onLog (lo_Read (sv_log S) (?a + 1)) n = (Ok e, n)"
    using wal_store.read [OF h, of "Suc ?a"] e S by (simp add: onLog_def)
  let ?n = "apply_entry S (Suc ?a) e n"
  have step: "ApplyCommittedEntries S n = ApplyCommittedEntries S ?n"
    using lt rd by (subst ApplyCommittedEntries.simps) simp
  have p: "pending n es = e # pending ?n es"
    unfolding pending_def using filter_range_Cons [OF c e] lt by simp
  have "ApplyCommittedEntries S ?n = fold (\<lambda>e. apply_entry S (le_index e) e) (pending ?n es) ?n \<and>
    rn_applied_index (ApplyCommittedEntries S ?n) = max (rn_applied_index ?n) (rn_commit_index ?n)"
    by (rule Suc.hyps(1)) (use Suc.hyps(2) Suc.prems in \<open>simp_all add: covers_def\<close>)
  then show ?case unfolding step p using i lt by auto
qed

text \<open>
  C6: applying committed entries ends, having applied every committed entry exactly once and in
  the order of the log. On a node whose log reaches the commit index and whose snapshot is
  applied, the loop is the fold of \<open>apply_entry\<close> over the entries above the applied index up
  to the commit index, and the applied index is the commit index afterwards.
\<close>

theorem apply_committed_in_order:
  assumes "sv_log S = wal_ops c" and "node_log c n es" and "rn_last_snapshot_index n \<le> rn_applied_index n"
    and "rn_commit_index n \<le> log_last (rn_last_snapshot_index n) es"
  shows "ApplyCommittedEntries S n =
      fold (\<lambda>e. apply_entry S (le_index e) e)
        (filter (\<lambda>e. rn_applied_index n < le_index e \<and> le_index e \<le> rn_commit_index n) es) n \<and>
    rn_applied_index (ApplyCommittedEntries S n) = max (rn_applied_index n) (rn_commit_index n)"
  using apply_fold [OF assms] unfolding pending_def .

lemma demo_node_applied:
  "rn_applied_index (demo_node w i ps) = 0" "rn_vector_index (demo_node w i ps) = Some slot_index"
  "rn_dedup (demo_node w i ps) = DedupTable_new 10"
  by (simp_all add: demo_node_def RegisterConfiguredPeers_def RaftNode_new_def onTopology_def split: prod.splits)

section \<open>Replicas\<close>

text \<open>The replicated state: the vectors and the results of the requests.\<close>

definition machine :: "('w, 'e) node \<Rightarrow> 'e VectorIndex option \<times> DedupTable" where
  "machine n = (rn_vector_index n, rn_dedup n)"

lemma machine_trigger: "machine (MaybeTriggerSnapshot i (n\<lparr>rn_applied_index := i\<rparr>)) = machine n"
  by (simp add: MaybeTriggerSnapshot_def LaunchSnapshotTask_def Let_def machine_def split: option.splits)

lemma apply_entry_machine:
  assumes "machine n = machine m"
  shows "machine (apply_entry S i e n) = machine (apply_entry S i e m)"
proof -
  obtain r n1 where n: "apply_command S e n = (r, n1)" by (cases "apply_command S e n")
  obtain r' m1 where m: "apply_command S e m = (r', m1)" by (cases "apply_command S e m")
  have c: "r' = r" "machine n1 = machine m1"
    using n m assms by (auto simp: apply_command_def machine_def onIndex_def split: if_splits option.splits sum.splits prod.splits)
  obtain a b d where r: "r = (a, b, d)" by (metis prod_cases3)
  have "machine (publish_result i r n1) = machine (publish_result i r m1)"
    using c(2) by (simp add: r publish_result_def NotifyCommitListener_def UnregisterCommitListener_def machine_def)
  then show ?thesis by (simp add: apply_entry_def n m c(1) machine_trigger)
qed

lemma fold_machine:
  "machine n = machine m \<Longrightarrow>
   machine (fold (\<lambda>e. apply_entry S (le_index e) e) xs n) = machine (fold (\<lambda>e. apply_entry S (le_index e) e) xs m)"
proof (induction xs arbitrary: n m)
  case (Cons e xs)
  show ?case using Cons.IH [OF apply_entry_machine [OF Cons.prems]] by simp
qed simp

lemma agree_filter:
  assumes "contiguous es" and "contiguous ls" and "agree c es ls"
  shows "filter (\<lambda>e. a < le_index e \<and> le_index e \<le> c) es = filter (\<lambda>e. a < le_index e \<and> le_index e \<le> c) ls"
proof -
  let ?P = "\<lambda>e. a < le_index e \<and> le_index e \<le> c"
  have sorted: "sorted_wrt (<) (map le_index (filter ?P xs))" if "contiguous xs" for xs
    using contiguous_sorted [OF that] by (simp add: sorted_wrt_map sorted_wrt_filter)
  have sub: "set (filter ?P xs) \<subseteq> set (filter ?P ys)"
    if "contiguous xs" "agree c xs ys" for xs ys
    using that log_read_mem [OF that(1)] log_read_in by (fastforce simp: agree_def)
  have "agree c ls es" using assms(3) by (simp add: agree_def)
  then have eq: "set (filter ?P es) = set (filter ?P ls)"
    using sub [OF assms(1,3)] sub [OF assms(2)] by blast
  have "map le_index (filter ?P es) = map le_index (filter ?P ls)"
    by (rule strict_sorted_equal [OF sorted [OF assms(2)] sorted [OF assms(1)]]) (simp only: set_map eq)
  moreover have "x = y" if "x \<in> set (filter ?P es)" "y \<in> set (filter ?P ls)" "le_index x = le_index y" for x y
  proof -
    have "log_read es (le_index x) = Some x" "log_read ls (le_index y) = Some y"
      using log_read_mem [OF assms(1), of x] log_read_mem [OF assms(2), of y] that(1,2) by simp_all
    moreover have "log_read es (le_index x) = log_read ls (le_index x)"
      using assms(3) that(1) unfolding agree_def by simp
    ultimately show "x = y" using that(3) by simp
  qed
  ultimately show ?thesis by (metis (no_types, lifting) list.inj_map_strong)
qed

text \<open>
  C4: replicas stay alike. Two nodes with the same vectors and the same results, which have
  applied their logs up to the same index, have the same commit index and logs that agree up
  to it, have the same vectors and the same results again when they have applied what is committed.
\<close>

theorem replicas_apply_alike:
  assumes "sv_log S = wal_ops c" and "node_log c n es" and "node_log c m ls"
    and "rn_last_snapshot_index n \<le> rn_applied_index n" and "rn_last_snapshot_index m \<le> rn_applied_index m"
    and "rn_commit_index n \<le> log_last (rn_last_snapshot_index n) es"
    and "rn_commit_index m \<le> log_last (rn_last_snapshot_index m) ls"
    and "rn_commit_index n = rn_commit_index m" and "rn_applied_index n = rn_applied_index m"
    and "agree (rn_commit_index n) es ls"
    and "rn_vector_index n = rn_vector_index m" and "rn_dedup n = rn_dedup m"
  shows "rn_vector_index (ApplyCommittedEntries S n) = rn_vector_index (ApplyCommittedEntries S m) \<and>
    rn_dedup (ApplyCommittedEntries S n) = rn_dedup (ApplyCommittedEntries S m)"
proof -
  have c: "contiguous es" "contiguous ls"
    using assms(2,3) wal_store.holds_contiguous by (auto simp: covers_def)
  have p: "pending n es = pending m ls"
    using agree_filter [OF c assms(10), of "rn_applied_index n"] assms(8,9) by (simp add: pending_def)
  have "machine (ApplyCommittedEntries S n) = machine (ApplyCommittedEntries S m)"
    using apply_fold [OF assms(1,2,4,6)] apply_fold [OF assms(1,3,5,7)] p fold_machine [of n m S "pending n es"] assms(11,12)
    by (simp add: machine_def)
  then show ?thesis by (simp add: machine_def)
qed

text \<open>A committed entry, on the follower and on the leader of the runs.\<close>

lemma commit_node_log:
  "node_log c (n\<lparr>rn_commit_index := i\<rparr>) es = node_log c n es"
  by (simp add: covers_def)

theorem apply_committed_in_order_witness:
  "\<exists>w n'. n' = ApplyCommittedEntries demo_services ((demo_leader w 1)\<lparr>rn_commit_index := 2\<rparr>) \<and> rn_applied_index n' = 2"
proof -
  obtain w where w: "node_log sample_codec (demo_leader w 1) new_log" using demo_logs by blast
  let ?n = "(demo_leader w 1)\<lparr>rn_commit_index := 2\<rparr>"
  have "node_log sample_codec ?n new_log" using w by (simp add: commit_node_log)
  moreover have "rn_last_snapshot_index ?n = 0" "rn_applied_index ?n = 0" "log_last 0 new_log = 2"
    by (simp_all add: demo_leader_def log_last_def new_log_def demo_node_applied)
  ultimately show ?thesis using apply_committed_in_order [OF demo_services_log, of ?n new_log] by auto
qed

theorem replicas_apply_alike_witness:
  "\<exists>v w n m. n = (demo_leader v 1)\<lparr>rn_commit_index := 1\<rparr> \<and> m = (demo_follower w)\<lparr>rn_commit_index := 1\<rparr> \<and>
    node_log sample_codec n new_log \<and> node_log sample_codec m old_log \<and>
    rn_vector_index (ApplyCommittedEntries demo_services n) = rn_vector_index (ApplyCommittedEntries demo_services m)"
proof -
  obtain v w where l: "node_log sample_codec (demo_leader v 1) new_log" and f: "node_log sample_codec (demo_follower w) old_log"
    using demo_logs by blast
  let ?n = "(demo_leader v 1)\<lparr>rn_commit_index := 1\<rparr>" and ?m = "(demo_follower w)\<lparr>rn_commit_index := 1\<rparr>"
  have c: "node_log sample_codec ?n new_log" "node_log sample_codec ?m old_log" using l f by (simp_all add: commit_node_log)
  have "agree 1 new_log old_log" by (simp add: agree_def old_log_def new_log_def log_read_def)
  moreover have "rn_last_snapshot_index ?n = 0" "rn_applied_index ?n = 0" "rn_last_snapshot_index ?m = 0" "rn_applied_index ?m = 0"
      "log_last 0 new_log = 2" "log_last 0 old_log = 2"
      "rn_vector_index ?n = rn_vector_index ?m" "rn_dedup ?n = rn_dedup ?m"
    by (simp_all add: demo_leader_def demo_follower_def log_last_def new_log_def old_log_def demo_node_applied)
  ultimately show ?thesis using replicas_apply_alike [OF demo_services_log c] c by auto
qed

end
