(* ===== verification/ClientWrites.thy ===== *)
theory ClientWrites
  imports RaftStateMachine
begin

text \<open>
  Writes of clients: a request is proposed once, and what a client is told when it asks again.
\<close>

section \<open>Proposing\<close>

lemma Propose_effect:
  assumes "Propose S e n = (Ok i, n')"
  shows "rn_state n' = StLeader \<and> rn_commit_listeners n' = rn_commit_listeners n \<and>
    rn_dedup n' = rn_dedup (track_request (sv_codec S) e (LogicalLastIndex S n + 1) n)"
proof -
  have t: "rn_state (track_request c e i n) = rn_state n" "rn_commit_listeners (track_request c e i n) = rn_commit_listeners n"
      "rn_wal (track_request c e i n) = rn_wal n"
      "rn_dedup (track_request c e i (n\<lparr>rn_wal := w\<rparr>)) = rn_dedup (track_request c e i n)" for c i w and n :: "('a, 'b) node"
    by (simp_all add: track_request_def split: sum.splits)
  show ?thesis
    using assms
    by (auto simp: Propose_def Let_def andThen_def onLog_def t RequestImmediateHeartbeat_def RequestReplication_def
        split: if_splits sum.splits prod.splits)
qed

text \<open>The entry of a request carries its id.\<close>

lemma client_entry_id:
  assumes "codec_ok (sv_codec S)" and "cw_id q < 2 ^ 64" and "ascii (cw_request_id q)"
    and "client_entry S q n = Ok e" and "le_payload e \<noteq> []"
  shows "ExtractRequestId (sv_codec S) e = Ok (cw_request_id q)"
proof -
  consider vec where "e = default_LogEntry\<lparr>le_type := kNormal, le_cmd_type := kUpsert,
          le_payload := UpsertCmd_Serialize (sv_codec S)
            \<lparr>uc_id = cw_id q, uc_vector = vec, uc_request_id = cw_request_id q\<rparr>\<rparr>"
    | "e = default_LogEntry\<lparr>le_type := kNormal, le_cmd_type := kDelete,
          le_payload := DeleteCmd_Serialize (sv_codec S) \<lparr>dc_id = cw_id q, dc_request_id = cw_request_id q\<rparr>\<rparr>"
    using assms(4) by (auto simp: client_entry_def bindR_Ok split: if_splits)
  then show ?thesis
  proof cases
    case 1
    let ?u = "\<lparr>uc_id = cw_id q, uc_vector = vec, uc_request_id = cw_request_id q\<rparr>"
    have "UpsertCmd_Deserialize (sv_codec S) (UpsertCmd_Serialize (sv_codec S) ?u) = Ok ?u"
      by (rule UpsertCmd_roundtrip) (use assms 1 in simp_all)
    then show ?thesis by (simp add: 1 ExtractRequestId_def bindR_Ok)
  next
    case 2
    let ?u = "\<lparr>dc_id = cw_id q, dc_request_id = cw_request_id q\<rparr>"
    have "DeleteCmd_Deserialize (sv_codec S) (DeleteCmd_Serialize (sv_codec S) ?u) = Ok ?u"
      by (rule DeleteCmd_roundtrip) (use assms 2 in simp_all)
    then show ?thesis by (simp add: 2 ExtractRequestId_def bindR_Ok kUpsert_def kDelete_def)
  qed
qed

section \<open>Waiting\<close>

definition pending_id :: "string \<Rightarrow> ('w, 'e) node \<Rightarrow> bool" where
  "pending_id k n \<longleftrightarrow> (\<exists>e. map_of (dt_table (rn_dedup n)) k = Some e \<and> \<not> de_committed e)"

lemma pending_Check: "pending_id k n \<Longrightarrow> \<exists>e. DedupTable_Check k (rn_dedup n) = (kPendingCommit, Some e)"
  by (auto simp: pending_id_def DedupTable_Check_def status_def)

lemma await_pending:
  assumes "pending_id k n"
  shows "await_commit k n =
    (if k \<in> set (rn_commit_listeners n) then Abandoned else Waiting, RegisterCommitListener k n)"
proof -
  have "pending_id k (RegisterCommitListener k n)" using assms by (simp add: pending_id_def RegisterCommitListener_def)
  from pending_Check [OF this] show ?thesis by (auto simp: await_commit_def committed_reply_def Let_def)
qed

lemma begin_pending:
  assumes "pending_id (cw_request_id q) n" and "IsLeader n" and "cw_request_id q \<noteq> []"
  shows "HandleClientWrite_begin S q n = await_commit (cw_request_id q) n"
  using pending_Check [OF assms(1)] assms(2,3) by (auto simp: HandleClientWrite_begin_def)

lemma proposed_pending:
  assumes c: "codec_ok (sv_codec S)" "cw_id q < 2 ^ 64" "ascii (cw_request_id q)" "client_entry S q n = Ok e" "le_payload e \<noteq> []"
    and d: "dedup_inv (rn_dedup n)" "0 < dt_window_size (rn_dedup n)" "DedupTable_Check (cw_request_id q) (rn_dedup n) = (kNotFound, x)"
      "(LogicalLastIndex S n + 1, cw_request_id q) \<notin> set (dt_order_queue (rn_dedup n))"
    and p: "Propose S e n = (Ok i, n')" and k: "cw_request_id q \<noteq> []"
  shows "pending_id (cw_request_id q) n'"
proof -
  let ?k = "cw_request_id q" and ?i = "LogicalLastIndex S n + 1"
  let ?e = "\<lparr>de_committed = False, de_success = False, de_error = [], de_log_index = ?i\<rparr>"
  have none: "map_of (dt_table (rn_dedup n)) ?k = None"
    using d(3) by (auto simp: DedupTable_Check_def status_def split: option.splits if_splits)
  have "rn_dedup (track_request (sv_codec S) e ?i n) = InsertOrUpdateLocked ?k ?e (rn_dedup n)"
    using client_entry_id [OF c] k none by (simp add: track_request_def DedupTable_TrackPending_def Let_def)
  then have "rn_dedup n' = InsertOrUpdateLocked ?k ?e (rn_dedup n)" using Propose_effect [OF p] by simp
  then show ?thesis
    using Insert_remembered [OF d(1,2), of ?k ?e] d(4) by (simp add: pending_id_def)
qed

text \<open>
  C34: a write that waits for its commit is not proposed again. When a leader has taken a write and
  waits, a second request with the same id (a retry of the client) leaves the log as it is. It
  does not wait, though: the listener of the first request is kept and the promise of the
  second is destroyed, so its handler ends with the error of a broken promise.
\<close>

theorem retried_write_not_proposed:
  assumes "codec_ok (sv_codec S)" and "cw_id q < 2 ^ 64" and "ascii (cw_request_id q)"
    and "\<forall>e. client_entry S q n = Ok e \<longrightarrow> le_payload e \<noteq> []"
    and "dedup_inv (rn_dedup n)" and "0 < dt_window_size (rn_dedup n)"
    and "(LogicalLastIndex S n + 1, cw_request_id q) \<notin> set (dt_order_queue (rn_dedup n))"
    and "HandleClientWrite_begin S q n = (Waiting, n1)"
    and "HandleClientWrite_begin S q n1 = (x, n2)"
  shows "rn_wal n2 = rn_wal n1 \<and> x = Abandoned"
proof -
  let ?k = "cw_request_id q"
  have l: "IsLeader n" and k: "?k \<noteq> []" using assms(8) by (auto simp: HandleClientWrite_begin_def split: if_splits)
  obtain n0 where n0: "IsLeader n0" "pending_id ?k n0" "await_commit ?k n0 = (Waiting, n1)"
  proof (cases "map_of (dt_table (rn_dedup n)) ?k")
    case None
    then have ch: "DedupTable_Check ?k (rn_dedup n) = (kNotFound, None)" by (simp add: DedupTable_Check_def)
    then obtain e i m where e: "client_entry S q n = Ok e" "Propose S e n = (Ok i, m)" "await_commit ?k m = (Waiting, n1)"
      using assms(8) l k by (auto simp: HandleClientWrite_begin_def split: sum.splits prod.splits)
    have "pending_id ?k m" by (rule proposed_pending [OF assms(1-3) e(1) _ assms(5,6) ch assms(7) e(2) k]) (use assms(4) e(1) in simp)
    then show ?thesis using that [of m] e(3) Propose_effect [OF e(2)] by (simp add: IsLeader_def)
  next
    case (Some e)
    then have "\<not> de_committed e"
      using assms(8) l k by (auto simp: HandleClientWrite_begin_def DedupTable_Check_def status_def split: if_splits)
    then have p: "pending_id ?k n" using Some by (simp add: pending_id_def)
    then show ?thesis using that [of n] l assms(8) begin_pending [OF p l k] by simp
  qed
  have n1: "n1 = RegisterCommitListener ?k n0" using await_pending [OF n0(2)] n0(3) by simp
  have p1: "pending_id ?k n1" "IsLeader n1" "?k \<in> set (rn_commit_listeners n1)"
    using n0(1,2) unfolding n1 by (auto simp: pending_id_def IsLeader_def RegisterCommitListener_def)
  have "RegisterCommitListener ?k n1 = n1" using p1(3) by (simp add: RegisterCommitListener_def)
  then show ?thesis using assms(9) begin_pending [OF p1(1,2) k] await_pending [OF p1(1)] p1(3) by simp
qed

section \<open>After the write was applied\<close>

lemma apply_command_frame:
  assumes "apply_command S e n = (r, n1)"
  shows "rn_dedup n1 = rn_dedup n \<and> rn_state n1 = rn_state n \<and> rn_commit_listeners n1 = rn_commit_listeners n \<and>
    rn_notified n1 = rn_notified n"
  using assms by (auto simp: apply_command_def onIndex_def split: if_splits option.splits sum.splits prod.splits)

lemma trigger_frame:
  "rn_dedup (MaybeTriggerSnapshot i n) = rn_dedup n" "rn_state (MaybeTriggerSnapshot i n) = rn_state n"
  "rn_notified (MaybeTriggerSnapshot i n) = rn_notified n"
  by (simp_all add: MaybeTriggerSnapshot_def LaunchSnapshotTask_def Let_def split: option.splits)

text \<open>
  C35: an applied write is answered from the table, with the result it had. When the entry of a
  request is applied, the client that waits for it is notified of the result, and a leader
  answers every later request with the same id with that result and without touching its state.
\<close>

theorem applied_write_answered:
  assumes "dedup_inv (rn_dedup n)" and "0 < dt_window_size (rn_dedup n)"
    and "apply_command S e n = ((success, err, k), n1)" and "k \<noteq> []"
    and "k \<in> fst ` set (dt_table (rn_dedup n)) \<or> (i, k) \<notin> set (dt_order_queue (rn_dedup n))"
    and "IsLeader n" and "cw_request_id q = k"
  shows "HandleClientWrite_begin S q (apply_entry S i e n) = (Replied (write_reply success err []), apply_entry S i e n) \<and>
    (k \<in> set (rn_commit_listeners n) \<longrightarrow> (k, \<lparr>de_committed = True, de_success = success, de_error = err, de_log_index = i\<rparr>)
       \<in> set (rn_notified (apply_entry S i e n)))"
proof -
  note f = apply_command_frame [OF assms(3)]
  have d: "rn_dedup (apply_entry S i e n) = DedupTable_Record k i success err (rn_dedup n)"
    and s: "rn_state (apply_entry S i e n) = rn_state n"
    using f assms(4) by (simp_all add: apply_entry_def assms(3) trigger_frame publish_result_def NotifyCommitListener_def
        UnregisterCommitListener_def)
  have "k \<in> set (rn_commit_listeners n) \<longrightarrow> (k, \<lparr>de_committed = True, de_success = success, de_error = err, de_log_index = i\<rparr>)
       \<in> set (rn_notified (apply_entry S i e n))"
    using f assms(4) by (simp add: apply_entry_def assms(3) trigger_frame publish_result_def NotifyCommitListener_def
        UnregisterCommitListener_def)
  then show ?thesis
    using Record_Check [OF assms(1,2,4), of i success err] assms(4-7) d s
    by (simp add: HandleClientWrite_begin_def IsLeader_def)
qed

section \<open>A client of the three nodes\<close>

lemma demo_node_listeners: "rn_commit_listeners (demo_node w i ps) = []"
  by (simp add: demo_node_def RegisterConfiguredPeers_def RaftNode_new_def onTopology_def split: prod.splits)

definition erase :: ClientWriteRequest where
  "erase = \<lparr>cw_cmd_type = 2, cw_id = 7, cw_vector = [], cw_request_id = ''r''\<rparr>"

definition erase_entry :: LogEntry where
  "erase_entry = default_LogEntry\<lparr>le_type := kNormal, le_cmd_type := kDelete,
     le_payload := DeleteCmd_Serialize sample_codec \<lparr>dc_id = 7, dc_request_id = ''r''\<rparr>\<rparr>"

lemma erase_payload: "le_payload erase_entry = ''7;1;r''"
  by (simp add: erase_entry_def DeleteCmd_Serialize_def value_or_empty_def SerializeProto_def sample_codec_def
      sample_ser_DeleteCmd_def put_nat_def put_str_def dec.simps digit_def char_of_def bit_0)

lemma erase_client_entry: "client_entry demo_services erase n = Ok erase_entry"
  by (simp add: client_entry_def erase_def erase_entry_def demo_services_def)

lemma demo_propose:
  assumes "node_log sample_codec (demo_leader w b) new_log"
  shows "\<exists>i n'. Propose demo_services erase_entry (demo_leader w b) = (Ok i, n')"
proof -
  let ?n = "demo_leader w b" and ?e = "erase_entry\<lparr>le_index := 3, le_term := 2\<rparr>"
  have h: "wal_holds sample_codec (rn_wal ?n) new_log" using assms by (simp add: covers_def)
  have l: "LogicalLastIndex demo_services ?n = 2"
    using wal_store.covers_last [OF demo_services_log assms] by (simp add: log_last_def new_log_def)
  have "entry_ok ?e" using erase_payload by (simp add: entry_ok_def erase_entry_def)
  moreover have "follows (w_start (rn_wal ?n)) new_log 3" by (simp add: follows_def new_log_def)
  ultimately obtain w1 where w1: "WAL_Append sample_codec ?e (rn_wal ?n) = (Ok (), w1)" "wal_holds sample_codec w1 (new_log @ [?e])"
    using wal_store.append [OF h, of ?e] by auto
  have n: "rn_state ?n = StLeader" "rn_current_term ?n = 2" by (simp_all add: demo_leader_def)
  have q: "QuorumSize (track_request c e i (?n\<lparr>rn_wal := v\<rparr>)) = 2" "rn_wal (track_request c e i (?n\<lparr>rn_wal := v\<rparr>)) = v" for c e i v
    by (simp_all add: QuorumSize_def track_request_def demo_leader_def demo_config_def split: sum.splits)
  show ?thesis
    using w1 wal_store.flush [OF w1(2)] n l
    by (simp add: Propose_def Let_def andThen_def onLog_def demo_services_log q RequestImmediateHeartbeat_def RequestReplication_def)
qed

theorem retried_write_not_proposed_witness:
  "\<exists>w n1. HandleClientWrite_begin demo_services erase (demo_leader w 1) = (Waiting, n1) \<and>
    fst (HandleClientWrite_begin demo_services erase n1) = Abandoned \<and>
    rn_wal (snd (HandleClientWrite_begin demo_services erase n1)) = rn_wal n1"
proof -
  obtain w where w: "node_log sample_codec (demo_leader w 1) new_log" using demo_logs by blast
  let ?n = "demo_leader w 1"
  have d: "rn_dedup ?n = DedupTable_new 10" "rn_commit_listeners ?n = []" "IsLeader ?n"
    by (simp_all add: demo_leader_def demo_node_applied demo_node_listeners IsLeader_def)
  have di: "dedup_inv (rn_dedup ?n)" "0 < dt_window_size (rn_dedup ?n)" "dt_order_queue (rn_dedup ?n) = []"
      "DedupTable_Check ''r'' (rn_dedup ?n) = (kNotFound, None)"
    by (simp_all add: d(1) DedupTable_new_def dedup_inv_def queued_def DedupTable_Check_def)
  have c: "codec_ok (sv_codec demo_services)" using sample_codec_ok by (simp add: demo_services_def)
  have q: "cw_id erase < 2 ^ 64" "cw_request_id erase = ''r''" "ascii ''r''" by (simp_all add: erase_def ascii_def)
  obtain i n0 where p: "Propose demo_services erase_entry ?n = (Ok i, n0)" using demo_propose [OF w] by blast
  have "pending_id ''r'' n0"
    using proposed_pending [OF c q(1) _ erase_client_entry _ di(1,2) _ _ p] q di(3,4) erase_payload by simp
  then have "HandleClientWrite_begin demo_services erase ?n = (Waiting, RegisterCommitListener ''r'' n0)"
    using p d q di(4) Propose_effect [OF p] erase_client_entry [of ?n] await_pending [of "''r''" n0]
    by (simp add: HandleClientWrite_begin_def)
  note b1 = this
  obtain x n2 where b2: "HandleClientWrite_begin demo_services erase (RegisterCommitListener ''r'' n0) = (x, n2)"
    by (cases "HandleClientWrite_begin demo_services erase (RegisterCommitListener ''r'' n0)")
  have "rn_wal n2 = rn_wal (RegisterCommitListener ''r'' n0) \<and> x = Abandoned"
  proof (rule retried_write_not_proposed [OF c q(1) _ _ di(1,2) _ b1 b2])
    show "\<forall>e. client_entry demo_services erase ?n = Ok e \<longrightarrow> le_payload e \<noteq> []"
      using erase_payload by (simp add: erase_client_entry)
  qed (use q di(3) in simp_all)
  then show ?thesis using b1 b2 by (intro exI [of _ w] exI [of _ "RegisterCommitListener ''r'' n0"]) simp
qed

theorem applied_write_answered_witness:
  "\<exists>w success err. HandleClientWrite_begin demo_services erase (apply_entry demo_services 3 erase_entry (demo_leader w 1)) =
    (Replied (write_reply success err []), apply_entry demo_services 3 erase_entry (demo_leader w 1))"
proof -
  fix w
  let ?n = "demo_leader w 1"
  let ?u = "\<lparr>dc_id = 7, dc_request_id = ''r''\<rparr>"
  have d: "rn_dedup ?n = DedupTable_new 10" "IsLeader ?n" "rn_vector_index ?n = Some slot_index"
    by (simp_all add: demo_leader_def demo_node_applied IsLeader_def)
  have u: "DeleteCmd_Deserialize sample_codec (DeleteCmd_Serialize sample_codec ?u) = Ok ?u"
    by (rule DeleteCmd_roundtrip [OF sample_codec_ok]) (use erase_payload in \<open>simp_all add: ascii_def erase_entry_def\<close>)
  obtain r vi where r: "VectorIndex_Delete slot_engine 7 slot_index = (r, vi)" by (cases "VectorIndex_Delete slot_engine 7 slot_index")
  obtain success err n1 where "apply_command demo_services erase_entry ?n = ((success, err, ''r''), n1)"
    using u r d(3)
    by (cases r) (auto simp: apply_command_def erase_entry_def kUpsert_def kDelete_def demo_services_def onIndex_def)
  then show ?thesis
    using applied_write_answered [of ?n demo_services erase_entry success err "''r''" n1 3 erase] d
    by (auto simp: DedupTable_new_def dedup_inv_def queued_def erase_def)
qed

end
