(* ===== verification/SnapshotTransfer.thy ===== *)
theory SnapshotTransfer
  imports RaftSnapshot ReplicationRuns
begin

text \<open>
  The transfer of a snapshot between two nodes whose disks work: the chunks a leader cuts, written
  by the receiver, are the two files again.
\<close>

section \<open>Cutting a file\<close>

function pieces :: "nat \<Rightarrow> string \<Rightarrow> nat \<Rightarrow> (nat \<times> string) list" where
  "pieces k data pos =
     (if length data \<le> pos + Suc k then [(pos, drop pos data)]
      else (pos, take (Suc k) (drop pos data)) # pieces k data (pos + Suc k))"
  by pat_completeness auto

termination
  by (relation "measure (\<lambda>(k, data, pos). length data - pos)") auto

declare pieces.simps [simp del]

definition file_chunks :: "nat \<Rightarrow> (string \<Rightarrow> string \<Rightarrow> nat \<Rightarrow> bool \<Rightarrow> SnapshotChunk) \<Rightarrow> string \<Rightarrow> string \<Rightarrow> nat \<Rightarrow> bool \<Rightarrow> SnapshotChunk list" where
  "file_chunks k mk name data pos final =
     map (\<lambda>(i, d). mk name d i (length data \<le> i + Suc k \<and> final)) (pieces k data pos)"

lemma file_chunks_last:
  "length data \<le> pos + Suc k \<Longrightarrow> file_chunks k mk name data pos final = [mk name (drop pos data) pos final]"
  by (simp add: file_chunks_def pieces.simps)

lemma file_chunks_more:
  "\<not> length data \<le> pos + Suc k \<Longrightarrow> file_chunks k mk name data pos final =
     mk name (take (Suc k) (drop pos data)) pos False # file_chunks k mk name data (pos + Suc k) final"
  by (subst file_chunks_def, subst pieces.simps) (simp add: file_chunks_def)

lemma file_chunks_nonempty: "file_chunks k mk name data pos final \<noteq> []"
  by (cases "length data \<le> pos + Suc k") (simp_all add: file_chunks_last file_chunks_more)

lemma send_file:
  assumes "quiet s" and "pos = 0 \<or> pos < length data" and "send_chunks k mk rest 0 s = (Ok cs, s)"
  shows "send_chunks k mk ((name, data) # rest) pos s = (Ok (file_chunks k mk name data pos (rest = []) @ cs), s)"
  using assms(2)
proof (induction "length data - pos" arbitrary: pos rule: less_induct)
  case less
  have nx: "next_io s = (IoOk, s)" using assms(1) by (simp add: os_simps)
  have p: "\<not> (take (Suc k) (drop pos data) = [] \<and> pos \<noteq> 0)" using less.prems by auto
  show ?case
  proof (cases "length data \<le> pos + Suc k")
    case True
    then show ?thesis using nx p assms(3) by (simp add: file_chunks_last andThen_def ret_def Let_def)
  next
    case False
    have "send_chunks k mk ((name, data) # rest) (pos + Suc k) s =
        (Ok (file_chunks k mk name data (pos + Suc k) (rest = []) @ cs), s)"
      by (rule less.hyps) (use False in simp_all)
    then show ?thesis
      using nx p False by (simp add: file_chunks_more andThen_def ret_def Let_def del: send_chunks.simps(2))
        (simp add: andThen_def ret_def Let_def nx)
  qed
qed

section \<open>Writing the chunks of a file\<close>

fun write_chunks :: "StorageConfig \<Rightarrow> SnapshotChunk list \<Rightarrow> install \<Rightarrow> (os, install) prog" where
  "write_chunks storage [] st = ret st"
| "write_chunks storage (ch # chs) st = andThen (write_chunk storage ch st) (write_chunks storage chs)"

lemma write_chunks_append:
  "write_chunks storage (xs @ ys) st s = (case write_chunks storage xs st s of
     (Err e, s') \<Rightarrow> (Err e, s') | (Ok st', s') \<Rightarrow> write_chunks storage ys st' s')"
  by (induction xs arbitrary: st s) (auto simp: ret_def andThen_def split: prod.splits sum.splits)

definition saw :: "string \<Rightarrow> install \<Rightarrow> install" where
  "saw name st = (if name = ''snapshot.usearch'' then st\<lparr>in_saw_snapshot := True\<rparr> else st\<lparr>in_saw_dedup := True\<rparr>)"

lemma close_quiet: "quiet s \<Longrightarrow> close_current storage name s = s"
  by (simp add: close_current_def stream_close_def os_simps split: option.splits)

lemma write_chunk_quiet:
  assumes "quiet s" and t: "chunk_target storage (chunk_file ch) = Some p"
    and o: "ch_offset ch = (if in_file st = chunk_file ch then in_offset st else 0)"
  shows "\<exists>s'. write_chunk storage ch st s =
      (Ok ((saw (chunk_file ch) st)\<lparr>in_file := chunk_file ch, in_offset := ch_offset ch + length (ch_data ch), in_finished := ch_is_last ch\<rparr>), s') \<and>
    quiet s' \<and> content s' p = (if in_file st = chunk_file ch then content s p else []) @ ch_data ch \<and>
    (\<forall>q. q \<noteq> p \<longrightarrow> content s' q = content s q)"
proof -
  let ?st = "saw (chunk_file ch) st" and ?same = "in_file st = chunk_file ch"
  let ?s1 = "if ?same then s else put_file p [] s"
  have f: "in_file ?st = in_file st" "in_offset ?st = in_offset st" by (simp_all add: saw_def)
  have c: "close_current storage (in_file st) s = s" by (rule close_quiet [OF assms(1)])
  have "switch_file storage ch p ?st s = (Ok (?st\<lparr>in_file := chunk_file ch, in_offset := ch_offset ch\<rparr>), ?s1)"
  proof (cases ?same)
    case True
    then have "?st = ?st\<lparr>in_file := chunk_file ch, in_offset := ch_offset ch\<rparr>" using f o by simp
    then show ?thesis using True f by (simp add: switch_file_def ret_def)
  next
    case False
    then show ?thesis
      using f o c assms(1) by (simp add: switch_file_def andThen_def modify_def ret_def sys_open_def sys_call_def os_simps)
  qed
  moreover have "stream_append p (ch_data ch) ?s1 = (Ok (), put_file p (content ?s1 p @ ch_data ch) ?s1)"
    using assms(1) by (simp add: stream_append_def sys_call_def os_simps)
  ultimately have "write_chunk storage ch st s =
      (Ok (?st\<lparr>in_file := chunk_file ch, in_offset := ch_offset ch + length (ch_data ch), in_finished := ch_is_last ch\<rparr>),
       put_file p (content ?s1 p @ ch_data ch) ?s1)"
    unfolding write_chunk_def t Let_def saw_def [symmetric] option.case by (simp add: andThen_def ret_def)
  then show ?thesis using assms(1) by (intro exI [of _ "put_file p (content ?s1 p @ ch_data ch) ?s1"]) simp
qed

lemma write_file:
  assumes mk: "\<And>d i b. ch_data (mk name d i b) = d \<and> ch_offset (mk name d i b) = i \<and> ch_is_last (mk name d i b) = b \<and>
      ch_file_name (mk name d i b) = name"
    and t: "chunk_target storage name = Some p" "name \<noteq> []" and "quiet s" and "pos = 0 \<or> pos < length data"
    and "if in_file st = name then in_offset st = pos \<and> content s p = take pos data else pos = 0"
  shows "\<exists>s'. write_chunks storage (file_chunks k mk name data pos final) st s =
      (Ok ((saw name st)\<lparr>in_file := name, in_offset := length data, in_finished := final\<rparr>), s') \<and>
    quiet s' \<and> content s' p = data \<and> (\<forall>q. q \<noteq> p \<longrightarrow> content s' q = content s q)"
  using assms(4-)
proof (induction "length data - pos" arbitrary: pos st s rule: less_induct)
  case less
  have cf: "chunk_file (mk name d i b) = name" for d i b using mk t(2) by (simp add: chunk_file_def)
  have st: "chunk_target storage (chunk_file (mk name d i b)) = Some p" for d i b using cf t(1) by simp
  have off: "ch_offset (mk name d pos b) = (if in_file st = chunk_file (mk name d pos b) then in_offset st else 0)" for d b
    using less.prems(3) mk [of d pos b] unfolding cf by (simp split: if_splits)
  have base: "(if in_file st = name then content s p else []) = take pos data" using less.prems(3) by (simp split: if_splits)
  have step: "\<exists>s'. write_chunk storage (mk name d pos b) st s =
        (Ok ((saw name st)\<lparr>in_file := name, in_offset := pos + length d, in_finished := b\<rparr>), s') \<and>
      quiet s' \<and> content s' p = take pos data @ d \<and> (\<forall>q. q \<noteq> p \<longrightarrow> content s' q = content s q)" for d b
  proof -
    have m: "ch_data (mk name d pos b) = d" "ch_offset (mk name d pos b) = pos" "ch_is_last (mk name d pos b) = b"
      using mk [of d pos b] by simp_all
    show ?thesis using write_chunk_quiet [OF less.prems(1) st off, of d b] unfolding cf m base .
  qed
  show ?case
  proof (cases "length data \<le> pos + Suc k")
    case True
    from step [of "drop pos data" final] obtain s' where
      "write_chunk storage (mk name (drop pos data) pos final) st s =
        (Ok ((saw name st)\<lparr>in_file := name, in_offset := pos + length (drop pos data), in_finished := final\<rparr>), s')"
      "quiet s'" "content s' p = take pos data @ drop pos data" "\<forall>q. q \<noteq> p \<longrightarrow> content s' q = content s q"
      by blast
    moreover have "pos + length (drop pos data) = length data" using less.prems(2) by auto
    ultimately show ?thesis using True by (simp add: file_chunks_last andThen_def ret_def)
  next
    case False
    let ?d = "take (Suc k) (drop pos data)" and ?pos = "pos + Suc k"
    let ?st = "(saw name st)\<lparr>in_file := name, in_offset := pos + length ?d, in_finished := False\<rparr>"
    from step [of ?d False] obtain s1 where
      s1: "write_chunk storage (mk name ?d pos False) st s = (Ok ?st, s1)"
      "quiet s1" "content s1 p = take pos data @ ?d" "\<forall>q. q \<noteq> p \<longrightarrow> content s1 q = content s q"
      by blast
    have "\<exists>s'. write_chunks storage (file_chunks k mk name data ?pos final) ?st s1 =
        (Ok ((saw name ?st)\<lparr>in_file := name, in_offset := length data, in_finished := final\<rparr>), s') \<and>
      quiet s' \<and> content s' p = data \<and> (\<forall>q. q \<noteq> p \<longrightarrow> content s' q = content s1 q)"
      by (rule less.hyps) (use False s1 take_add [of pos "Suc k" data] in \<open>auto simp: saw_def\<close>)
    moreover have "(saw name ?st)\<lparr>in_file := name, in_offset := length data, in_finished := final\<rparr> =
        (saw name st)\<lparr>in_file := name, in_offset := length data, in_finished := final\<rparr>" by (simp add: saw_def)
    ultimately show ?thesis using False s1 by (auto simp: file_chunks_more andThen_def)
  qed
qed

section \<open>The receiver\<close>

definition same_stream :: "SnapshotMeta \<Rightarrow> nat \<Rightarrow> SnapshotChunk \<Rightarrow> bool" where
  "same_stream m t ch \<longleftrightarrow> leader_term_of ch = t \<and> meta_of (sm_created_at m) ch = m"

lemma write_chunk_keeps:
  assumes "write_chunk storage ch st s = (Ok st', s')"
  shows "in_meta st' = in_meta st \<and> in_leader_term st' = in_leader_term st"
  using assms by (auto simp: write_chunk_def switch_file_def Let_def andThen_def ret_def throw_def
      split: option.splits if_splits sum.splits prod.splits)

lemma receive_known:
  assumes "in_meta st = Some m" and "in_leader_term st = t" and "\<forall>ch \<in> set chs. same_stream m t ch"
    and "write_chunks (cfg_storage (rn_config n)) chs st (rn_os n) = (Ok st', s')"
  shows "receive_chunks S chs st n = (Ok (Some st'), n\<lparr>rn_os := s'\<rparr>)"
  using assms
proof (induction chs arbitrary: st n)
  case (Cons ch chs)
  obtain st1 s1 where w: "write_chunk (cfg_storage (rn_config n)) ch st (rn_os n) = (Ok st1, s1)"
    and r: "write_chunks (cfg_storage (rn_config n)) chs st1 s1 = (Ok st', s')"
    using Cons.prems(4) by (auto simp: andThen_def split: sum.splits prod.splits)
  have c: "check_chunk S ch st n = (Ok (Some st), n)"
    using Cons.prems(1-3) by (simp add: check_chunk_def same_stream_def ret_def)
  have "receive_chunks S chs st1 (n\<lparr>rn_os := s1\<rparr>) = (Ok (Some st'), (n\<lparr>rn_os := s1\<rparr>)\<lparr>rn_os := s'\<rparr>)"
    by (rule Cons.IH) (use write_chunk_keeps [OF w] Cons.prems r in auto)
  then show ?case using c w by (simp add: onDisk_def)
qed (auto simp: ret_def)

lemma receive_first:
  assumes "rn_state n = StFollower" and "leader_term_of ch = rn_current_term n" and "in_meta st = None"
    and "same_stream m (rn_current_term n) ch" and "sm_created_at m = sv_utc S"
  shows "receive_chunks S (ch # chs) st n =
    receive_chunks S (ch # chs) (st\<lparr>in_meta := Some m, in_leader_term := rn_current_term n\<rparr>) n"
  using assms by (simp add: check_chunk_def first_chunk_def whenP_def andThen_def ret_def same_stream_def)

lemma targets:
  "chunk_target storage ''snapshot.usearch'' = Some (TemporarySnapshotPath \<lparr>ss_snapshot_dir = sc_snapshot_dir storage\<rparr>)"
  "chunk_target storage ''dedup.bin'' = Some (TemporaryDedupSnapshotPath storage)"
  "TemporarySnapshotPath \<lparr>ss_snapshot_dir = sc_snapshot_dir storage\<rparr> \<noteq> TemporaryDedupSnapshotPath storage"
  by (simp_all add: chunk_target_def TemporarySnapshotPath_def TemporaryDedupSnapshotPath_def DedupSnapshotPath_def path_join_def)

lemma write_made:
  assumes "chunk_target storage name = Some p" and "name \<noteq> []" and "quiet s" and "in_file st \<noteq> name"
  shows "\<exists>s'. write_chunks storage (file_chunks k (make_chunk m t) name data 0 final) st s =
      (Ok ((saw name st)\<lparr>in_file := name, in_offset := length data, in_finished := final\<rparr>), s') \<and>
    quiet s' \<and> content s' p = data \<and> (\<forall>q. q \<noteq> p \<longrightarrow> content s' q = content s q)"
  by (rule write_file [OF _ assms(1-3)]) (use assms(4) in \<open>simp_all add: make_chunk_def\<close>)

text \<open>The chunks of both files, written by a receiver that knows the stream.\<close>

lemma write_both:
  fixes dedup :: string
  assumes "quiet s" and "in_file st = []"
  defines "st' \<equiv> st\<lparr>in_saw_snapshot := True, in_saw_dedup := True, in_finished := True, in_file := ''dedup.bin'', in_offset := length dedup\<rparr>"
  shows "\<exists>s'. write_chunks storage (file_chunks k (make_chunk m t) ''snapshot.usearch'' index 0 False @
        file_chunks k (make_chunk m t) ''dedup.bin'' dedup 0 True) st s = (Ok st', s') \<and>
    content s' (TemporarySnapshotPath \<lparr>ss_snapshot_dir = sc_snapshot_dir storage\<rparr>) = index \<and>
    content s' (TemporaryDedupSnapshotPath storage) = dedup \<and>
    (\<forall>p. p \<noteq> TemporarySnapshotPath \<lparr>ss_snapshot_dir = sc_snapshot_dir storage\<rparr> \<and> p \<noteq> TemporaryDedupSnapshotPath storage \<longrightarrow>
       content s' p = content s p)"
proof -
  let ?p1 = "TemporarySnapshotPath \<lparr>ss_snapshot_dir = sc_snapshot_dir storage\<rparr>" and ?p2 = "TemporaryDedupSnapshotPath storage"
  let ?st1 = "(saw ''snapshot.usearch'' st)\<lparr>in_file := ''snapshot.usearch'', in_offset := length index, in_finished := False\<rparr>"
  obtain s1 where s1: "write_chunks storage (file_chunks k (make_chunk m t) ''snapshot.usearch'' index 0 False) st s = (Ok ?st1, s1)"
      "quiet s1" "content s1 ?p1 = index" "\<forall>q. q \<noteq> ?p1 \<longrightarrow> content s1 q = content s q"
    using write_made [OF targets(1) _ assms(1), of st storage k m t index False] assms(2) by auto
  obtain s2 where s2: "write_chunks storage (file_chunks k (make_chunk m t) ''dedup.bin'' dedup 0 True) ?st1 s1 =
        (Ok ((saw ''dedup.bin'' ?st1)\<lparr>in_file := ''dedup.bin'', in_offset := length dedup, in_finished := True\<rparr>), s2)"
      "content s2 ?p2 = dedup" "\<forall>q. q \<noteq> ?p2 \<longrightarrow> content s2 q = content s1 q"
    using write_made [OF targets(2) _ s1(2), of ?st1 storage k m t dedup True] by auto
  have "(saw ''dedup.bin'' ?st1)\<lparr>in_file := ''dedup.bin'', in_offset := length dedup, in_finished := True\<rparr> = st'"
    by (simp add: saw_def st'_def)
  then show ?thesis
    using s1 s2 targets(3) [of storage] by (intro exI [of _ s2]) (simp add: write_chunks_append)
qed

text \<open>
  C7: a snapshot that is sent arrives. A leader that reads the two files of its snapshot without
  error cuts them into chunks of any positive size; a follower of the same term, whose disk
  works, takes the whole stream: it ends with the last chunk seen, both files seen, the
  metadata of the sender (with its own time of creation), and its two temporary files have
  exactly the contents of the leader's files. No other file of the receiver is touched.
\<close>

theorem snapshot_stream_roundtrip:
  assumes "quiet s" and "0 < t" and "rn_state n = StFollower" and "rn_current_term n = t" and "quiet (rn_os n)"
  shows "\<exists>chunks st s'.
    send_chunks k (make_chunk m t) [(''snapshot.usearch'', index), (''dedup.bin'', dedup)] 0 s = (Ok chunks, s) \<and>
    receive_chunks S chunks start_install n = (Ok (Some st), n\<lparr>rn_os := s'\<rparr>) \<and>
    in_finished st \<and> in_saw_snapshot st \<and> in_saw_dedup st \<and> in_meta st = Some (m\<lparr>sm_created_at := sv_utc S\<rparr>) \<and>
    content s' (TemporarySnapshotPath (store_of n)) = index \<and>
    content s' (TemporaryDedupSnapshotPath (cfg_storage (rn_config n))) = dedup \<and>
    (\<forall>p. p \<noteq> TemporarySnapshotPath (store_of n) \<and> p \<noteq> TemporaryDedupSnapshotPath (cfg_storage (rn_config n)) \<longrightarrow>
       content s' p = content (rn_os n) p)"
proof -
  let ?mk = "make_chunk m t" and ?sg = "cfg_storage (rn_config n)"
  let ?p1 = "TemporarySnapshotPath (store_of n)" and ?p2 = "TemporaryDedupSnapshotPath ?sg"
  let ?c1 = "file_chunks k ?mk ''snapshot.usearch'' index 0 False" and ?c2 = "file_chunks k ?mk ''dedup.bin'' dedup 0 True"
  let ?m = "m\<lparr>sm_created_at := sv_utc S\<rparr>"
  let ?st = "start_install\<lparr>in_meta := Some ?m, in_leader_term := t\<rparr>"
  have "send_chunks k ?mk [(''dedup.bin'', dedup)] 0 s = (Ok ?c2, s)"
    using send_file [OF assms(1), of 0 dedup k ?mk "[]" "[]" "''dedup.bin''"] by simp
  then have send: "send_chunks k ?mk [(''snapshot.usearch'', index), (''dedup.bin'', dedup)] 0 s = (Ok (?c1 @ ?c2), s)"
    using send_file [OF assms(1), of 0 index k ?mk "[(''dedup.bin'', dedup)]" ?c2 "''snapshot.usearch''"] by simp
  define st where "st = ?st\<lparr>in_saw_snapshot := True, in_saw_dedup := True, in_finished := True,
      in_file := ''dedup.bin'', in_offset := length dedup\<rparr>"
  have "in_file ?st = []" by (simp add: start_install_def)
  from write_both [OF assms(5) this, where dedup = dedup, folded st_def] obtain s2 where
    w: "write_chunks ?sg (?c1 @ ?c2) ?st (rn_os n) = (Ok st, s2)" and c: "content s2 ?p1 = index" "content s2 ?p2 = dedup"
      "\<forall>p. p \<noteq> ?p1 \<and> p \<noteq> ?p2 \<longrightarrow> content s2 p = content (rn_os n) p"
    by blast
  have mk: "same_stream ?m t (?mk nm d i b)" for nm d i b
    using assms(2) by (simp add: make_chunk_def same_stream_def leader_term_of_def meta_of_def)
  have all: "\<forall>ch \<in> set (?c1 @ ?c2). same_stream ?m t ch" using mk by (auto simp: file_chunks_def)
  have known: "receive_chunks S (?c1 @ ?c2) ?st n = (Ok (Some st), n\<lparr>rn_os := s2\<rparr>)"
    by (rule receive_known [OF _ _ all w]) simp_all
  obtain ch chs where ch: "?c1 @ ?c2 = ch # chs" using file_chunks_nonempty by (metis append_is_Nil_conv list.exhaust)
  have "receive_chunks S (?c1 @ ?c2) start_install n = receive_chunks S (?c1 @ ?c2) ?st n"
    unfolding ch using all assms(3,4) unfolding ch
    by (subst receive_first [of n ch start_install ?m]) (simp_all add: same_stream_def start_install_def)
  then show ?thesis
    using send known c by (intro exI [of _ "?c1 @ ?c2"] exI [of _ st] exI [of _ s2]) (simp add: st_def)
qed

theorem snapshot_stream_roundtrip_witness:
  "\<exists>w chunks st s'.
    send_chunks 1 (make_chunk sample_meta 2) [(''snapshot.usearch'', ''abc''), (''dedup.bin'', ''d'')] 0 \<lparr>os_files = [], os_io = []\<rparr> =
      (Ok chunks, \<lparr>os_files = [], os_io = []\<rparr>) \<and>
    receive_chunks demo_services chunks start_install (demo_follower w) = (Ok (Some st), (demo_follower w)\<lparr>rn_os := s'\<rparr>) \<and>
    in_finished st \<and> content s' (TemporarySnapshotPath (store_of (demo_follower w))) = ''abc''"
proof -
  fix w
  let ?s = "\<lparr>os_files = [], os_io = []\<rparr> :: os" and ?n = "demo_follower w"
  have n: "rn_state ?n = StFollower" "rn_current_term ?n = 2" "quiet (rn_os ?n)" "quiet ?s"
    by (simp_all add: demo_follower_def demo_node_def RegisterConfiguredPeers_def RaftNode_new_def onTopology_def split: prod.splits)
  have "0 < (2::nat)" by simp
  from snapshot_stream_roundtrip [OF n(4) this n(1,2,3), of 1 sample_meta "''abc''" "''d''" demo_services]
  show ?thesis by blast
qed

end
