(* ===== verification/RaftProgress.thy ===== *)
theory RaftProgress
  imports RaftCommit RaftSnapshot
begin

text \<open>
  The replication progress of the peers, over every operation of a node that writes it.
\<close>

definition progress_ok :: "('w, 'e) node \<Rightarrow> bool" where
  "progress_ok n \<longleftrightarrow> distinct (map fst (rn_peer_progress n)) \<and> (\<forall>(k, p) \<in> set (rn_peer_progress n). 1 \<le> pp_next_index p)"

lemma progress_ok_cong: "rn_peer_progress n' = rn_peer_progress n \<Longrightarrow> progress_ok n' = progress_ok n"
  by (simp add: progress_ok_def)

lemma progress_ok_empty: "rn_peer_progress n = [] \<Longrightarrow> progress_ok n"
  by (simp add: progress_ok_def)

lemma progress_of_ok: "progress_ok n \<Longrightarrow> 1 \<le> pp_next_index (progress_of k n)"
  by (auto simp: progress_ok_def progress_of_def default_PeerProgress_def split: option.splits dest: map_of_SomeD)

lemma progress_lookup_ok: "progress_ok n \<Longrightarrow> map_of (rn_peer_progress n) k = Some p \<Longrightarrow> 1 \<le> pp_next_index p"
  by (auto simp: progress_ok_def dest: map_of_SomeD)

lemma update_entries: "(a, b) \<in> set (AList.update k v al) \<Longrightarrow> (a, b) = (k, v) \<or> (a, b) \<in> set al"
  by (induction al) (auto split: if_splits)

lemma set_progress_ok: "progress_ok n \<Longrightarrow> 1 \<le> pp_next_index p \<Longrightarrow> progress_ok (set_progress k p n)"
  by (auto simp: progress_ok_def set_progress_def distinct_update dest!: update_entries)

lemma map_progress_ok:
  assumes "progress_ok n" and "\<And>p. 1 \<le> pp_next_index p \<Longrightarrow> 1 \<le> pp_next_index (f p)"
    and "rn_peer_progress n' = map (\<lambda>(k, p). (k, f p)) (rn_peer_progress n)"
  shows "progress_ok n'"
  using assms by (auto simp: progress_ok_def comp_def case_prod_unfold)

lemma progress_ok_updates [simp]:
  "progress_ok (onTopology f n) = progress_ok n" "progress_ok (RequestReplication n) = progress_ok n"
  "progress_ok (RequestImmediateHeartbeat n) = progress_ok n" "progress_ok (NoteLeaderContactLocked n) = progress_ok n"
  "progress_ok (n\<lparr>rn_topology_refresh_requested := b\<rparr>) = progress_ok n" "progress_ok (n\<lparr>rn_wal := w\<rparr>) = progress_ok n"
  "progress_ok (n\<lparr>rn_commit_index := i\<rparr>) = progress_ok n" "progress_ok (n\<lparr>rn_lease := l\<rparr>) = progress_ok n"
  "progress_ok (n\<lparr>rn_topology := tp\<rparr>) = progress_ok n" "progress_ok (n\<lparr>rn_leader_id := lid\<rparr>) = progress_ok n"
  "progress_ok (n\<lparr>rn_state := st\<rparr>) = progress_ok n" "progress_ok (n\<lparr>rn_last_topology_refresh := now\<rparr>) = progress_ok n"
  "progress_ok (queue_forward q n) = progress_ok n" "progress_ok (advance_commit S j n) = progress_ok n"
  by (rule progress_ok_cong, simp add: onTopology_def RequestReplication_def RequestImmediateHeartbeat_def
      NoteLeaderContactLocked_def ResetElectionDeadlineLocked_def queue_forward_def advance_commit_def Let_def split: prod.splits)+

lemma progress_ok_onLog: "onLog m n = (r, n') \<Longrightarrow> progress_ok n' = progress_ok n"
  by (auto simp: onLog_def split: prod.splits)

lemma progress_ok_TermAt: "TermAtLogicalIndex S i n = (r, n') \<Longrightarrow> progress_ok n' = progress_ok n"
  by (auto simp: TermAtLogicalIndex_def dest: progress_ok_onLog split: if_splits)

section \<open>Role changes\<close>

lemma Follower_progress: "progress_ok n \<Longrightarrow> BecomeFollower S t l n = (r, n') \<Longrightarrow> progress_ok n'"
  by (auto simp: BecomeFollower_def andThen_def PersistMetaLocked_def onDisk_def Let_def progress_ok_def
      split: if_splits sum.splits prod.splits)

lemma Candidate_progress: "progress_ok n \<Longrightarrow> BecomeCandidate S n = (r, n') \<Longrightarrow> progress_ok n'"
  by (auto simp: BecomeCandidate_def andThen_def PersistMetaLocked_def onDisk_def Let_def progress_ok_def
      split: if_splits sum.splits prod.splits)

lemma Reset_progress: "1 \<le> i \<Longrightarrow> progress_ok (ResetPeerProgressLocked i n)"
proof -
  assume i: "1 \<le> i"
  have "distinct (map fst al) \<and> (\<forall>(k, p) \<in> set al. 1 \<le> pp_next_index p) \<Longrightarrow>
      distinct (map fst (fold (\<lambda>peer. AList.update peer (fresh_progress n i peer)) ps al)) \<and>
      (\<forall>(k, p) \<in> set (fold (\<lambda>peer. AList.update peer (fresh_progress n i peer)) ps al). 1 \<le> pp_next_index p)" for ps al
  proof (induction ps arbitrary: al)
    case (Cons p ps)
    have "1 \<le> pp_next_index (fresh_progress n i p)" using i by (simp add: fresh_progress_def ResetPeerRollbackStateLocked_def)
    then have "distinct (map fst (AList.update p (fresh_progress n i p) al)) \<and>
        (\<forall>(k, q) \<in> set (AList.update p (fresh_progress n i p) al). 1 \<le> pp_next_index q)"
      using Cons.prems by (auto simp: distinct_update dest!: update_entries)
    from Cons.IH [OF this] show ?case by simp
  qed simp
  from this [of "[]"] show ?thesis by (simp add: progress_ok_def ResetPeerProgressLocked_def)
qed

definition keeps_progress :: "('w, 'e, 'a) nprog \<Rightarrow> bool" where
  "keeps_progress m \<longleftrightarrow> (\<forall>n. progress_ok n \<longrightarrow> progress_ok (snd (m n)))"

lemma keeps_andThen:
  assumes "keeps_progress m" and "\<And>x. keeps_progress (f x)"
  shows "keeps_progress (andThen m f)"
  unfolding keeps_progress_def
proof (intro allI impI)
  fix n :: "('a, 'b) node" assume n: "progress_ok n"
  obtain r n1 where r: "m n = (r, n1)" by (cases "m n")
  have n1: "progress_ok n1" using assms(1) n r unfolding keeps_progress_def by (metis snd_conv)
  show "progress_ok (snd (andThen m f n))"
  proof (cases r)
    case (Inr x)
    then show ?thesis using r n1 assms(2) [of x] by (simp add: andThen_def keeps_progress_def)
  qed (use r n1 in \<open>simp add: andThen_def\<close>)
qed

lemma keeps_onLog: "keeps_progress (onLog m)"
  by (auto simp: keeps_progress_def onLog_def split: prod.splits)

lemma keeps_Persist: "keeps_progress (PersistMetaLocked S t v)"
  by (auto simp: keeps_progress_def PersistMetaLocked_def onDisk_def Let_def progress_ok_def split: sum.splits prod.splits)

lemma keeps_Append: "keeps_progress (AppendEntryLocked S e)"
proof -
  have "keeps_progress (andThen (onLog m) (\<lambda>_. andThen (onLog m') (\<lambda>_ n. (Ok i, n\<lparr>rn_flushed_index := i\<rparr>))))" for m m' i
    by (intro keeps_andThen keeps_onLog) (simp add: keeps_progress_def progress_ok_def)
  note k = this [unfolded keeps_progress_def, rule_format]
  show ?thesis unfolding keeps_progress_def AppendEntryLocked_def Let_def by (intro allI impI) (rule k)
qed

lemma keeps_claim: "keeps_progress (claim_first_term S)"
proof -
  have "keeps_progress (andThen (PersistMetaLocked S 1 v) (\<lambda>_ n. (Ok (), n\<lparr>rn_current_term := 1, rn_voted_for := rn_self_id n\<rparr>)))" for v
    by (rule keeps_andThen [OF keeps_Persist]) (simp add: keeps_progress_def progress_ok_def)
  then show ?thesis by (simp add: keeps_progress_def claim_first_term_def)
qed

lemma Leader_progress:
  assumes "progress_ok n" and "BecomeLeader S n = (r, n')"
  shows "progress_ok n'"
proof -
  have final: "progress_ok (ResetPeerProgressLocked (Suc i) k)" for i and k :: "('a, 'b) node"
    by (rule Reset_progress) simp
  have "keeps_progress (BecomeLeader S)"
    unfolding BecomeLeader_def AppendNoopEntryLocked_def
    by (intro keeps_andThen keeps_claim keeps_Append)
      (auto simp: keeps_progress_def modify_def onRebalance_def final split: prod.splits)
  then show ?thesis using assms unfolding keeps_progress_def by (metis snd_conv)
qed

section \<open>Answers of the peers\<close>

lemma Ack_progress [simp]: "progress_ok n \<Longrightarrow> progress_ok (UpdatePeerAck S k i t n)"
  by (auto simp: UpdatePeerAck_def Let_def intro!: set_progress_ok) (simp_all add: acked_def add_latency_def ResetPeerRollbackStateLocked_def)

lemma HeartbeatAck_progress [simp]: "progress_ok n \<Longrightarrow> progress_ok (UpdatePeerHeartbeatAck k t n)"
  using progress_of_ok [of "onTopology (Topology_MarkHealthy k) n" k]
  by (auto simp: UpdatePeerHeartbeatAck_def Let_def add_latency_def intro!: set_progress_ok)

lemma Failure_progress [simp]: "progress_ok n \<Longrightarrow> progress_ok (UpdatePeerFailure k i n)"
  using progress_of_ok [of n k] by (auto simp: UpdatePeerFailure_def Let_def intro!: set_progress_ok)

lemma rollback_next: "1 \<le> pp_next_index (ApplyPeerRollbackStateLocked w p a c)"
proof -
  have "1 \<le> (if r < b then b - r else 1)" for r b :: nat by auto
  moreover have "pp_next_index (x\<lparr>pp_next_index := v\<rparr>) = v" for x :: PeerProgress and v by simp
  ultimately show ?thesis unfolding ApplyPeerRollbackStateLocked_def Let_def by (simp only:)
qed

lemma refused_next: "1 \<le> pp_next_index (refused w a c p)"
  using rollback_next [of w p a c] by (simp add: refused_def ResetPeerRollbackStateLocked_def)

lemma scan_progress: "commit_scan S i c n = (r, n') \<Longrightarrow> progress_ok n' = progress_ok n"
proof (induction S i c n rule: commit_scan.induct)
  case (2 S i c n)
  obtain x n1 where x: "TermAtLogicalIndex S (Suc c) n = (x, n1)" by (cases "TermAtLogicalIndex S (Suc c) n")
  then show ?case using 2 progress_ok_TermAt [OF x] by (auto split: if_splits sum.splits)
qed simp

lemma MaybeCommit_progress: "progress_ok n \<Longrightarrow> MaybeCommit S n = (r, n') \<Longrightarrow> progress_ok n'"
  by (auto simp: MaybeCommit_def andThen_def dest!: scan_progress split: if_splits prod.splits sum.splits)

lemma callback_progress:
  assumes "progress_ok n"
  shows "progress_ok (AppendEntries_callback S k t q r n)"
proof -
  have f: "progress_ok (snd (BecomeFollower S x l n))" for x l
    using Follower_progress [OF assms, of S x l] by (cases "BecomeFollower S x l n") simp
  have m: "progress_ok (snd (MaybeCommit S (UpdatePeerAck S k i t n)))" for i
    using MaybeCommit_progress [of "UpdatePeerAck S k i t n" S] Ack_progress [OF assms]
    by (cases "MaybeCommit S (UpdatePeerAck S k i t n)") simp
  show ?thesis
    using assms f m by (auto simp: AppendEntries_callback_def intro!: set_progress_ok refused_next split: sum.splits option.splits)
qed

lemma response_progress:
  "progress_ok n \<Longrightarrow> heartbeat_response sent x (h, c, n) = (h', c', n') \<Longrightarrow> progress_ok n'"
  by (auto simp: heartbeat_response_def split: prod.splits sum.splits if_splits)

lemma responses_progress:
  "progress_ok n \<Longrightarrow> fold (heartbeat_response sent) rs (h, c, n) = (h', c', n') \<Longrightarrow> progress_ok n'"
proof (induction rs arbitrary: h c n)
  case (Cons x rs)
  obtain h1 c1 n1 where x: "heartbeat_response sent x (h, c, n) = (h1, c1, n1)" by (metis prod_cases3)
  show ?case using Cons.IH [OF response_progress [OF Cons.prems(1) x]] Cons.prems(2) x by simp
qed simp

lemma heartbeats_progress:
  assumes "progress_ok n" and "BroadcastHeartbeat_end S term sent rs n = (r, n')"
  shows "progress_ok n'"
proof -
  obtain h c n1 where f: "fold (heartbeat_response sent) rs (term, 1, n) = (h, c, n1)" by (metis prod_cases3)
  note n1 = responses_progress [OF assms(1) f]
  then show ?thesis
    using assms(2) f Follower_progress [OF n1] by (auto simp: BroadcastHeartbeat_end_def split: if_splits)
qed

section \<open>Sending\<close>

lemma dispatch_progress:
  assumes "progress_ok n" and "ReplicatePeerOnce_dispatch S k n = (r, n')"
  shows "progress_ok n'"
proof -
  obtain x n1 where x: "onLog (lo_ReadFrom (sv_log S) (pp_next_index (the (map_of (rn_peer_progress n) k)))
      (unat (rc_batch_max_entries (raft_cfg n)))) n = (x, n1)" by (metis surj_pair)
  have n1: "progress_ok n1" using progress_ok_onLog [OF x] assms(1) by simp
  obtain y n2 where y: "TermAtLogicalIndex S (pp_next_index (the (map_of (rn_peer_progress n) k)) - 1) n1 = (y, n2)" by (metis surj_pair)
  have n2: "progress_ok n2" using progress_ok_TermAt [OF y] n1 by simp
  have "1 \<le> pp_next_index (progress_of k n2)" by (rule progress_of_ok [OF n2])
  then show ?thesis
    using assms(2) x y n1 n2 assms(1)
    by (auto simp: ReplicatePeerOnce_dispatch_def andThen_def Let_def intro!: set_progress_ok
        split: if_split_asm option.split_asm sum.split_asm)
qed

lemma ForwardBegin_progress:
  assumes "progress_ok n" and "ForwardToFollower_begin S n = (r, n')"
  shows "progress_ok n'"
proof (cases "Topology_GetFollowerOf (rn_self_id n) (rn_topology n)")
  case (Some f)
  define p where "p = (case map_of (rn_peer_progress n) (ni_node_id f) of Some p \<Rightarrow> p
    | None \<Rightarrow> default_PeerProgress\<lparr>pp_peer_id := ni_node_id f, pp_next_index := LogicalLastIndex S n + 1\<rparr>)"
  obtain x n1 where x: "onLog (lo_ReadFrom (sv_log S) (pp_next_index p) (unat (rc_batch_max_entries (raft_cfg n)))) n = (x, n1)"
    by (metis surj_pair)
  have n1: "progress_ok n1" using progress_ok_onLog [OF x] assms(1) by simp
  obtain y n2 where y: "TermAtLogicalIndex S (pp_next_index p - 1) n1 = (y, n2)" by (metis surj_pair)
  have n2: "progress_ok n2" using progress_ok_TermAt [OF y] n1 by simp
  have "1 \<le> pp_next_index (progress_of (ni_node_id f) n2)" by (rule progress_of_ok [OF n2])
  then show ?thesis
    using assms Some x y n1 n2 unfolding ForwardToFollower_begin_def
    by (auto simp: andThen_def Let_def p_def [symmetric] intro!: set_progress_ok split: if_split_asm sum.split_asm)
qed (use assms in \<open>simp add: ForwardToFollower_begin_def\<close>)

lemma ForwardEnd_progress:
  assumes "progress_ok n" and "ForwardToFollower_end S fid sent q a n = (r, n')"
  shows "progress_ok n'"
  using assms Follower_progress [OF assms(1)]
  by (auto simp: ForwardToFollower_end_def Let_def intro!: set_progress_ok refused_next split: sum.splits if_splits)

lemma SendEnd_progress:
  assumes "progress_ok n" and "SendSnapshotToPeer_end S k m a n = (r, n')"
  shows "progress_ok n'"
  using assms Follower_progress [OF assms(1)]
  by (auto simp: SendSnapshotToPeer_end_def split: sum.splits if_splits)

section \<open>Timeouts\<close>

lemma mentor_progress: "progress_ok n \<Longrightarrow> progress_ok (check_mentor hb m n)"
  by (auto simp: check_mentor_def Let_def split: option.splits)

lemma probe_progress:
  assumes "progress_ok n" and "probe_follower S hb ap f p n = (b, n')"
  shows "progress_ok n'"
proof -
  obtain x n1 where x: "TermAtLogicalIndex S (pp_next_index p - 1) n = (x, n1)" by (metis surj_pair)
  obtain y n2 where y: "onLog (lo_ReadFrom (sv_log S) (pp_next_index p) (unat (rc_batch_max_entries (raft_cfg n1)))) n1 = (y, n2)"
    by (metis surj_pair)
  have "progress_ok n2" using progress_ok_TermAt [OF x] progress_ok_onLog [OF y] assms(1) by simp
  then show ?thesis
    using assms x y by (auto simp: probe_follower_def Let_def split: if_split_asm sum.split_asm)
qed

lemma diagnose_progress:
  assumes "progress_ok n"
  shows "progress_ok (diagnose_mentor S now m f n)"
proof -
  have l: "map_of (rn_peer_progress n) k = Some p \<Longrightarrow> 1 \<le> pp_next_index p" for k p by (rule progress_lookup_ok [OF assms])
  have s: "progress_ok (set_progress k ((progress_of k n0)\<lparr>pp_direct_mode := True\<rparr>) n0)" if "progress_ok n0" for k and n0 :: "('a, 'b) node"
    using that progress_of_ok [OF that, of k] by (auto intro!: set_progress_ok)
  show ?thesis
    using assms by (auto simp: diagnose_mentor_def Let_def dest: l intro!: s set_progress_ok split: option.splits if_splits)
qed

lemma follower_progress: "progress_ok n \<Longrightarrow> progress_ok (check_follower S hb ap now f n)"
  by (auto simp: check_follower_def Let_def diagnose_progress dest: probe_progress split: option.split prod.split bool.split)

lemma fold_progress: "(\<And>x n. progress_ok n \<Longrightarrow> progress_ok (g x n)) \<Longrightarrow> progress_ok n \<Longrightarrow> progress_ok (fold g xs n)"
  by (induction xs arbitrary: n) auto

lemma Rebalance_progress:
  assumes "progress_ok n" and "RebalanceTopology n = (r, n')"
  shows "progress_ok n'"
proof -
  obtain x t where x: "Topology_Rebalance (HealthyPeerIds n) (rn_topology n) = (x, t)" by (metis surj_pair)
  show ?thesis
  proof (cases x)
    case (Inr u)
    have "rn_peer_progress n' = map (\<lambda>(k, p). (k, p\<lparr>pp_direct_mode := False,
        pp_effective_window_size := rc_pipeline_window_size (raft_cfg n)\<rparr>)) (rn_peer_progress n)"
      using assms(2) x Inr by (auto simp: RebalanceTopology_def andThen_def onRebalance_def RequestImmediateHeartbeat_def)
    then show ?thesis by (rule map_progress_ok [OF assms(1), rotated]) simp
  qed (use assms x in \<open>auto simp: RebalanceTopology_def andThen_def onRebalance_def\<close>)
qed

lemma recover_progress: "progress_ok n \<Longrightarrow> progress_ok (recover_window now n)"
  by (rule map_progress_ok [where f = "\<lambda>p. if pp_effective_window_size p \<noteq> rc_pipeline_window_size (raft_cfg n) \<and> pp_recover_deadline p \<le> now
    then p\<lparr>pp_effective_window_size := rc_pipeline_window_size (raft_cfg n), pp_direct_mode := False\<rparr> else p"])
    (simp_all add: recover_window_def Let_def)

section \<open>Every run\<close>

text \<open>
  The operations of a node that write the progress of its peers, with any answers of the peers;
  \<open>other\<close> is any operation that does not write it.
\<close>

inductive progress_step :: "('w, 'e) services \<Rightarrow> ('w, 'e) node \<Rightarrow> ('w, 'e) node \<Rightarrow> bool" for S where
  follow: "BecomeFollower S t l n = (r, n') \<Longrightarrow> progress_step S n n'"
| stand: "BecomeCandidate S n = (r, n') \<Longrightarrow> progress_step S n n'"
| lead: "BecomeLeader S n = (r, n') \<Longrightarrow> progress_step S n n'"
| send: "ReplicatePeerOnce_dispatch S peer n = (x, n') \<Longrightarrow> progress_step S n n'"
| answer: "progress_step S n (AppendEntries_callback S peer sent q a n)"
| unsent: "progress_step S n (ReplicatePeerOnce_failed peer q n)"
| forward: "ForwardToFollower_begin S n = (y, n') \<Longrightarrow> progress_step S n n'"
| forwarded: "ForwardToFollower_end S peer sent q a n = (r, n') \<Longrightarrow> progress_step S n n'"
| heartbeats: "BroadcastHeartbeat_end S term sent hs n = (r, n') \<Longrightarrow> progress_step S n n'"
| snapshot: "SendSnapshotToPeer_end S peer m ia n = (r, n') \<Longrightarrow> progress_step S n n'"
| mentors: "progress_step S n (CheckMentorTimeouts hb n)"
| followers: "progress_step S n (CheckFollowerTimeouts S hb ap n)"
| windows: "progress_step S n (recover_window now n)"
| rebalance: "RebalanceTopology n = (r, n') \<Longrightarrow> progress_step S n n'"
| other: "rn_peer_progress n' = rn_peer_progress n \<Longrightarrow> progress_step S n n'"

lemma progress_step_ok: "progress_step S n n' \<Longrightarrow> progress_ok n \<Longrightarrow> progress_ok n'"
proof (induction rule: progress_step.induct)
  case (mentors n hb)
  then show ?case by (auto simp: CheckMentorTimeouts_def intro: fold_progress mentor_progress)
next
  case (followers n hb ap)
  then show ?case by (auto simp: CheckFollowerTimeouts_def intro: fold_progress follower_progress)
next
  case (other n' n)
  then show ?case by (simp add: progress_ok_def)
qed (auto simp: ReplicatePeerOnce_failed_def callback_progress recover_progress intro: Follower_progress Candidate_progress
    Leader_progress dispatch_progress ForwardBegin_progress ForwardEnd_progress heartbeats_progress SendEnd_progress
    Rebalance_progress)

text \<open>
  C40: the record of the peers stays well formed. Whatever a node does and whatever its peers
  answer, its record holds one progress per peer and the next index of every peer, recorded
  or not, is at least 1: the index before it, which the leader sends as the previous index of
  a batch, never wraps around below 0.
\<close>

theorem progress_well_formed:
  assumes "progress_ok n" and "(progress_step S)\<^sup>*\<^sup>* n n'"
  shows "distinct (map fst (rn_peer_progress n')) \<and> (\<forall>peer. 1 \<le> pp_next_index (progress_of peer n'))"
proof -
  have "progress_ok n'" using assms(2,1) by (induction rule: rtranclp_induct) (auto dest: progress_step_ok)
  then show ?thesis using progress_of_ok by (auto simp: progress_ok_def)
qed

theorem progress_well_formed_witness:
  "\<exists>w q l'. ReplicatePeerOnce_dispatch demo_services ''b'' (demo_leader w 1) = (Ok (Dispatch q), l') \<and>
    1 \<le> pp_next_index (progress_of ''b'' (AppendEntries_callback demo_services ''b'' 0 q (Err NotLeader) l'))"
proof -
  obtain w where w: "node_log sample_codec (demo_leader w 1) new_log" using demo_logs by blast
  then obtain q l' where d: "ReplicatePeerOnce_dispatch demo_services ''b'' (demo_leader w 1) = (Ok (Dispatch q), l')"
    using demo_dispatch [OF w] by auto
  have "progress_ok (demo_leader w 1)" by (simp add: progress_ok_def demo_leader_def default_PeerProgress_def)
  moreover have "(progress_step demo_services)\<^sup>*\<^sup>* (demo_leader w 1) (AppendEntries_callback demo_services ''b'' 0 q (Err NotLeader) l')"
    using progress_step.send [OF d] progress_step.answer by (meson converse_rtranclp_into_rtranclp r_into_rtranclp)
  ultimately show ?thesis using progress_well_formed d by blast
qed

end
