(* ===== verification/RpcLayer.thy ===== *)
theory RpcLayer
  imports RaftMessages Strings
begin

text \<open>
  \<^verbatim>\<open>src/raft/raft_client.cpp\<close> and \<^verbatim>\<open>src/raft/raft_server.cpp\<close>: the calls between nodes and the
  server that receives them. gRPC is a parameter: a remote procedure takes an address, a deadline
  and a request, and yields a status with a response while it changes the state \<open>'g\<close> of the
  network; creating a channel for an address may fail.
\<close>

section \<open>Calls\<close>

datatype 'a rpc_status = RpcOk 'a | RpcErr nat string

type_synonym ('g, 'q, 'a) procedure = "string \<Rightarrow> nat \<Rightarrow> 'q \<Rightarrow> 'g \<Rightarrow> 'a rpc_status \<times> 'g"

record 'g raft_service =
  rs_channel :: "string \<Rightarrow> bool"
  rs_AppendEntries :: "('g, AppendEntriesRequest, AppendEntriesResponse) procedure"
  rs_RequestVote :: "('g, RequestVoteRequest, RequestVoteResponse) procedure"
  rs_Heartbeat :: "('g, HeartbeatRequest, HeartbeatResponse) procedure"
  rs_GetLeader :: "('g, unit, LeaderInfo) procedure"
  rs_ClientWrite :: "('g, ClientWriteRequest, ClientWriteResponse) procedure"
  rs_ClientSearch :: "('g, ClientSearchRequest, ClientSearchResponse) procedure"
  rs_OpenStream :: "string \<Rightarrow> nat \<Rightarrow> 'g \<Rightarrow> bool \<times> 'g"
  rs_Write :: "SnapshotChunk \<Rightarrow> 'g \<Rightarrow> bool \<times> 'g"
  rs_WritesDone :: "'g \<Rightarrow> 'g"
  rs_Finish :: "'g \<Rightarrow> InstallSnapshotResponse rpc_status \<times> 'g"

record RaftClientOptions =
  ro_append_entries_timeout :: nat
  ro_request_vote_timeout :: nat
  ro_heartbeat_timeout :: nat
  ro_install_snapshot_timeout :: nat
  ro_get_leader_timeout :: nat
  ro_forward_search_timeout :: nat

definition default_RaftClientOptions :: RaftClientOptions where
  "default_RaftClientOptions = \<lparr>ro_append_entries_timeout = 1000, ro_request_vote_timeout = 500,
     ro_heartbeat_timeout = 300, ro_install_snapshot_timeout = 5000, ro_get_leader_timeout = 500,
     ro_forward_search_timeout = 2000\<rparr>"

text \<open>The state the client shares with its background threads, and the network.\<close>

record 'g RaftClient =
  rk_options :: RaftClientOptions
  rk_stubs :: "string list"
  rk_shutting_down :: bool
  rk_net :: 'g

definition RaftClient_new :: "RaftClientOptions \<Rightarrow> 'g \<Rightarrow> 'g RaftClient" where
  "RaftClient_new options g = \<lparr>rk_options = options, rk_stubs = [], rk_shutting_down = False, rk_net = g\<rparr>"

definition RaftClient_destroy :: "'g RaftClient \<Rightarrow> 'g RaftClient" where
  "RaftClient_destroy k = k\<lparr>rk_shutting_down := True\<rparr>"

definition MakeGrpcErrorResult :: "nat \<Rightarrow> string \<Rightarrow> string \<Rightarrow> 'a result" where
  "MakeGrpcErrorResult status_code message rpc_name =
     Err (RpcFailed (rpc_name @ '', code='' @ dec status_code @ '', message='' @ message))"

definition FinishUnaryRpc :: "'a rpc_status \<Rightarrow> string \<Rightarrow> 'a result" where
  "FinishUnaryRpc status rpc_name = (case status of
     RpcErr status_code message \<Rightarrow> MakeGrpcErrorResult status_code message rpc_name | RpcOk response \<Rightarrow> Ok response)"

definition ValidatePeerAddress :: "string \<Rightarrow> unit result" where
  "ValidatePeerAddress peer_addr = (if peer_addr = [] then Err (BadArgument ''peer'') else Ok ())"

definition RaftClient_GetOrCreateStub :: "'g raft_service \<Rightarrow> string \<Rightarrow> ('g RaftClient, unit) prog" where
  "RaftClient_GetOrCreateStub R peer_addr = (\<lambda>k. case ValidatePeerAddress peer_addr of
       Err e \<Rightarrow> (Err e, k)
     | Ok _ \<Rightarrow>
         if peer_addr \<in> set (rk_stubs k) then (Ok (), k)
         else if \<not> rs_channel R peer_addr then (Err (RpcFailed (''channel '' @ peer_addr)), k)
         else (Ok (), k\<lparr>rk_stubs := peer_addr # rk_stubs k\<rparr>))"

definition CachedPeerCount :: "'g RaftClient \<Rightarrow> nat" where
  "CachedPeerCount k = length (rk_stubs k)"

text \<open>What the synchronous calls have in common.\<close>

definition unary_call ::
    "'g raft_service \<Rightarrow> ('g, 'q, 'a) procedure \<Rightarrow> (RaftClientOptions \<Rightarrow> nat) \<Rightarrow> string \<Rightarrow> string \<Rightarrow> 'q \<Rightarrow>
     ('g RaftClient, 'a) prog" where
  "unary_call R proc timeout rpc_name peer_addr request = (\<lambda>k. case ValidatePeerAddress peer_addr of
       Err e \<Rightarrow> (Err e, k)
     | Ok _ \<Rightarrow> andThen (RaftClient_GetOrCreateStub R peer_addr) (\<lambda>_ k.
         case proc peer_addr (timeout (rk_options k)) request (rk_net k) of
           (status, g) \<Rightarrow> (FinishUnaryRpc status rpc_name, k\<lparr>rk_net := g\<rparr>)) k)"

definition RaftClient_AppendEntries ::
    "'g raft_service \<Rightarrow> string \<Rightarrow> AppendEntriesRequest \<Rightarrow> ('g RaftClient, AppendEntriesResponse) prog" where
  "RaftClient_AppendEntries R = unary_call R (rs_AppendEntries R) ro_append_entries_timeout ''AppendEntries''"

definition RaftClient_RequestVote ::
    "'g raft_service \<Rightarrow> string \<Rightarrow> RequestVoteRequest \<Rightarrow> ('g RaftClient, RequestVoteResponse) prog" where
  "RaftClient_RequestVote R = unary_call R (rs_RequestVote R) ro_request_vote_timeout ''RequestVote''"

definition RaftClient_Heartbeat ::
    "'g raft_service \<Rightarrow> string \<Rightarrow> HeartbeatRequest \<Rightarrow> ('g RaftClient, HeartbeatResponse) prog" where
  "RaftClient_Heartbeat R = unary_call R (rs_Heartbeat R) ro_heartbeat_timeout ''Heartbeat''"

definition RaftClient_GetLeader :: "'g raft_service \<Rightarrow> string \<Rightarrow> ('g RaftClient, LeaderInfo) prog" where
  "RaftClient_GetLeader R peer_addr = unary_call R (rs_GetLeader R) ro_get_leader_timeout ''GetLeader'' peer_addr ()"

definition ForwardClientSearch ::
    "'g raft_service \<Rightarrow> string \<Rightarrow> ClientSearchRequest \<Rightarrow> ('g RaftClient, ClientSearchResponse) prog" where
  "ForwardClientSearch R = unary_call R (rs_ClientSearch R) ro_forward_search_timeout ''ForwardClientSearch''"

text \<open>
  An asynchronous call: the caller's part checks the address and starts the thread (\<open>thread\<close>: whether
  it could be started). The thread makes the call, and the callback (\<open>callback\<close>: whether there is
  one) gets the result unless the client was destroyed in the meantime.
\<close>

definition start_async :: "'g raft_service \<Rightarrow> bool \<Rightarrow> string \<Rightarrow> ('g RaftClient, unit) prog" where
  "start_async R thread peer_addr = (\<lambda>k. case ValidatePeerAddress peer_addr of
       Err e \<Rightarrow> (Err e, k)
     | Ok _ \<Rightarrow> andThen (RaftClient_GetOrCreateStub R peer_addr) (\<lambda>_.
         if thread then ret () else throw (RpcFailed ''thread'')) k)"

definition AppendEntriesAsync_thread ::
    "bool \<Rightarrow> 'g raft_service \<Rightarrow> string \<Rightarrow> AppendEntriesRequest \<Rightarrow> 'g RaftClient \<Rightarrow>
     AppendEntriesResponse result option \<times> 'g RaftClient" where
  "AppendEntriesAsync_thread callback R peer_addr request k =
     (case rs_AppendEntries R peer_addr (ro_append_entries_timeout (rk_options k)) request (rk_net k) of
        (status, g) \<Rightarrow>
          (if rk_shutting_down k \<or> \<not> callback then None else Some (FinishUnaryRpc status ''AppendEntries''), k\<lparr>rk_net := g\<rparr>))"

definition HeartbeatAsync_thread ::
    "bool \<Rightarrow> 'g raft_service \<Rightarrow> string \<Rightarrow> HeartbeatRequest \<Rightarrow> 'g RaftClient \<Rightarrow> HeartbeatResponse result option \<times> 'g RaftClient" where
  "HeartbeatAsync_thread callback R peer_addr request k =
     (case rs_Heartbeat R peer_addr (ro_heartbeat_timeout (rk_options k)) request (rk_net k) of
        (status, g) \<Rightarrow>
          (if rk_shutting_down k \<or> \<not> callback then None else Some (FinishUnaryRpc status ''Heartbeat''), k\<lparr>rk_net := g\<rparr>))"

text \<open>
  The stream of a snapshot. \<open>chunks\<close> are what the producer yields, \<open>ending\<close> is how it ends: it has
  no more, or it failed.
\<close>

definition finish_stream :: "'g raft_service \<Rightarrow> error option \<Rightarrow> 'g \<Rightarrow> InstallSnapshotResponse result \<times> 'g" where
  "finish_stream R failure g = (case rs_Finish R (rs_WritesDone R g) of
       (RpcErr status_code message, g) \<Rightarrow> (MakeGrpcErrorResult status_code message ''InstallSnapshot'', g)
     | (RpcOk response, g) \<Rightarrow> (case failure of Some e \<Rightarrow> (Err e, g) | None \<Rightarrow> (Ok response, g)))"

fun write_stream ::
    "'g raft_service \<Rightarrow> SnapshotChunk list \<Rightarrow> error option \<Rightarrow> 'g \<Rightarrow> InstallSnapshotResponse result \<times> 'g" where
  "write_stream R [] ending g = finish_stream R ending g"
| "write_stream R (chunk # chunks) ending g = (case rs_Write R chunk g of
       (False, g) \<Rightarrow> finish_stream R (Some (RpcFailed ''InstallSnapshot'')) g
     | (True, g) \<Rightarrow> write_stream R chunks ending g)"

definition RaftClient_InstallSnapshot ::
    "'g raft_service \<Rightarrow> string \<Rightarrow> SnapshotChunk list \<Rightarrow> error option \<Rightarrow> ('g RaftClient, InstallSnapshotResponse) prog" where
  "RaftClient_InstallSnapshot R peer_addr chunks ending = (\<lambda>k. case ValidatePeerAddress peer_addr of
       Err e \<Rightarrow> (Err e, k)
     | Ok _ \<Rightarrow> andThen (RaftClient_GetOrCreateStub R peer_addr) (\<lambda>_ k.
         case rs_OpenStream R peer_addr (ro_install_snapshot_timeout (rk_options k)) (rk_net k) of
           (False, g) \<Rightarrow> (Err (RpcFailed ''InstallSnapshot writer''), k\<lparr>rk_net := g\<rparr>)
         | (True, g) \<Rightarrow> (case write_stream R chunks ending g of (r, g) \<Rightarrow> (r, k\<lparr>rk_net := g\<rparr>))) k)"

section \<open>The server\<close>

text \<open>What a handler returns is the answer of the remote procedure; an error is status \<^verbatim>\<open>INTERNAL\<close> (13).\<close>

definition CopyResultToResponse :: "'a result \<Rightarrow> string \<Rightarrow> 'a rpc_status" where
  "CopyResultToResponse res handler_name = (case res of
       Err e \<Rightarrow> RpcErr 13 (handler_name @ '', error='' @ what e)
     | Ok response \<Rightarrow> RpcOk response)"

text \<open>Every procedure of \<^verbatim>\<open>ServiceImpl\<close> passes the request to the handler of its name.\<close>

definition ServiceImpl_call :: "string \<Rightarrow> ('q \<Rightarrow> ('g, 'a) prog) \<Rightarrow> 'q \<Rightarrow> 'g \<Rightarrow> 'a rpc_status \<times> 'g" where
  "ServiceImpl_call handler_name handler request g = (case handler request g of
     (res, g) \<Rightarrow> (CopyResultToResponse res handler_name, g))"

definition BuildBoundAddress :: "string \<Rightarrow> int \<Rightarrow> string" where
  "BuildBoundAddress listen_addr port =
     (if port \<le> 0 then []
      else if CHR '':'' \<notin> set listen_addr then listen_addr
      else rev (dropWhile (\<lambda>ch. ch \<noteq> CHR '':'') (rev listen_addr)) @ dec (nat port))"

record RaftServer =
  sr_has_handler :: bool
  sr_listen_addr :: string
  sr_running :: bool
  sr_bound_address :: string

text \<open>\<open>build\<close> is what the builder yields: no server, or a server with the selected port.\<close>

definition RaftServer_Start :: "int option \<Rightarrow> (RaftServer, unit) prog" where
  "RaftServer_Start build = (\<lambda>s.
     if \<not> sr_has_handler s then (Err (BadArgument ''handler''), s)
     else if sr_running s then (Err (BadArgument ''running''), s)
     else case build of
         None \<Rightarrow> (Err (RpcFailed ''server''), s)
       | Some port \<Rightarrow>
           if port \<le> 0 then (Err (RpcFailed ''port''), s)
           else (Ok (), s\<lparr>sr_running := True, sr_bound_address := BuildBoundAddress (sr_listen_addr s) port\<rparr>))"

definition RaftServer_Stop :: "RaftServer \<Rightarrow> RaftServer" where
  "RaftServer_Stop s = (if sr_running s then s\<lparr>sr_running := False, sr_bound_address := []\<rparr> else s)"

section \<open>Calls between nodes\<close>

text \<open>
  The channel of an address is made once: the cache holds every address at most once, never the
  empty one, and a call never forgets one.
\<close>

definition stubs_ok :: "'g RaftClient \<Rightarrow> bool" where
  "stubs_ok k = (distinct (rk_stubs k) \<and> [] \<notin> set (rk_stubs k))"

lemma GetOrCreateStub_stubs_ok:
  assumes "stubs_ok k" and "RaftClient_GetOrCreateStub R a k = (r, k')"
  shows "stubs_ok k'" and "set (rk_stubs k) \<subseteq> set (rk_stubs k')" and "r = Ok () \<Longrightarrow> a \<in> set (rk_stubs k')"
  using assms by (auto simp: stubs_ok_def RaftClient_GetOrCreateStub_def ValidatePeerAddress_def split: if_split_asm)

lemma unary_call_stubs_ok:
  assumes "stubs_ok k" and "unary_call R proc timeout name a q k = (r, k')"
  shows "stubs_ok k' \<and> set (rk_stubs k) \<subseteq> set (rk_stubs k')"
proof -
  obtain s k1 where g: "RaftClient_GetOrCreateStub R a k = (s, k1)" by fastforce
  have "rk_stubs k' = rk_stubs k1 \<or> k' = k"
    using assms(2) g by (auto simp: unary_call_def andThen_def split: sum.split_asm prod.split_asm)
  then show ?thesis using GetOrCreateStub_stubs_ok [OF assms(1) g] assms(1) by (auto simp: stubs_ok_def)
qed

text \<open>
  A call that reaches a server returns what the handler there returns; the error of a handler comes
  back as a failed call.
\<close>

lemma call_returns_handler_result:
  assumes "a \<noteq> []" and "a \<in> set (rk_stubs k)" and "proc = (\<lambda>_ _. ServiceImpl_call handler_name handler)"
    and "handler q (rk_net k) = (res, g)"
  shows "unary_call R proc timeout rpc_name a q k = (case res of Ok x \<Rightarrow> Ok x
    | Err e \<Rightarrow> MakeGrpcErrorResult 13 (handler_name @ '', error='' @ what e) rpc_name, k\<lparr>rk_net := g\<rparr>)"
  using assms by (auto simp: unary_call_def andThen_def ValidatePeerAddress_def RaftClient_GetOrCreateStub_def
      ServiceImpl_call_def CopyResultToResponse_def FinishUnaryRpc_def split: sum.splits)

text \<open>A background call hands its callback what the synchronous call returns.\<close>

lemma async_as_sync:
  assumes "start_async R True a k = (Ok (), k1)" and "\<not> rk_shutting_down k1"
    and "RaftClient_AppendEntries R a q k = (r, k2)"
  shows "AppendEntriesAsync_thread True R a q k1 = (Some r, k2)"
proof -
  have "RaftClient_GetOrCreateStub R a k = (Ok (), k1)" and "ValidatePeerAddress a = Ok ()"
    using assms(1) by (auto simp: start_async_def andThen_def ret_def split: sum.split_asm prod.split_asm)
  then show ?thesis using assms(2,3)
    by (auto simp: RaftClient_AppendEntries_def unary_call_def AppendEntriesAsync_thread_def andThen_def split: prod.splits)
qed

text \<open>A stream that succeeds wrote every chunk the producer had, and the producer did not fail.\<close>

fun all_written :: "'g raft_service \<Rightarrow> SnapshotChunk list \<Rightarrow> 'g \<Rightarrow> bool" where
  "all_written R [] g = True"
| "all_written R (chunk # chunks) g = (fst (rs_Write R chunk g) \<and> all_written R chunks (snd (rs_Write R chunk g)))"

lemma write_stream_Ok:
  "write_stream R chunks ending g = (Ok response, g') \<Longrightarrow> ending = None \<and> all_written R chunks g"
proof (induction chunks arbitrary: g)
  case Nil
  then show ?case
    by (auto simp: finish_stream_def MakeGrpcErrorResult_def split: prod.split_asm rpc_status.split_asm option.split_asm)
next
  case (Cons chunk chunks)
  then show ?case
    by (auto simp: finish_stream_def MakeGrpcErrorResult_def split: prod.split_asm rpc_status.split_asm bool.split_asm)
qed

text \<open>A server runs exactly when it has an address, and starting it again fails until it is stopped.\<close>

lemma Start_Stop:
  assumes "RaftServer_Start build s = (Ok (), s')"
  shows "sr_running s'" and "fst (RaftServer_Start build' s') = Err (BadArgument ''running'')"
    and "sr_bound_address (RaftServer_Stop s') = [] \<and> \<not> sr_running (RaftServer_Stop s')"
  using assms by (auto simp: RaftServer_Start_def RaftServer_Stop_def split: if_split_asm option.split_asm)

end
