(* ===== verification/DbClient.thy ===== *)
theory DbClient
  imports RpcLayer RaftNode
begin

text \<open>
  \<^verbatim>\<open>src/client/db_client.cpp\<close>: the client that finds the leader, reuses its channels and retries.
  The remote procedures are the parameter \<open>raft_service\<close> of \<open>RpcLayer\<close>. What the program takes from
  its surroundings is part of the state: the draws of the random generator and of the scheduler
  of the probing threads (\<open>db_draws\<close>) and the times it slept (\<open>db_slept\<close>, oldest first).
\<close>

section \<open>State and helpers\<close>

record UpsertRequest =
  ur_id :: nat
  ur_vector :: "float32 list"

record DeleteRequest =
  dr_id :: nat

record SearchRequest =
  sq_vector :: "float32 list"
  sq_top_k :: u32

record SearchHit =
  sh_id :: nat
  sh_distance :: float32

record 'g DBClient =
  db_peers :: "string list"
  db_config :: ClientConfig
  db_stubs :: "string list"
  db_leader_addr :: string
  db_client_id :: string
  db_client_seq :: "64 word"
  db_net :: 'g
  db_draws :: "nat list"
  db_slept :: "nat list"

definition ValidatePeers :: "string list \<Rightarrow> unit result" where
  "ValidatePeers ps =
     (if ps = [] then Err (BadArgument ''no peers'')
      else if \<not> list_ex (\<lambda>peer. peer \<noteq> []) ps then Err (BadArgument ''empty peers'')
      else Ok ())"

text \<open>
  The name of the host (\<open>None\<close>: \<^verbatim>\<open>gethostname\<close> failed), the process, the clock and the number of
  connections made before identify a client.
\<close>

definition GenerateClientId :: "string option \<Rightarrow> nat \<Rightarrow> nat \<Rightarrow> nat \<Rightarrow> string" where
  "GenerateClientId host_name pid time_suffix sequence =
     (case host_name of Some h \<Rightarrow> h | None \<Rightarrow> ''unknown-host'') @ ''-'' @ dec pid @ ''-'' @ dec time_suffix @ ''-'' @ dec sequence"

definition SerializeFloatVectorBytes :: "float32 list \<Rightarrow> string" where
  "SerializeFloatVectorBytes values = concat (map EncodeUint32LE values)"

definition ComputeClientRpcTimeoutMs :: "ClientConfig \<Rightarrow> nat" where
  "ComputeClientRpcTimeoutMs config = max (unat (cl_retry_max_ms config) * 3) 3000"

definition DBClient_new :: "string list \<Rightarrow> ClientConfig \<Rightarrow> string \<Rightarrow> 'g \<Rightarrow> nat list \<Rightarrow> 'g DBClient" where
  "DBClient_new ps config client_id g draws = \<lparr>db_peers = ps, db_config = config, db_stubs = [], db_leader_addr = [],
     db_client_id = client_id, db_client_seq = 0, db_net = g, db_draws = draws, db_slept = []\<rparr>"

text \<open>A number below \<open>n\<close> (for \<open>0 < n\<close>).\<close>

definition draw :: "nat \<Rightarrow> 'g DBClient \<Rightarrow> nat \<times> 'g DBClient" where
  "draw n c = (case db_draws c of [] \<Rightarrow> (0, c) | d # ds \<Rightarrow> (d mod n, c\<lparr>db_draws := ds\<rparr>))"

definition NextRequestId :: "'g DBClient \<Rightarrow> string \<times> 'g DBClient" where
  "NextRequestId c = (let next_seq = db_client_seq c + 1 in
     (db_client_id c @ ''-'' @ dec (unat next_seq), c\<lparr>db_client_seq := next_seq\<rparr>))"

definition ChooseRandomPeer :: "string \<Rightarrow> 'g DBClient \<Rightarrow> string \<times> 'g DBClient" where
  "ChooseRandomPeer exclude_addr c = (let candidates = filter (\<lambda>peer. peer \<noteq> [] \<and> peer \<noteq> exclude_addr) (db_peers c) in
     if candidates = [] then (exclude_addr, c)
     else case draw (length candidates) c of (i, c) \<Rightarrow> (candidates ! i, c))"

definition DBClient_GetOrCreateStub :: "'g raft_service \<Rightarrow> string \<Rightarrow> ('g DBClient, unit) prog" where
  "DBClient_GetOrCreateStub R peer_addr = (\<lambda>c.
     if peer_addr = [] then (Err (BadArgument ''peer''), c)
     else if peer_addr \<in> set (db_stubs c) then (Ok (), c)
     else if \<not> rs_channel R peer_addr then (Err (RpcFailed (''channel '' @ peer_addr)), c)
     else (Ok (), c\<lparr>db_stubs := peer_addr # db_stubs c\<rparr>))"

text \<open>A call through the stub: a failed status is an error with the message of the status.\<close>

definition stub_call ::
    "'g raft_service \<Rightarrow> ('g, 'q, 'a) procedure \<Rightarrow> string \<Rightarrow> nat \<Rightarrow> 'q \<Rightarrow> string \<Rightarrow> ('g DBClient, 'a) prog" where
  "stub_call R proc rpc_name timeout request addr = andThen (DBClient_GetOrCreateStub R addr) (\<lambda>_ c.
     case proc addr timeout request (db_net c) of
       (RpcErr _ message, g) \<Rightarrow> (Err (RpcFailed (rpc_name @ '': '' @ message)), c\<lparr>db_net := g\<rparr>)
     | (RpcOk response, g) \<Rightarrow> (Ok response, c\<lparr>db_net := g\<rparr>))"

section \<open>Finding the leader\<close>

text \<open>The deadline is a sum of two \<^verbatim>\<open>uint32_t\<close> values.\<close>

definition QueryLeaderOn :: "'g raft_service \<Rightarrow> string \<Rightarrow> ('g DBClient, LeaderInfo) prog" where
  "QueryLeaderOn R peer_addr = (\<lambda>c.
     let retry_base = cl_retry_base_ms (db_config c) in
     stub_call R (rs_GetLeader R) ''GetLeader'' (unat (retry_base + max retry_base 200)) () peer_addr c)"

text \<open>
  The probing threads end in any order: a draw picks the thread that queries next, and another
  one says whether it looked at the flag \<open>found\<close> before it was set.
\<close>

definition probe_thread ::
    "'g raft_service \<Rightarrow> string \<Rightarrow> bool \<Rightarrow> LeaderInfo option \<times> error option \<Rightarrow> 'g DBClient \<Rightarrow>
     (LeaderInfo option \<times> error option) \<times> 'g DBClient" where
  "probe_thread R peer early acc c = (case acc of (selected, last_error) \<Rightarrow>
     if selected \<noteq> None \<and> \<not> early then (acc, c)
     else case QueryLeaderOn R peer c of
         (Err e, c) \<Rightarrow> ((selected, if last_error = None then Some e else last_error), c)
       | (Ok leader, c) \<Rightarrow>
           if li_leader_addr leader = [] \<or> selected \<noteq> None then (acc, c)
           else ((Some leader, last_error), c))"

function probe_threads ::
    "'g raft_service \<Rightarrow> string list \<Rightarrow> LeaderInfo option \<times> error option \<Rightarrow> 'g DBClient \<Rightarrow>
     (LeaderInfo option \<times> error option) \<times> 'g DBClient" where
  "probe_threads R threads acc c =
     (if threads = [] then (acc, c)
      else case draw (length threads) c of (i, c) \<Rightarrow>
        case draw 2 c of (early, c) \<Rightarrow>
        case probe_thread R (threads ! i) (early = 1) acc c of (acc, c) \<Rightarrow>
          probe_threads R (take i threads @ drop (Suc i) threads) acc c)"

  by pat_completeness auto

lemma draw_less: "draw n c = (i, c') \<Longrightarrow> 0 < n \<Longrightarrow> i < n"
  by (auto simp: draw_def split: list.splits)

termination probe_threads
proof (relation "measure (\<lambda>(R, threads, acc, c). length threads)", goal_cases)
  case (2 R threads acc c i c1)
  then have "i < length threads" using draw_less [of "length threads" c i c1] by (cases "draw (length threads) c") auto
  then show ?case by simp
qed simp

declare probe_threads.simps [simp del]

definition ProbeLeaderConcurrently :: "'g raft_service \<Rightarrow> ('g DBClient, LeaderInfo) prog" where
  "ProbeLeaderConcurrently R = (\<lambda>c.
     case probe_threads R (filter (\<lambda>peer. peer \<noteq> []) (db_peers c)) (None, None) c of
       ((Some leader, _), c) \<Rightarrow> (Ok leader, c)
     | ((None, Some e), c) \<Rightarrow> (Err (RpcFailed (''no leader: '' @ what e)), c)
     | ((None, None), c) \<Rightarrow> (Err (RpcFailed ''no leader: election''), c))"

definition DBClient_Connect ::
    "'g raft_service \<Rightarrow> string list \<Rightarrow> ClientConfig \<Rightarrow> string \<Rightarrow> string \<Rightarrow> 'g \<Rightarrow> nat list \<Rightarrow> 'g DBClient result" where
  "DBClient_Connect R ps config client_id_override generated g draws = (case ValidatePeers ps of
       Err e \<Rightarrow> Err e
     | Ok _ \<Rightarrow>
         (let client_id = if client_id_override = [] then generated else client_id_override in
          case ProbeLeaderConcurrently R (DBClient_new ps config client_id g draws) of
            (Err e, _) \<Rightarrow> Err e
          | (Ok leader, c) \<Rightarrow> Ok (c\<lparr>db_leader_addr := li_leader_addr leader\<rparr>)))"

definition refresh_leader :: "'g raft_service \<Rightarrow> ('g DBClient, LeaderInfo) prog" where
  "refresh_leader R = andThen (ProbeLeaderConcurrently R) (\<lambda>leader c.
     (Ok leader, c\<lparr>db_leader_addr := li_leader_addr leader\<rparr>))"

definition DBClient_GetLeader :: "'g raft_service \<Rightarrow> ('g DBClient, LeaderInfo) prog" where
  "DBClient_GetLeader R = (\<lambda>c.
     if db_leader_addr c = [] then refresh_leader R c
     else case QueryLeaderOn R (db_leader_addr c) c of
         (Err _, c) \<Rightarrow> refresh_leader R c
       | (Ok leader, c) \<Rightarrow>
           if li_leader_addr leader = [] then refresh_leader R c
           else (Ok leader, c\<lparr>db_leader_addr := li_leader_addr leader\<rparr>))"

section \<open>Retrying\<close>

text \<open>
  \<^verbatim>\<open>WithRetry\<close> for a call \<open>fn\<close>; \<open>view\<close> reads the fields \<^verbatim>\<open>success\<close>, \<^verbatim>\<open>redirect_to\<close> and \<^verbatim>\<open>error\<close> of a
  response. \<open>left\<close> is how many attempts remain after the current one, whose number is
  \<^verbatim>\<open>max_retry_count\<close> minus \<open>left\<close>.
\<close>

definition backoff_ms :: "ClientConfig \<Rightarrow> nat \<Rightarrow> nat" where
  "backoff_ms config attempt = min (unat (cl_retry_base_ms config) * 2 ^ min attempt 20) (unat (cl_retry_max_ms config))"

definition next_target ::
    "('r \<Rightarrow> bool \<times> string \<times> string) \<Rightarrow> 'r result \<Rightarrow> string \<Rightarrow> ('g DBClient, string) prog" where
  "next_target view response target_addr c = (case response of
       Err _ \<Rightarrow> (case ChooseRandomPeer target_addr c of (t, c) \<Rightarrow> (Ok t, c))
     | Ok resp \<Rightarrow> (case view resp of (_, redirect_to, err) \<Rightarrow>
         if redirect_to \<noteq> [] then (Ok redirect_to, c)
         else if err \<noteq> [] then (Err (RpcFailed err), c)
         else case ChooseRandomPeer target_addr c of (t, c) \<Rightarrow> (Ok t, c)))"

definition accepted :: "('r \<Rightarrow> bool \<times> string \<times> string) \<Rightarrow> 'r result \<Rightarrow> bool" where
  "accepted view response = (case response of Err _ \<Rightarrow> False | Ok resp \<Rightarrow> fst (view resp))"

primrec retry_loop ::
    "('r \<Rightarrow> bool \<times> string \<times> string) \<Rightarrow> (string \<Rightarrow> ('g DBClient, 'r) prog) \<Rightarrow> nat \<Rightarrow> string \<Rightarrow> ('g DBClient, 'r) prog" where
  "retry_loop view fn 0 target_addr c = (case fn target_addr c of (response, c) \<Rightarrow>
     if accepted view response then (response, c\<lparr>db_leader_addr := target_addr\<rparr>)
     else case next_target view response target_addr c of
         (Err e, c) \<Rightarrow> (Err e, c)
       | (Ok _, c) \<Rightarrow> (Err (RpcFailed ''retries''), c))"
| "retry_loop view fn (Suc left) target_addr c = (case fn target_addr c of (response, c) \<Rightarrow>
     if accepted view response then (response, c\<lparr>db_leader_addr := target_addr\<rparr>)
     else case next_target view response target_addr c of
         (Err e, c) \<Rightarrow> (Err e, c)
       | (Ok t, c) \<Rightarrow>
           (let attempt = unat (cl_max_retry_count (db_config c)) - Suc left in
            retry_loop view fn left t (c\<lparr>db_slept := db_slept c @ [backoff_ms (db_config c) attempt]\<rparr>)))"

definition WithRetry ::
    "'g raft_service \<Rightarrow> ('r \<Rightarrow> bool \<times> string \<times> string) \<Rightarrow> (string \<Rightarrow> ('g DBClient, 'r) prog) \<Rightarrow> ('g DBClient, 'r) prog" where
  "WithRetry R view fn = (\<lambda>c.
     let attempts = unat (cl_max_retry_count (db_config c)) in
     if db_leader_addr c \<noteq> [] then retry_loop view fn attempts (db_leader_addr c) c
     else andThen (ProbeLeaderConcurrently R) (\<lambda>leader. retry_loop view fn attempts (li_leader_addr leader)) c)"

definition write_view :: "ClientWriteResponse \<Rightarrow> bool \<times> string \<times> string" where
  "write_view r = (cr_success r, cr_redirect_to r, cr_error r)"

definition search_view :: "ClientSearchResponse \<Rightarrow> bool \<times> string \<times> string" where
  "search_view r = (ct_success r, ct_redirect_to r, ct_error r)"

definition send_write :: "'g raft_service \<Rightarrow> ClientWriteRequest \<Rightarrow> string \<Rightarrow> ('g DBClient, ClientWriteResponse) prog" where
  "send_write R q target_addr c =
     stub_call R (rs_ClientWrite R) ''ClientWrite'' (ComputeClientRpcTimeoutMs (db_config c)) q target_addr c"

text \<open>The end of \<^verbatim>\<open>Upsert\<close> and \<^verbatim>\<open>Delete\<close>; \<open>fallback\<close> is the message for a failure without one.\<close>

definition write_result :: "string \<Rightarrow> ClientWriteResponse \<Rightarrow> ('g DBClient, unit) prog" where
  "write_result fallback r =
     (if cr_success r then ret () else throw (RpcFailed (if cr_error r = [] then fallback else cr_error r)))"

definition DBClient_Upsert :: "'g raft_service \<Rightarrow> UpsertRequest \<Rightarrow> ('g DBClient, unit) prog" where
  "DBClient_Upsert R request = (\<lambda>c.
     if ur_vector request = [] then (Err (BadArgument ''vector''), c)
     else case NextRequestId c of (request_id, c) \<Rightarrow>
       andThen (WithRetry R write_view (send_write R
           \<lparr>cw_cmd_type = 1, cw_id = ur_id request, cw_vector = SerializeFloatVectorBytes (ur_vector request),
            cw_request_id = request_id\<rparr>))
         (write_result ''upsert'') c)"

definition DBClient_Delete :: "'g raft_service \<Rightarrow> DeleteRequest \<Rightarrow> ('g DBClient, unit) prog" where
  "DBClient_Delete R request = (\<lambda>c. case NextRequestId c of (request_id, c) \<Rightarrow>
     andThen (WithRetry R write_view (send_write R
         \<lparr>cw_cmd_type = 2, cw_id = dr_id request, cw_vector = [], cw_request_id = request_id\<rparr>))
       (write_result ''delete'') c)"

definition send_search :: "'g raft_service \<Rightarrow> ClientSearchRequest \<Rightarrow> string \<Rightarrow> ('g DBClient, ClientSearchResponse) prog" where
  "send_search R q target_addr c =
     stub_call R (rs_ClientSearch R) ''ClientSearch'' (ComputeClientRpcTimeoutMs (db_config c)) q target_addr c"

definition DBClient_Search :: "'g raft_service \<Rightarrow> SearchRequest \<Rightarrow> ('g DBClient, SearchHit list) prog" where
  "DBClient_Search R request = (\<lambda>c.
     if sq_vector request = [] then (Err (BadArgument ''vector''), c)
     else if sq_top_k request = 0 then (Err (BadArgument ''top_k''), c)
     else andThen (WithRetry R search_view (send_search R
           \<lparr>cq_vector = SerializeFloatVectorBytes (sq_vector request), cq_top_k = sq_top_k request\<rparr>))
         (\<lambda>r. if ct_success r then ret (map (\<lambda>(i, d). \<lparr>sh_id = i, sh_distance = d\<rparr>) (ct_hits r))
              else throw (RpcFailed (if ct_error r = [] then ''search'' else ct_error r))) c)"

section \<open>One request per write\<close>

text \<open>
  A service that also records the writes it gets and how it answers them: what the network sees of
  a client.
\<close>

type_synonym write_call = "string \<times> ClientWriteRequest \<times> ClientWriteResponse rpc_status"

definition unrecorded :: "('g, 'q, 'a) procedure \<Rightarrow> ('g \<times> write_call list, 'q, 'a) procedure" where
  "unrecorded p addr timeout q = (\<lambda>(g, l). case p addr timeout q g of (st, g) \<Rightarrow> (st, (g, l)))"

definition recorded ::
    "('g, ClientWriteRequest, ClientWriteResponse) procedure \<Rightarrow>
     ('g \<times> write_call list, ClientWriteRequest, ClientWriteResponse) procedure" where
  "recorded p addr timeout q = (\<lambda>(g, l). case p addr timeout q g of (st, g) \<Rightarrow> (st, (g, l @ [(addr, q, st)])))"

definition recording :: "'g raft_service \<Rightarrow> ('g \<times> write_call list) raft_service" where
  "recording R = \<lparr>rs_channel = rs_channel R,
     rs_AppendEntries = unrecorded (rs_AppendEntries R), rs_RequestVote = unrecorded (rs_RequestVote R),
     rs_Heartbeat = unrecorded (rs_Heartbeat R), rs_GetLeader = unrecorded (rs_GetLeader R),
     rs_ClientWrite = recorded (rs_ClientWrite R), rs_ClientSearch = unrecorded (rs_ClientSearch R),
     rs_OpenStream = (\<lambda>addr timeout (g, l). case rs_OpenStream R addr timeout g of (b, g) \<Rightarrow> (b, (g, l))),
     rs_Write = (\<lambda>chunk (g, l). case rs_Write R chunk g of (b, g) \<Rightarrow> (b, (g, l))),
     rs_WritesDone = (\<lambda>(g, l). (rs_WritesDone R g, l)),
     rs_Finish = (\<lambda>(g, l). case rs_Finish R g of (st, g) \<Rightarrow> (st, (g, l)))\<rparr>"

abbreviation calls :: "('g \<times> write_call list) DBClient \<Rightarrow> write_call list" where
  "calls c \<equiv> snd (db_net c)"

definition answered :: "write_call \<Rightarrow> bool" where
  "answered w = (case w of (_, _, RpcOk r) \<Rightarrow> cr_success r | _ \<Rightarrow> False)"

text \<open>What looking for a leader leaves alone.\<close>

definition quiet :: "('g \<times> write_call list) DBClient \<Rightarrow> ('g \<times> write_call list) DBClient \<Rightarrow> bool" where
  "quiet c c' = (calls c' = calls c \<and> db_config c' = db_config c \<and> db_slept c' = db_slept c \<and>
     db_client_id c' = db_client_id c \<and> db_client_seq c' = db_client_seq c)"

lemma quiet_refl [simp]: "quiet c c"
  by (simp add: quiet_def)

lemma quiet_trans: "quiet c c' \<Longrightarrow> quiet c' c'' \<Longrightarrow> quiet c c''"
  by (simp add: quiet_def)

lemma draw_quiet: "draw n c = (i, c') \<Longrightarrow> quiet c c'"
  by (auto simp: draw_def quiet_def split: list.splits)

lemma ChooseRandomPeer_quiet: "ChooseRandomPeer a c = (t, c') \<Longrightarrow> quiet c c'"
  by (auto simp: ChooseRandomPeer_def Let_def dest: draw_quiet split: if_split_asm prod.split_asm)

lemma stub_quiet: "DBClient_GetOrCreateStub R a c = (r, c') \<Longrightarrow> quiet c c'"
  by (auto simp: DBClient_GetOrCreateStub_def quiet_def split: if_split_asm)

lemma QueryLeaderOn_quiet: "QueryLeaderOn (recording R) a c = (r, c') \<Longrightarrow> quiet c c'"
  by (auto simp: QueryLeaderOn_def stub_call_def andThen_def recording_def unrecorded_def quiet_def Let_def
      DBClient_GetOrCreateStub_def split: if_split_asm prod.split_asm sum.split_asm rpc_status.split_asm)

lemma probe_thread_quiet: "probe_thread (recording R) p early acc c = (acc', c') \<Longrightarrow> quiet c c'"
  by (auto simp: probe_thread_def dest: QueryLeaderOn_quiet split: prod.split_asm sum.split_asm if_split_asm)

lemma probe_threads_quiet: "probe_threads (recording R) ts acc c = (acc', c') \<Longrightarrow> quiet c c'"
proof (induction "length ts" arbitrary: ts acc c)
  case 0
  then show ?case by (simp add: probe_threads.simps)
next
  case (Suc k)
  obtain i c1 where i: "draw (length ts) c = (i, c1)" by fastforce
  obtain e c2 where e: "draw 2 c1 = (e, c2)" by fastforce
  obtain acc3 c3 where p: "probe_thread (recording R) (ts ! i) (e = 1) acc c2 = (acc3, c3)" by fastforce
  have "i < length ts" using draw_less [OF i] Suc(2) by linarith
  moreover have "probe_threads (recording R) (take i ts @ drop (Suc i) ts) acc3 c3 = (acc', c')"
    using Suc(2,3) i e p by (subst (asm) probe_threads.simps) (auto split: if_split_asm)
  ultimately have "quiet c3 c'" using Suc(1) [of "take i ts @ drop (Suc i) ts"] Suc(2) by simp
  then show ?case using draw_quiet [OF i] draw_quiet [OF e] probe_thread_quiet [OF p] quiet_trans by blast
qed

lemma Probe_quiet: "ProbeLeaderConcurrently (recording R) c = (r, c') \<Longrightarrow> quiet c c'"
  by (auto simp: ProbeLeaderConcurrently_def dest: probe_threads_quiet split: prod.split_asm option.split_asm)

lemma next_target_quiet: "next_target view r t c = (r', c') \<Longrightarrow> quiet c c'"
  by (auto simp: next_target_def dest: ChooseRandomPeer_quiet split: prod.split_asm sum.split_asm if_split_asm)

text \<open>One attempt calls the service at most once; it is accepted exactly when the service answers success.\<close>

lemma send_write_calls:
  assumes "send_write (recording R) q a c = (r, c')"
  obtains ws where "quiet (c\<lparr>db_net := db_net c'\<rparr>) c'" "calls c' = calls c @ ws" "length ws \<le> 1"
    "\<forall>w \<in> set ws. fst w = a \<and> fst (snd w) = q" "accepted write_view r = (ws \<noteq> [] \<and> answered (hd ws))"
proof (cases "DBClient_GetOrCreateStub (recording R) a c")
  case (Pair s c1)
  have k: "quiet c c1" and net: "db_net c1 = db_net c"
    using stub_quiet [OF Pair] Pair by (auto simp: DBClient_GetOrCreateStub_def split: if_split_asm)
  show ?thesis
  proof (cases s)
    case (Inl e)
    then show ?thesis using assms Pair k net that [of "[]"]
      by (auto simp: send_write_def stub_call_def andThen_def accepted_def quiet_def)
  next
    case (Inr u)
    obtain st g where p: "rs_ClientWrite R a (ComputeClientRpcTimeoutMs (db_config c)) q (fst (db_net c)) = (st, g)"
      by fastforce
    have "r = (case st of RpcErr _ m \<Rightarrow> Err (RpcFailed (''ClientWrite'' @ '': '' @ m)) | RpcOk x \<Rightarrow> Ok x)"
      and "c' = c1\<lparr>db_net := (g, calls c @ [(a, q, st)])\<rparr>"
      using assms Pair Inr p net
      by (auto simp: send_write_def stub_call_def andThen_def recording_def recorded_def split: rpc_status.splits prod.splits)
    then show ?thesis using k that [of "[(a, q, st)]"]
      by (cases st) (auto simp: quiet_def accepted_def answered_def write_view_def)
  qed
qed

text \<open>
  The writes of one call: at most \<open>n\<close>, all of the request \<open>q\<close>, none after the first that is answered
  with success, and the call succeeds (\<open>ok\<close>) when there is such an answer.
\<close>

definition one_request :: "ClientWriteRequest \<Rightarrow> nat \<Rightarrow> write_call list \<Rightarrow> bool \<Rightarrow> bool" where
  "one_request q n ws ok = (length ws \<le> n \<and> (\<forall>w \<in> set ws. fst (snd w) = q) \<and>
     (\<forall>w \<in> set (butlast ws). \<not> answered w) \<and> ok = (ws \<noteq> [] \<and> answered (last ws)))"

lemma one_request_append:
  assumes "one_request q n ws ok" and "length vs \<le> 1" and "\<forall>w \<in> set vs. fst (snd w) = q"
    and "\<not> (vs \<noteq> [] \<and> answered (hd vs))"
  shows "one_request q (Suc n) (vs @ ws) ok"
  using assms by (cases vs) (auto simp: one_request_def)

lemma one_request_single:
  assumes "length vs \<le> 1" and "\<forall>w \<in> set vs. fst (snd w) = q" and "ok = (vs \<noteq> [] \<and> answered (hd vs))"
  shows "one_request q (Suc n) vs ok"
  using assms by (cases vs) (auto simp: one_request_def)

abbreviation succeeded :: "'r result \<Rightarrow> bool" where
  "succeeded r \<equiv> \<not> isl r"

definition retried :: "ClientWriteRequest \<Rightarrow> nat \<Rightarrow> ClientWriteResponse result \<Rightarrow>
    ('g \<times> write_call list) DBClient \<Rightarrow> ('g \<times> write_call list) DBClient \<Rightarrow> bool" where
  "retried q n r c c' = (\<exists>ws ss. calls c' = calls c @ ws \<and> one_request q n ws (succeeded r) \<and>
     (\<forall>resp. r = Ok resp \<longrightarrow> cr_success resp \<and> db_leader_addr c' = fst (last ws)) \<and>
     db_slept c' = db_slept c @ ss \<and> (\<forall>s \<in> set ss. s \<le> unat (cl_retry_max_ms (db_config c))) \<and>
     db_client_id c' = db_client_id c \<and> db_client_seq c' = db_client_seq c)"

lemma retried_quiet: "quiet c c1 \<Longrightarrow> retried q n r c1 c' \<Longrightarrow> retried q n r c c'"
  by (simp add: retried_def quiet_def)

lemma retried_accepted:
  assumes "send_write (recording R) q t c = (r, c1)" and "accepted write_view r"
  shows "retried q (Suc n) r c (c1\<lparr>db_leader_addr := t\<rparr>)"
proof -
  obtain ws where w: "quiet (c\<lparr>db_net := db_net c1\<rparr>) c1" "calls c1 = calls c @ ws" "length ws \<le> 1"
    "\<forall>w \<in> set ws. fst w = t \<and> fst (snd w) = q" "ws \<noteq> []" "answered (hd ws)"
    using send_write_calls [OF assms(1)] assms(2) by metis
  then have "one_request q (Suc n) ws (succeeded r)" and "fst (last ws) = t"
    using one_request_single [of ws q "succeeded r" n] assms(2) by (auto simp: accepted_def split: sum.splits)
  then show ?thesis unfolding retried_def
    using w(1,2) assms(2) by (intro exI [of _ ws] exI [of _ "[]"]) (auto simp: quiet_def accepted_def write_view_def)
qed

lemma retried_failed:
  assumes "send_write (recording R) q t c = (r, c1)" and "\<not> accepted write_view r" and "quiet c1 c2"
  shows "retried q (Suc n) (Err e) c c2"
proof -
  obtain ws where w: "quiet (c\<lparr>db_net := db_net c1\<rparr>) c1" "calls c1 = calls c @ ws" "length ws \<le> 1"
    "\<forall>w \<in> set ws. fst w = t \<and> fst (snd w) = q" "\<not> (ws \<noteq> [] \<and> answered (hd ws))"
    using send_write_calls [OF assms(1)] assms(2) by metis
  then have "one_request q (Suc n) ws False" using one_request_single [of ws q False n] by auto
  then show ?thesis unfolding retried_def
    using w(1,2) assms(3) by (intro exI [of _ ws] exI [of _ "[]"]) (auto simp: quiet_def)
qed

lemma retried_again:
  assumes "send_write (recording R) q t c = (r1, c1)" and "\<not> accepted write_view r1" and "quiet c1 c2"
    and "retried q n r (c2\<lparr>db_slept := db_slept c2 @ [s]\<rparr>) c'" and "s \<le> unat (cl_retry_max_ms (db_config c2))"
  shows "retried q (Suc n) r c c'"
proof -
  obtain vs where v: "quiet (c\<lparr>db_net := db_net c1\<rparr>) c1" "calls c1 = calls c @ vs" "length vs \<le> 1"
    "\<forall>w \<in> set vs. fst w = t \<and> fst (snd w) = q" "\<not> (vs \<noteq> [] \<and> answered (hd vs))"
    using send_write_calls [OF assms(1)] assms(2) by metis
  obtain ws ss where w: "calls c' = calls c2 @ ws" "one_request q n ws (succeeded r)"
    "\<forall>resp. r = Ok resp \<longrightarrow> cr_success resp \<and> db_leader_addr c' = fst (last ws)"
    "db_slept c' = db_slept c2 @ s # ss" "\<forall>s \<in> set ss. s \<le> unat (cl_retry_max_ms (db_config c2))"
    "db_client_id c' = db_client_id c2" "db_client_seq c' = db_client_seq c2"
    using assms(4) by (auto simp: retried_def)
  have "one_request q (Suc n) (vs @ ws) (succeeded r)" using one_request_append [OF w(2)] v(3-5) by auto
  moreover have "ws \<noteq> []" if "r = Ok resp" for resp using w(2) that by (auto simp: one_request_def)
  ultimately show ?thesis unfolding retried_def
    using v(1,2) w(1,3-7) assms(3,5) by (intro exI [of _ "vs @ ws"] exI [of _ "s # ss"]) (auto simp: quiet_def)
qed

lemma backoff_le: "backoff_ms config attempt \<le> unat (cl_retry_max_ms config)"
  by (simp add: backoff_ms_def)

lemma retry_loop_retried:
  "retry_loop write_view (send_write (recording R) q) left t c = (r, c') \<Longrightarrow> retried q (Suc left) r c c'"
proof (induction left arbitrary: t c)
  case 0
  obtain r1 c1 where w: "send_write (recording R) q t c = (r1, c1)" by fastforce
  obtain r2 c2 where n: "next_target write_view r1 t c1 = (r2, c2)" by fastforce
  show ?case using 0 w n retried_accepted [OF w] retried_failed [OF w _ next_target_quiet [OF n]]
    by (auto split: if_split_asm sum.split_asm)
next
  case (Suc left)
  obtain r1 c1 where w: "send_write (recording R) q t c = (r1, c1)" by fastforce
  obtain r2 c2 where n: "next_target write_view r1 t c1 = (r2, c2)" by fastforce
  consider "accepted write_view r1" | e where "\<not> accepted write_view r1" "r2 = Err e"
    | t' where "\<not> accepted write_view r1" "r2 = Ok t'" by (cases r2) auto
  then show ?case
  proof cases
    case 3
    then have "retried q (Suc left) r (c2\<lparr>db_slept := db_slept c2 @
        [backoff_ms (db_config c2) (unat (cl_max_retry_count (db_config c2)) - Suc left)]\<rparr>) c'"
      using Suc.IH [of t'] Suc.prems w n by (simp add: Let_def)
    from retried_again [OF w 3(1) next_target_quiet [OF n] this backoff_le] show ?thesis .
  qed (use Suc.prems w n retried_accepted [OF w] retried_failed [OF w _ next_target_quiet [OF n]] in auto)
qed

lemma WithRetry_retried:
  assumes "WithRetry (recording R) write_view (send_write (recording R) q) c = (r, c')"
  shows "retried q (Suc (unat (cl_max_retry_count (db_config c)))) r c c'"
proof (cases "db_leader_addr c = []")
  case True
  obtain s c1 where p: "ProbeLeaderConcurrently (recording R) c = (s, c1)" by fastforce
  show ?thesis
  proof (cases s)
    case (Inl e)
    then have "r = Err e" "c' = c1" using assms True p by (simp_all add: WithRetry_def andThen_def)
    then show ?thesis using Probe_quiet [OF p]
      by (simp add: retried_def quiet_def one_request_def)
  next
    case (Inr leader)
    then have "retry_loop write_view (send_write (recording R) q) (unat (cl_max_retry_count (db_config c)))
        (li_leader_addr leader) c1 = (r, c')"
      using assms True p by (simp add: WithRetry_def andThen_def)
    then show ?thesis using retried_quiet [OF Probe_quiet [OF p] retry_loop_retried] by blast
  qed
next
  case False
  then show ?thesis using assms retry_loop_retried by (simp add: WithRetry_def)
qed

lemma float_words_Encode [simp]: "float_words (EncodeUint32LE v @ r) = v # float_words r"
proof -
  obtain a b c d where e: "EncodeUint32LE v = [a, b, c, d]" by (simp add: EncodeUint32LE_def)
  then show ?thesis using DecodeUint32LE_Encode [of v "[]"] by simp
qed

lemma vector_bytes_roundtrip: "ParseFloatVectorBytes (SerializeFloatVectorBytes vs) = Ok vs"
proof -
  have "float_words (SerializeFloatVectorBytes vs) = vs" and "length (SerializeFloatVectorBytes vs) = 4 * length vs"
    by (induction vs) (simp_all add: SerializeFloatVectorBytes_def)
  moreover have "vs = []" if "SerializeFloatVectorBytes vs = []" using that calculation(2) by simp
  ultimately show ?thesis by (auto simp: ParseFloatVectorBytes_def)
qed

lemma Upsert_retried:
  assumes "ur_vector request \<noteq> []" and "DBClient_Upsert (recording R) request c = (r, c')"
  obtains resp where "retried
      \<lparr>cw_cmd_type = 1, cw_id = ur_id request, cw_vector = SerializeFloatVectorBytes (ur_vector request),
       cw_request_id = db_client_id c @ ''-'' @ dec (unat (db_client_seq c + 1))\<rparr>
      (Suc (unat (cl_max_retry_count (db_config c)))) resp (c\<lparr>db_client_seq := db_client_seq c + 1\<rparr>) c'"
    "(r = Ok ()) = succeeded resp"
proof -
  let ?q = "\<lparr>cw_cmd_type = 1, cw_id = ur_id request, cw_vector = SerializeFloatVectorBytes (ur_vector request),
       cw_request_id = db_client_id c @ ''-'' @ dec (unat (db_client_seq c + 1))\<rparr>"
  let ?c = "c\<lparr>db_client_seq := db_client_seq c + 1\<rparr>"
  obtain resp c1 where w: "WithRetry (recording R) write_view (send_write (recording R) ?q) ?c = (resp, c1)"
    by fastforce
  have t: "retried ?q (Suc (unat (cl_max_retry_count (db_config c)))) resp ?c c1" using WithRetry_retried [OF w] by simp
  have run: "andThen (WithRetry (recording R) write_view (send_write (recording R) ?q)) (write_result ''upsert'') ?c = (r, c')"
    using assms by (simp add: DBClient_Upsert_def NextRequestId_def Let_def)
  show ?thesis
  proof (cases resp)
    case (Inl e)
    then show ?thesis using that t run w by (auto simp: andThen_def)
  next
    case (Inr x)
    then have "cr_success x" using t by (auto simp: retried_def)
    then show ?thesis using that t run w Inr by (auto simp: andThen_def write_result_def ret_def)
  qed
qed

text \<open>
  C8: the retries of a write are one request. Whatever the network and the nodes do, an upsert of a
  client sends at most \<^verbatim>\<open>max_retry_count\<close> + 1 writes, all of the same request: the vector in it
  parses back on the server and its identifier, which no other write of the client has until the
  64-bit counter wraps, lets the servers recognise the retry. It reports success exactly when a node
  answered with success, sends nothing after that answer and remembers that node as the leader, and
  no pause between two attempts is longer than \<^verbatim>\<open>retry_max_ms\<close>.
\<close>

theorem upsert_retries_one_request:
  assumes "ur_vector request \<noteq> []" and "DBClient_Upsert (recording R) request c = (r, c')"
  shows "\<exists>q ws ss. calls c' = calls c @ ws \<and> length ws \<le> unat (cl_max_retry_count (db_config c)) + 1 \<and>
    (\<forall>w \<in> set ws. fst (snd w) = q) \<and> cw_cmd_type q = 1 \<and> cw_id q = ur_id request \<and>
    ParseFloatVectorBytes (cw_vector q) = Ok (ur_vector request) \<and> db_client_seq c' = db_client_seq c + 1 \<and>
    (\<forall>n. cw_request_id q = db_client_id c @ ''-'' @ dec (unat n) \<longleftrightarrow> n = db_client_seq c') \<and>
    (\<forall>w \<in> set (butlast ws). \<not> answered w) \<and> (r = Ok () \<longleftrightarrow> ws \<noteq> [] \<and> answered (last ws)) \<and>
    (r = Ok () \<longrightarrow> db_leader_addr c' = fst (last ws)) \<and>
    db_slept c' = db_slept c @ ss \<and> (\<forall>s \<in> set ss. s \<le> unat (cl_retry_max_ms (db_config c)))"
proof -
  let ?q = "\<lparr>cw_cmd_type = 1, cw_id = ur_id request, cw_vector = SerializeFloatVectorBytes (ur_vector request),
       cw_request_id = db_client_id c @ ''-'' @ dec (unat (db_client_seq c + 1))\<rparr>"
  obtain resp where t: "retried ?q (Suc (unat (cl_max_retry_count (db_config c)))) resp
      (c\<lparr>db_client_seq := db_client_seq c + 1\<rparr>) c'" and ok: "(r = Ok ()) = succeeded resp"
    using Upsert_retried [OF assms] .
  have ids: "(dec (unat m) = dec (unat n)) = (m = n)" for m n :: "64 word"
    by (metis dec_val_dec word_unat_eq_iff)
  from t obtain ws ss where "calls c' = calls c @ ws"
    "one_request ?q (Suc (unat (cl_max_retry_count (db_config c)))) ws (succeeded resp)"
    "\<forall>x. resp = Ok x \<longrightarrow> db_leader_addr c' = fst (last ws)" "db_slept c' = db_slept c @ ss"
    "\<forall>s \<in> set ss. s \<le> unat (cl_retry_max_ms (db_config c))" "db_client_seq c' = db_client_seq c + 1"
    unfolding retried_def by auto
  then show ?thesis using ok ids
    by (cases resp; intro exI [of _ ?q] exI [of _ ws] exI [of _ ss])
      (auto simp: one_request_def vector_bytes_roundtrip eq_commute [of "db_client_seq c + 1"])
qed

text \<open>A cluster of two: the node \<^verbatim>\<open>a\<close>, once the leader, redirects to \<^verbatim>\<open>b\<close>.\<close>

definition demo_service :: "unit raft_service" where
  "demo_service = \<lparr>rs_channel = (\<lambda>_. True),
     rs_AppendEntries = (\<lambda>_ _ _ g. (RpcErr 14 [], g)), rs_RequestVote = (\<lambda>_ _ _ g. (RpcErr 14 [], g)),
     rs_Heartbeat = (\<lambda>_ _ _ g. (RpcErr 14 [], g)),
     rs_GetLeader = (\<lambda>_ _ _ g. (RpcOk \<lparr>li_leader_id = ''b'', li_leader_addr = ''b'', li_term = 1\<rparr>, g)),
     rs_ClientWrite = (\<lambda>addr _ _ g. (RpcOk (if addr = ''b'' then write_reply True [] [] else write_reply False [] ''b''), g)),
     rs_ClientSearch = (\<lambda>_ _ _ g. (RpcErr 14 [], g)), rs_OpenStream = (\<lambda>_ _ g. (False, g)),
     rs_Write = (\<lambda>_ g. (False, g)), rs_WritesDone = (\<lambda>g. g), rs_Finish = (\<lambda>g. (RpcErr 14 [], g))\<rparr>"

definition demo_client :: "(unit \<times> write_call list) DBClient" where
  "demo_client = (DBClient_new [''a'', ''b''] (default_ClientConfig\<lparr>cl_max_retry_count := 1\<rparr>) ''host'' ((), []) [])\<lparr>db_leader_addr := ''a''\<rparr>"

lemma demo_write:
  "send_write (recording demo_service) q (x # a) c =
    (let reply = if x # a = ''b'' then write_reply True [] [] else write_reply False [] ''b'' in
     (Ok reply, c\<lparr>db_stubs := (if x # a \<in> set (db_stubs c) then db_stubs c else (x # a) # db_stubs c),
       db_net := ((), calls c @ [(x # a, q, RpcOk reply)])\<rparr>))"
  by (simp add: send_write_def stub_call_def DBClient_GetOrCreateStub_def recording_def recorded_def demo_service_def
      andThen_def Let_def split: prod.splits)

theorem upsert_retries_one_request_witness:
  "\<exists>r c' q ws. DBClient_Upsert (recording demo_service) \<lparr>ur_id = 7, ur_vector = [1, 2]\<rparr> demo_client = (r, c') \<and>
     r = Ok () \<and> calls c' = ws \<and> length ws = 2 \<and> (\<forall>w \<in> set ws. fst (snd w) = q) \<and>
     ParseFloatVectorBytes (cw_vector q) = Ok [1, 2] \<and> answered (last ws)"
proof -
  let ?u = "\<lparr>ur_id = 7, ur_vector = [1, 2]\<rparr>"
  obtain r c' where run: "DBClient_Upsert (recording demo_service) ?u demo_client = (r, c')" by fastforce
  then have "r = Ok ()" and "length (calls c') = 2"
    by (auto simp: DBClient_Upsert_def NextRequestId_def WithRetry_def demo_client_def DBClient_new_def default_ClientConfig_def
        andThen_def demo_write accepted_def write_view_def next_target_def write_result_def ret_def write_reply_def Let_def)
  then show ?thesis using upsert_retries_one_request [OF _ run] run by (auto simp: demo_client_def DBClient_new_def)
qed

end
