(* ===== verification/Logging.thy ===== *)
theory Logging
  imports Config
begin

text \<open>
  \<^verbatim>\<open>src/common/logger.cpp\<close> and \<^verbatim>\<open>include/common/perf_counters.hpp\<close>: the process-wide logger and the
  counters. The logging library writes a message exactly when its level is at least that of the
  logger; the layout of a line is its concern.
\<close>

section \<open>The logger\<close>

datatype level = Trace | Debug | Info | Warn | Error | Critical | Off

fun severity :: "level \<Rightarrow> nat" where
  "severity Trace = 0" | "severity Debug = 1" | "severity Info = 2" | "severity Warn = 3"
| "severity Error = 4" | "severity Critical = 5" | "severity Off = 6"

instantiation level :: linorder
begin

definition less_eq_level :: "level \<Rightarrow> level \<Rightarrow> bool" where
  "less_eq_level a b = (severity a \<le> severity b)"

definition less_level :: "level \<Rightarrow> level \<Rightarrow> bool" where
  "less_level a b = (severity a < severity b)"

instance
proof
  fix x y :: level
  show "x \<le> y \<Longrightarrow> y \<le> x \<Longrightarrow> x = y" by (cases x; cases y) (simp_all add: less_eq_level_def)
qed (auto simp: less_eq_level_def less_level_def)

end

datatype sink = StdoutSink | OstreamSink

record logger =
  lg_level :: level
  lg_sink :: sink
  lg_lines :: "(level \<times> string \<times> string) list"

definition ParseLogLevel :: "string \<Rightarrow> level result" where
  "ParseLogLevel name = (let normalized = ToLower name in
     if normalized = ''trace'' then Ok Trace
     else if normalized = ''debug'' then Ok Debug
     else if normalized = ''info'' then Ok Info
     else if normalized = ''warn'' \<or> normalized = ''warning'' then Ok Warn
     else if normalized = ''error'' \<or> normalized = ''err'' then Ok Error
     else if normalized = ''critical'' then Ok Critical
     else if normalized = ''off'' then Ok Off
     else Err (BadArgument name))"

definition BuildLogger :: "level \<Rightarrow> sink \<Rightarrow> logger" where
  "BuildLogger level sink = \<lparr>lg_level = level, lg_sink = sink, lg_lines = []\<rparr>"

text \<open>The global logger is \<open>None\<close> until it is built and after a shutdown.\<close>

definition GetOrCreateLogger :: "logger option \<Rightarrow> logger" where
  "GetOrCreateLogger g = (case g of Some l \<Rightarrow> l | None \<Rightarrow> BuildLogger Info StdoutSink)"

definition InitializeLogger :: "string \<Rightarrow> (logger option, unit) prog" where
  "InitializeLogger name g = (case ParseLogLevel name of
     Err e \<Rightarrow> (Err e, g) | Ok level \<Rightarrow> (Ok (), Some (BuildLogger level StdoutSink)))"

definition InitializeLoggerWithOstream :: "string \<Rightarrow> (logger option, unit) prog" where
  "InitializeLoggerWithOstream name g = (case ParseLogLevel name of
     Err e \<Rightarrow> (Err e, g) | Ok level \<Rightarrow> (Ok (), Some (BuildLogger level OstreamSink)))"

definition SetLogLevel :: "string \<Rightarrow> (logger option, unit) prog" where
  "SetLogLevel name g = (case ParseLogLevel name of
     Err e \<Rightarrow> (Err e, g) | Ok level \<Rightarrow> (Ok (), Some ((GetOrCreateLogger g)\<lparr>lg_level := level\<rparr>)))"

text \<open>Lines are kept here whether or not they are still buffered, so a flush only builds the logger.\<close>

definition FlushLogger :: "logger option \<Rightarrow> logger option" where
  "FlushLogger g = Some (GetOrCreateLogger g)"

definition ShutdownLogger :: "logger option \<Rightarrow> logger option" where
  "ShutdownLogger g = None"

definition LogMessage :: "level \<Rightarrow> string \<Rightarrow> string \<Rightarrow> logger option \<Rightarrow> logger option" where
  "LogMessage level event message g = (let l = GetOrCreateLogger g in
     Some (if lg_level l \<le> level then l\<lparr>lg_lines := lg_lines l @ [(level, event, message)]\<rparr> else l))"

text \<open>The two lists of level names, of the configuration and of the logger, agree.\<close>

lemma ParseLogLevel_Ok: "(\<exists>l. ParseLogLevel name = Ok l) \<longleftrightarrow> ValidateLoggingConfig name = Ok ()"
  by (auto simp: ParseLogLevel_def ValidateLoggingConfig_def logging_levels_def Let_def)

lemma validated_level_initializes:
  assumes "ValidateLoggingConfig name = Ok ()"
  shows "fst (InitializeLogger name g) = Ok ()" and "fst (SetLogLevel name g) = Ok ()"
  using assms ParseLogLevel_Ok [of name] by (auto simp: InitializeLogger_def SetLogLevel_def)

text \<open>A message below the level is dropped, any other one is the last line.\<close>

lemma LogMessage_lines:
  assumes "ParseLogLevel name = Ok l" and "InitializeLogger name g = (r, g')"
  shows "LogMessage m event message g' =
    Some \<lparr>lg_level = l, lg_sink = StdoutSink, lg_lines = (if m < l then [] else [(m, event, message)])\<rparr>"
  using assms by (auto simp: LogMessage_def InitializeLogger_def GetOrCreateLogger_def BuildLogger_def Let_def)

section \<open>Counters\<close>

record counter =
  ct_count :: "64 word"
  ct_total_us :: "64 word"
  ct_max_us :: "64 word"

record PerfCounters =
  pf_fdatasync :: counter
  pf_hnsw_lock_wait :: counter
  pf_hnsw_insert :: counter
  pf_apply :: counter

definition UpdateMax :: "64 word \<Rightarrow> 64 word \<Rightarrow> 64 word" where
  "UpdateMax field value = (if value > field then value else field)"

text \<open>The three atomic updates of a record; \<open>fetch_add\<close> wraps.\<close>

definition record_us :: "64 word \<Rightarrow> counter \<Rightarrow> counter" where
  "record_us us c = \<lparr>ct_count = ct_count c + 1, ct_total_us = ct_total_us c + us, ct_max_us = UpdateMax (ct_max_us c) us\<rparr>"

definition RecordFdatasync :: "64 word \<Rightarrow> PerfCounters \<Rightarrow> PerfCounters" where
  "RecordFdatasync us p = p\<lparr>pf_fdatasync := record_us us (pf_fdatasync p)\<rparr>"

definition RecordHnswLockWait :: "64 word \<Rightarrow> PerfCounters \<Rightarrow> PerfCounters" where
  "RecordHnswLockWait us p = p\<lparr>pf_hnsw_lock_wait := record_us us (pf_hnsw_lock_wait p)\<rparr>"

definition RecordHnswInsert :: "64 word \<Rightarrow> PerfCounters \<Rightarrow> PerfCounters" where
  "RecordHnswInsert us p = p\<lparr>pf_hnsw_insert := record_us us (pf_hnsw_insert p)\<rparr>"

definition RecordApply :: "64 word \<Rightarrow> PerfCounters \<Rightarrow> PerfCounters" where
  "RecordApply us p = p\<lparr>pf_apply := record_us us (pf_apply p)\<rparr>"

lemma UpdateMax_max: "UpdateMax m v = max v m"
  by (auto simp: UpdateMax_def max_def)

text \<open>After a run of records a counter holds their number, their sum and their maximum.\<close>

lemma fold_record_us:
  "fold record_us xs c = \<lparr>ct_count = ct_count c + of_nat (length xs), ct_total_us = ct_total_us c + sum_list xs,
     ct_max_us = fold max xs (ct_max_us c)\<rparr>"
  by (induction xs arbitrary: c) (simp_all add: record_us_def UpdateMax_max ac_simps)

lemma record_us_max: "ct_max_us (fold record_us xs c) = Max (set (ct_max_us c # xs))"
  by (simp add: fold_record_us Max.set_eq_fold [symmetric] del: list.set)

end
