(* ===== verification/Spec2Isabelle.thy ===== *)
theory Spec2Isabelle
  imports ClientWrites SnapshotTransfer RaftProgress DbClient Logging
begin

text \<open>
  RaftVDB, a vector database replicated with Raft.

  \<^bold>\<open>The program.\<close> A node (\<^verbatim>\<open>src/raft/raft_node.cpp\<close>) keeps a log of commands in a segmented
  write-ahead log, its term and vote in a metadata file, and applies committed commands to a vector
  index. The leader replicates its log to mentors, a mentor forwards to at most one follower (chain
  replication, \<^verbatim>\<open>topology.cpp\<close>). A lease lets the leader answer searches locally. Client writes carry
  a request identifier; a table of recent identifiers answers repeated writes. Snapshots of the
  index and of that table bound the log and bring peers up to date that are far behind. Clients
  (\<^verbatim>\<open>db_client.cpp\<close>) look for the leader and retry.

  \<^bold>\<open>How the code is modelled.\<close> A class is a record with its members; a member function that returns
  \<^verbatim>\<open>Result<T>\<close> is a function from the state to an error or a value and the new state (\<open>Prelude\<close>:
  \<open>prog\<close>, \<open>andThen\<close>), so that an early return keeps what was written before it. Every message of an
  error is a value of the datatype \<open>error\<close>. A function that holds a mutex is one step; a function
  that waits for remote calls is split where it waits (\<open>_begin\<close> yields the requests, \<open>_end\<close> takes the
  responses), and anything may happen to the node in between. The clock, the random draws and the
  outcomes of system calls are part of the state. Indexes, terms and sizes are \<open>nat\<close>; values that
  the code packs, shifts or lets wrap are machine words.

  \<^bold>\<open>Theories and sources.\<close>
  \<^item> \<open>Prelude\<close>, \<open>Strings\<close>, \<open>Posix\<close>: results, ordered maps, C++ strings, the file system with a script
    of the outcomes of the coming system calls (short transfers, interrupts, errors).
  \<^item> \<open>LogEntry\<close>, \<open>SampleCodec\<close>: \<^verbatim>\<open>log_entry.cpp\<close>; a concrete codec for the witnesses.
  \<^item> \<open>WalRecord\<close>, \<open>Wal\<close>: \<^verbatim>\<open>wal.cpp\<close>, every member function. \<open>Log\<close> is the abstract log and the contract
    \<open>log_store\<close> between the node and its log; \<open>WalInv\<close> relates the files to the abstract log;
    \<open>WalRead\<close>, \<open>WalAppend\<close>, \<open>WalTruncate\<close>, \<open>WalRecover\<close> prove the operations correct; \<open>WalStore\<close>
    interprets the contract on the write-ahead log.
  \<^item> \<open>RaftMeta\<close>, \<open>Lease\<close>, \<open>Dedup\<close>, \<open>Config\<close>, \<open>SnapshotStore\<close>, \<open>VectorIndex\<close>, \<open>IndexMaintenance\<close>: the files
    of the same names. \<open>Topology\<close> models \<^verbatim>\<open>topology.cpp\<close>, \<open>TopologyChain\<close> proves it correct.
  \<^item> \<open>RaftMessages\<close>: the messages of \<^verbatim>\<open>proto/raft.proto\<close>.
  \<^item> \<open>RaftNode\<close> (state, role changes, the handlers of votes, heartbeats and entries), \<open>RaftLeader\<close>
    (elections, proposals, commitment, heartbeats, lease reads), \<open>RaftReplication\<close> (replication,
    forwarding, timeouts), \<open>RaftApply\<close> (apply loop, client requests, snapshot task), \<open>RaftSnapshot\<close>
    (snapshot transfer), \<open>RaftStartup\<close> (construction, \<^verbatim>\<open>cmd/node/main.cpp\<close>): \<^verbatim>\<open>raft_node.cpp\<close>.
  \<^item> \<open>RpcLayer\<close>: \<^verbatim>\<open>raft_client.cpp\<close> and \<^verbatim>\<open>raft_server.cpp\<close>. \<open>DbClient\<close>: \<^verbatim>\<open>db_client.cpp\<close>.
    \<open>Logging\<close>: \<^verbatim>\<open>logger.cpp\<close> and \<^verbatim>\<open>perf_counters.hpp\<close>.

  \<^bold>\<open>What is shown.\<close>
  \<^item> Storage. The write-ahead log refines a list of entries: append, read, both truncations, reopening,
    recovery of a torn append, refusal of gaps (\<open>WalStore\<close>); the checksum finds every changed byte
    and the write loop ends (\<open>WalRecord\<close>). Metadata, the table of requests, the snapshot description
    and the index survive a save and a load; a metadata save that fails anywhere leaves the old or the
    new values (\<open>RaftMeta\<close>), a failed snapshot one of three named outcomes (\<open>SnapshotStore\<close>).
  \<^item> Elections. \<open>Voting\<close> is an abstract machine of voters over the contract \<open>quorum_system\<close>;
    \<open>RaftBallot\<close> shows what every operation of a node does to term, role, vote and metadata file, over
    the contract \<open>meta_store\<close>, which is interpreted on \<^verbatim>\<open>RaftMeta\<close>; \<open>Cluster\<close> shows that a cluster of
    nodes implements the machine over all interleavings, lost and repeated messages, failing writes and
    crashes, and concludes election safety, under a condition on the end of rounds. \<open>ElectionRuns\<close> shows
    that the condition is needed: a run of the code elects two leaders in one term.
  \<^item> Replication. \<open>LogMerge\<close> specifies what a batch does to a log; \<open>RaftLog\<close> proves the handler against
    the contract \<open>log_store\<close>; \<open>ReplicationRuns\<close> concludes log matching for nodes on the write-ahead log.
    \<open>RaftCommit\<close> gives the commit index its specification and bounds the retreat after refusals;
    \<open>RaftProgress\<close> keeps the record of the peers well formed over every operation; \<open>RaftLease\<close> relates
    the lease to the election timers.
  \<^item> State machine. \<open>RaftStateMachine\<close>: the apply loop ends, applies every committed entry once and in
    order, and replicas that agree on the log reach the same state. \<open>ClientWrites\<close>: what a repeated write
    is told. \<open>SnapshotTransfer\<close>: a transferred snapshot is the same two files. \<open>VectorIndex\<close> and
    \<open>IndexMaintenance\<close>: the index is a map from keys to vectors, also under maintenance.
  \<^item> Topology, configuration, clients. Rebalancing builds the two-level chain and unhealthy mentors lose
    their followers (\<open>TopologyChain\<close>); a configuration that loads has consistent timing (\<open>Config\<close>); the
    retries of a write are one request (\<open>DbClient\<close>).

  \<^bold>\<open>Parameters.\<close> Code that is not part of the repository is an argument of the model. The protobuf
  classes are a \<open>codec\<close> (\<open>codec_ok\<close>: parsing what was serialised gives the message back), the TOML
  library a lookup (\<open>toml\<close>), the HNSW engine of \<^verbatim>\<open>include/vector/index*.hpp\<close> an \<open>engine\<close>
  (\<open>engine_writes_ok\<close>, \<open>engine_saves_ok\<close>, \<open>engine_maintains_ok\<close>: it behaves as a map, saves and copies it),
  gRPC a \<open>raft_service\<close>, for which nothing is assumed. Every hypothesis on a parameter is met by a
  concrete instance in a witness.

  \<^bold>\<open>Bounds.\<close> No definition has fuel. Loops around system calls end because the script of outcomes
  is finite and every call succeeds once it is used up; loops over files, indexes, candidates and
  attempts have measures (\<open>recover_loop\<close>: bytes left, \<open>ApplyCommittedEntries\<close>: entries left,
  \<open>probe_threads\<close>: threads left). The theorems on the write-ahead log assume calls that succeed; the
  error branches are part of the definitions. \<open>RaftMeta_Save\<close> and \<open>FinalizeSnapshot\<close> are proved for
  every script, \<open>WriteAll\<close> for interrupted and short writes. Numbers in messages are assumed below \<open>2 ^ 64\<close> where they are stored.

  \<^bold>\<open>Not modelled.\<close> The text the logger and the counters print, the scope guard (its actions are
  written out where it is used), the benchmark, the vendored engine (a parameter), the threads and
  condition variables around the loop bodies, and the interleaving of two handlers of one node inside a
  handler that releases its lock. \<open>Cluster\<close> leaves out forwarding by mentors and snapshot transfers.
\<close>

end
